(* ===== verification/Prelude.thy ===== *)
theory Prelude
  imports Main "HOL-Library.Word" "HOL-Library.AList"
begin

text \<open>
  What every component theory shares: the machine types, the outcome of a Rust call that
  may panic, Rust's integer arithmetic on words, hash maps as association lists, and the
  generic induction over labelled steps.

  Conventions of the whole development.
  \<^item> A \<^verbatim>\<open>u64\<close>, \<^verbatim>\<open>u32\<close> or \<^verbatim>\<open>u8\<close> is a word of its width. The operators \<^verbatim>\<open>+\<close> and \<^verbatim>\<open>-\<close> of
    Rust are \<open>checked_add\<close> and \<open>checked_sub\<close> with overflow as a panic, which is what
    a build with overflow checks does.
  \<^item> A method with \<^verbatim>\<open>&mut self\<close> takes the state and returns the new one. A \<^verbatim>\<open>Result<T, E>\<close>
    is \<open>'e + 'a\<close> with \<open>Inl\<close> the error. A panic ends the call and its state is lost.
  \<^item> A \<^verbatim>\<open>HashMap\<close> that is iterated is an association list with distinct keys, whose order
    stands for the unspecified iteration order.
\<close>

section \<open>Machine types and panics\<close>

type_synonym byte = "8 word"
type_synonym u32 = "32 word"
type_synonym u64 = "64 word"

datatype panic =
    Overflow
  | IndexOutOfBounds
  | AssertionFailed string
  | ExpectFailed string
  | ExplicitPanic string
  | Todo string
  | BusError

datatype 'a outcome = Done 'a | Panic panic

definition obind :: "'a outcome \<Rightarrow> ('a \<Rightarrow> 'b outcome) \<Rightarrow> 'b outcome" where
  "obind m f = (case m of Done x \<Rightarrow> f x | Panic p \<Rightarrow> Panic p)"

definition omap :: "('a \<Rightarrow> 'b) \<Rightarrow> 'a outcome \<Rightarrow> 'b outcome" where
  "omap f m = obind m (\<lambda>x. Done (f x))"

definition panics :: "'a outcome \<Rightarrow> bool" where
  "panics m = (case m of Done _ \<Rightarrow> False | Panic _ \<Rightarrow> True)"

lemma obind_simps [simp]:
  "obind (Done x) f = f x"
  "obind (Panic p) f = Panic p"
  by (simp_all add: obind_def)

lemma omap_simps [simp]:
  "omap f (Done x) = Done (f x)"
  "omap f (Panic p) = Panic p"
  by (simp_all add: omap_def)

lemma panics_simps [simp]:
  "panics (Done x) = False"
  "panics (Panic p) = True"
  by (simp_all add: panics_def)

lemma obind_eq_Done: "obind m f = Done y \<longleftrightarrow> (\<exists>x. m = Done x \<and> f x = Done y)"
  by (cases m) simp_all

lemma omap_eq_Done: "omap f m = Done y \<longleftrightarrow> (\<exists>x. m = Done x \<and> y = f x)"
  by (cases m) auto

lemma omap_eq_Panic [simp]: "omap f m = Panic p \<longleftrightarrow> m = Panic p"
  by (cases m) auto

lemma panics_omap [simp]: "panics (omap f m) = panics m"
  by (cases m) simp_all

lemma not_panics_iff: "\<not> panics m \<longleftrightarrow> (\<exists>x. m = Done x)"
  by (cases m) simp_all

section \<open>Fallible steps on a state\<close>

text \<open>
  The \<^verbatim>\<open>?\<close> after a call with \<^verbatim>\<open>&mut self\<close>: an error ends the operation with the state the call
  left. \<open>map_err\<close> is \<^verbatim>\<open>Result::map_err\<close>, and \<open>expect_some\<close> is \<^verbatim>\<open>Option::expect\<close>.
\<close>

definition and_then :: "('s \<times> ('e + 'a)) outcome \<Rightarrow>
    ('s \<Rightarrow> 'a \<Rightarrow> ('s \<times> ('e + 'b)) outcome) \<Rightarrow> ('s \<times> ('e + 'b)) outcome" where
  "and_then m f = obind m (\<lambda>(s, r). case r of Inl e \<Rightarrow> Done (s, Inl e) | Inr x \<Rightarrow> f s x)"

definition map_err :: "('e \<Rightarrow> 'd) \<Rightarrow> ('s \<times> ('e + 'a)) outcome \<Rightarrow> ('s \<times> ('d + 'a)) outcome" where
  "map_err f m = omap (\<lambda>(s, r). (s, map_sum f id r)) m"

definition expect_some :: "string \<Rightarrow> 'a option \<Rightarrow> 'a outcome" where
  "expect_some msg v = (case v of None \<Rightarrow> Panic (ExpectFailed msg) | Some x \<Rightarrow> Done x)"

lemma and_then_simps [simp]:
  "and_then (Done (s, Inl e)) f = Done (s, Inl e)"
  "and_then (Done (s, Inr x)) f = f s x"
  "and_then (Panic p) f = Panic p"
  by (simp_all add: and_then_def)

lemma and_then_eq_Done:
  "and_then m f = Done (s', r) \<longleftrightarrow>
     (\<exists>e. m = Done (s', Inl e) \<and> r = Inl e) \<or> (\<exists>s x. m = Done (s, Inr x) \<and> f s x = Done (s', r))"
  by (cases m) (auto simp: and_then_def split: sum.splits)

lemma map_err_simps [simp]:
  "map_err f (Done (s, Inl e)) = Done (s, Inl (f e))"
  "map_err f (Done (s, Inr x)) = Done (s, Inr x)"
  "map_err f (Panic p) = Panic p"
  by (simp_all add: map_err_def)

lemma map_err_eq_Done:
  "map_err f m = Done (s, Inr x) \<longleftrightarrow> m = Done (s, Inr x)"
  "map_err f m = Done (s, Inl d) \<longleftrightarrow> (\<exists>e. m = Done (s, Inl e) \<and> d = f e)"
  by (cases m; auto simp: map_err_def map_sum_def split: sum.splits)+

lemma expect_some_simps [simp]:
  "expect_some msg (Some x) = Done x"
  "expect_some msg None = Panic (ExpectFailed msg)"
  by (simp_all add: expect_some_def)

lemma expect_some_eq_Done: "expect_some msg v = Done x \<longleftrightarrow> v = Some x"
  by (cases v) auto

section \<open>Integer arithmetic of the source\<close>

definition checked_add :: "'a::len word \<Rightarrow> 'a word \<Rightarrow> 'a word option" where
  "checked_add a b = (if unat a + unat b < 2 ^ LENGTH('a) then Some (a + b) else None)"

definition checked_sub :: "'a::len word \<Rightarrow> 'a word \<Rightarrow> 'a word option" where
  "checked_sub a b = (if b \<le> a then Some (a - b) else None)"

definition saturating_add :: "'a::len word \<Rightarrow> 'a word \<Rightarrow> 'a word" where
  "saturating_add a b = (case checked_add a b of Some c \<Rightarrow> c | None \<Rightarrow> - 1)"

definition saturating_sub :: "'a::len word \<Rightarrow> 'a word \<Rightarrow> 'a word" where
  "saturating_sub a b = (case checked_sub a b of Some c \<Rightarrow> c | None \<Rightarrow> 0)"

text \<open>The operator of the source: the sum, or the panic of the overflow check.\<close>

definition add_w :: "'a::len word \<Rightarrow> 'a word \<Rightarrow> 'a word outcome" where
  "add_w a b = (case checked_add a b of Some c \<Rightarrow> Done c | None \<Rightarrow> Panic Overflow)"

definition sub_w :: "'a::len word \<Rightarrow> 'a word \<Rightarrow> 'a word outcome" where
  "sub_w a b = (case checked_sub a b of Some c \<Rightarrow> Done c | None \<Rightarrow> Panic Overflow)"

lemma unat_add_lem': "unat a + unat b < 2 ^ LENGTH('a) \<Longrightarrow> unat (a + b) = unat a + unat b"
  for a b :: "'a::len word"
  by (simp add: unat_word_ariths)

lemma checked_add_eq_Some:
  "checked_add a b = Some c \<longleftrightarrow> unat c = unat a + unat b"
  for a b c :: "'a::len word"
proof
  assume "checked_add a b = Some c"
  then show "unat c = unat a + unat b"
    by (auto simp: checked_add_def unat_add_lem' split: if_splits)
next
  assume *: "unat c = unat a + unat b"
  have "unat c < 2 ^ LENGTH('a)" by (rule unsigned_less)
  with * show "checked_add a b = Some c"
    by (simp add: checked_add_def word_unat_eq_iff unat_add_lem')
qed

lemma checked_add_eq_None:
  "checked_add a b = None \<longleftrightarrow> 2 ^ LENGTH('a) \<le> unat a + unat b"
  for a b :: "'a::len word"
  by (simp add: checked_add_def not_less)

lemma checked_add_le: "checked_add a b = Some c \<Longrightarrow> a \<le> c"
  by (simp add: checked_add_eq_Some word_le_nat_alt)

lemma checked_add_1_less: "checked_add a 1 = Some c \<Longrightarrow> a < c"
  by (simp add: checked_add_eq_Some word_less_nat_alt)

lemma unat_max_word: "unat (- 1 :: 'a::len word) = 2 ^ LENGTH('a) - 1"
  by (simp add: unsigned_minus_1_eq_mask mask_eq_exp_minus_1)

lemma checked_add_1_None: "checked_add a 1 = None \<longleftrightarrow> a = - 1"
  for a :: "'a::len word"
proof -
  have "unat (- 1 :: 'a word) = 2 ^ LENGTH('a) - 1" by (rule unat_max_word)
  moreover have "unat a < 2 ^ LENGTH('a)" by (rule unsigned_less)
  moreover have "checked_add a 1 = None \<longleftrightarrow> 2 ^ LENGTH('a) \<le> unat a + 1"
    by (simp add: checked_add_eq_None)
  ultimately show ?thesis
    unfolding word_unat_eq_iff by linarith
qed

lemma checked_sub_eq_Some:
  "checked_sub a b = Some c \<longleftrightarrow> unat a = unat c + unat b"
  for a b c :: "'a::len word"
  unfolding checked_sub_def
  by (auto simp: word_le_nat_alt word_unat_eq_iff unat_sub_if')

lemma unat_saturating_add:
  "unat (saturating_add a b) = min (unat a + unat b) (2 ^ LENGTH('a) - 1)"
  for a b :: "'a::len word"
  by (auto simp: saturating_add_def checked_add_def unat_add_lem' unat_max_word
      split: if_splits)

lemma unat_saturating_sub: "unat (saturating_sub a b) = unat a - unat b"
  by (auto simp: saturating_sub_def checked_sub_def unat_sub_if' word_le_nat_alt)

lemma add_w_eq_Done: "add_w a b = Done c \<longleftrightarrow> unat c = unat a + unat b"
  by (auto simp: add_w_def checked_add_eq_Some [symmetric] split: option.splits)

lemma add_w_DoneI: "unat a + unat b < 2 ^ LENGTH('a) \<Longrightarrow> add_w a b = Done (a + b)"
  for a b :: "'a::len word"
  by (simp add: add_w_def checked_add_def)

lemma panics_add_w: "panics (add_w a b) \<longleftrightarrow> 2 ^ LENGTH('a) \<le> unat a + unat b"
  for a b :: "'a::len word"
  by (auto simp: add_w_def checked_add_def split: option.splits)

lemma sub_w_eq_Done: "sub_w a b = Done c \<longleftrightarrow> unat a = unat c + unat b"
  by (auto simp: sub_w_def checked_sub_eq_Some [symmetric] split: option.splits)

lemma sub_w_DoneI: "b \<le> a \<Longrightarrow> sub_w a b = Done (a - b)"
  by (simp add: sub_w_def checked_sub_def)

lemma panics_sub_w: "panics (sub_w a b) \<longleftrightarrow> a < b"
  by (auto simp: sub_w_def checked_sub_def split: option.splits)

lemma panics_if [simp]: "panics (if b then x else y) = (if b then panics x else panics y)"
  by simp

lemma panics_obind: "panics (obind m f) \<longleftrightarrow> panics m \<or> (\<exists>x. m = Done x \<and> panics (f x))"
  by (cases m) auto

lemma panics_add_1: "panics (add_w a 1) \<longleftrightarrow> a = - 1"
  using checked_add_1_None [of a] by (auto simp: add_w_def split: option.splits)

lemma panics_case_prod [simp]: "panics (case p of (a, b) \<Rightarrow> f a b) = (case p of (a, b) \<Rightarrow> panics (f a b))"
  by (cases p) simp

section \<open>Hash maps\<close>

text \<open>
  \<^verbatim>\<open>get\<close>, \<^verbatim>\<open>contains_key\<close>, a write through \<^verbatim>\<open>get_mut\<close>, \<^verbatim>\<open>insert\<close> and \<^verbatim>\<open>remove\<close>. A write through
  \<^verbatim>\<open>get_mut\<close> keeps the keys and their order.
\<close>

type_synonym ('k, 'v) hash_map = "('k \<times> 'v) list"

definition hm_keys :: "('k, 'v) hash_map \<Rightarrow> 'k list" where
  "hm_keys m = map fst m"

definition hm_contains :: "('k, 'v) hash_map \<Rightarrow> 'k \<Rightarrow> bool" where
  "hm_contains m k = (map_of m k \<noteq> None)"

definition hm_modify :: "'k \<Rightarrow> ('v \<Rightarrow> 'v) \<Rightarrow> ('k, 'v) hash_map \<Rightarrow> ('k, 'v) hash_map" where
  "hm_modify k f m = map (\<lambda>(k', v). if k' = k then (k', f v) else (k', v)) m"

definition hm_insert :: "'k \<Rightarrow> 'v \<Rightarrow> ('k, 'v) hash_map \<Rightarrow> ('k, 'v) hash_map" where
  "hm_insert k v m = AList.update k v m"

definition hm_delete :: "'k \<Rightarrow> ('k, 'v) hash_map \<Rightarrow> ('k, 'v) hash_map" where
  "hm_delete k m = filter (\<lambda>(k', v). k' \<noteq> k) m"

definition hm_wf :: "('k, 'v) hash_map \<Rightarrow> bool" where
  "hm_wf m = distinct (hm_keys m)"

lemma hm_contains_iff: "hm_contains m k \<longleftrightarrow> k \<in> set (hm_keys m)"
  by (simp add: hm_contains_def hm_keys_def map_of_eq_None_iff)

lemma hm_keys_modify [simp]: "hm_keys (hm_modify k f m) = hm_keys m"
  by (induction m) (auto simp: hm_keys_def hm_modify_def)

lemma length_hm_modify [simp]: "length (hm_modify k f m) = length m"
  by (simp add: hm_modify_def)

lemma length_hm_keys [simp]: "length (hm_keys m) = length m"
  by (simp add: hm_keys_def)

lemma hm_contains_modify [simp]: "hm_contains (hm_modify k f m) = hm_contains m"
  by (rule ext) (simp add: hm_contains_iff)

lemma hm_wf_modify [simp]: "hm_wf (hm_modify k f m) = hm_wf m"
  by (simp add: hm_wf_def)

lemma map_of_hm_modify [simp]:
  "map_of (hm_modify k f m) k' = (if k' = k then map_option f (map_of m k) else map_of m k')"
  by (induction m) (auto simp: hm_modify_def)

lemma hm_keys_insert: "set (hm_keys (hm_insert k v m)) = insert k (set (hm_keys m))"
  by (induction m) (auto simp: hm_keys_def hm_insert_def)

lemma hm_wf_insert: "hm_wf m \<Longrightarrow> hm_wf (hm_insert k v m)"
  by (simp add: hm_wf_def hm_keys_def hm_insert_def distinct_update)

lemma map_of_hm_insert [simp]: "map_of (hm_insert k v m) = (map_of m)(k \<mapsto> v)"
  by (simp add: hm_insert_def update_conv')

lemma map_of_hm_delete [simp]: "map_of (hm_delete k m) = (map_of m)(k := None)"
  by (induction m) (auto simp: hm_delete_def)

lemma hm_keys_delete: "hm_keys (hm_delete k m) = filter (\<lambda>k'. k' \<noteq> k) (hm_keys m)"
  by (induction m) (auto simp: hm_keys_def hm_delete_def)

lemma hm_delete_insert: "hm_delete k (hm_insert k v m) = hm_delete k m"
  by (induction m) (auto simp: hm_delete_def hm_insert_def)

lemma hm_delete_absent: "k \<notin> set (hm_keys m) \<Longrightarrow> hm_delete k m = m"
  by (induction m) (auto simp: hm_delete_def hm_keys_def)

section \<open>Labelled steps and runs\<close>

text \<open>
  A component's step relation relates a state, a label and the next state; \<open>steps\<close> is
  its finite runs. The locales give the two inductions every component uses: an invariant
  of one step holds along a run, and a quantity no step lowers is never lowered by a run.
\<close>

inductive steps :: "('s \<Rightarrow> 'l \<Rightarrow> 's \<Rightarrow> bool) \<Rightarrow> 's \<Rightarrow> 'l list \<Rightarrow> 's \<Rightarrow> bool"
  for R :: "'s \<Rightarrow> 'l \<Rightarrow> 's \<Rightarrow> bool" where
  steps_nil: "steps R s [] s"
| steps_cons: "R s l t \<Longrightarrow> steps R t ls u \<Longrightarrow> steps R s (l # ls) u"

inductive_simps steps_nil_iff [simp]: "steps R s [] t"
inductive_simps steps_cons_iff: "steps R s (l # ls) t"

lemma steps_append:
  "steps R s (xs @ ys) u \<longleftrightarrow> (\<exists>t. steps R s xs t \<and> steps R t ys u)"
proof (induction xs arbitrary: s)
  case Nil
  show ?case by simp
next
  case (Cons x xs)
  show ?case by (simp add: Cons.IH steps_cons_iff) blast
qed

locale step_invariant =
  fixes R :: "'s \<Rightarrow> 'l \<Rightarrow> 's \<Rightarrow> bool"
    and inv :: "'s \<Rightarrow> bool"
  assumes inv_step: "R s l t \<Longrightarrow> inv s \<Longrightarrow> inv t"
begin

lemma inv_steps: "steps R s ls t \<Longrightarrow> inv s \<Longrightarrow> inv t"
  by (induction rule: steps.induct) (auto dest: inv_step)

end

locale step_monotone =
  fixes R :: "'s \<Rightarrow> 'l \<Rightarrow> 's \<Rightarrow> bool"
    and measure_of :: "'s \<Rightarrow> 'o::order"
  assumes mono_step: "R s l t \<Longrightarrow> measure_of s \<le> measure_of t"
begin

lemma mono_steps: "steps R s ls t \<Longrightarrow> measure_of s \<le> measure_of t"
  by (induction rule: steps.induct) (auto dest: mono_step intro: order_trans)

end

section \<open>Operations with answers, and their specifications\<close>

text \<open>
  A component whose operations answer, run against a specification: an abstract machine that
  gives the new abstract state and the answer of every operation. \<open>op_run\<close> collects the answers
  of a sequence of operations and stops at a panic. An operation may demand something of the
  abstract state (\<open>fit\<close>); \<open>all_fit\<close> says that every operation of a sequence does so when it
  is reached.
\<close>

fun op_run :: "('o \<Rightarrow> 's \<Rightarrow> ('s \<times> 'a) outcome) \<Rightarrow> 'o list \<Rightarrow> 's \<Rightarrow> ('s \<times> 'a list) outcome" where
  "op_run c [] s = Done (s, [])"
| "op_run c (x # xs) s = obind (c x s) (\<lambda>(s, a). omap (\<lambda>(s, as). (s, a # as)) (op_run c xs s))"

fun spec_run :: "('o \<Rightarrow> 't \<Rightarrow> 't \<times> 'a) \<Rightarrow> 'o list \<Rightarrow> 't \<Rightarrow> 't \<times> 'a list" where
  "spec_run a [] t = (t, [])"
| "spec_run a (x # xs) t =
     (let (t, y) = a x t; (t, ys) = spec_run a xs t in (t, y # ys))"

fun all_fit :: "('o \<Rightarrow> 't \<Rightarrow> 't \<times> 'a) \<Rightarrow> ('o \<Rightarrow> 't \<Rightarrow> bool) \<Rightarrow> 'o list \<Rightarrow> 't \<Rightarrow> bool" where
  "all_fit a fit [] t = True"
| "all_fit a fit (x # xs) t \<longleftrightarrow> fit x t \<and> all_fit a fit xs (fst (a x t))"

locale simulation =
  fixes conc :: "'o \<Rightarrow> 's \<Rightarrow> ('s \<times> 'a) outcome"
    and abst :: "'o \<Rightarrow> 't \<Rightarrow> 't \<times> 'a"
    and rel :: "'t \<Rightarrow> 's \<Rightarrow> bool"
    and fit :: "'o \<Rightarrow> 't \<Rightarrow> bool"
  assumes sim_step: "rel t s \<Longrightarrow> fit x t \<Longrightarrow>
      \<exists>s'. conc x s = Done (s', snd (abst x t)) \<and> rel (fst (abst x t)) s'"
begin

lemma sim_run:
  "rel t s \<Longrightarrow> all_fit abst fit xs t \<Longrightarrow>
   \<exists>s'. op_run conc xs s = Done (s', snd (spec_run abst xs t)) \<and> rel (fst (spec_run abst xs t)) s'"
proof (induction xs arbitrary: s t)
  case Nil
  then show ?case by simp
next
  case (Cons x xs)
  then obtain s1 where s1: "conc x s = Done (s1, snd (abst x t))" "rel (fst (abst x t)) s1"
    using sim_step [of t s x] by auto
  with Cons.IH [OF this(2)] Cons.prems(2) obtain s2 where
    "op_run conc xs s1 = Done (s2, snd (spec_run abst xs (fst (abst x t))))"
    "rel (fst (spec_run abst xs (fst (abst x t)))) s2" by auto
  with s1(1) show ?case by (simp add: case_prod_unfold Let_def)
qed

end

section \<open>Majorities\<close>

text \<open>
  What the elections rely on: two quorums share a member. The code's test
  \<^verbatim>\<open>granted_votes.len() > voters.len() / 2\<close> is one, for the subsets of one voter list.
\<close>

locale quorum_system =
  fixes quorum :: "'n set \<Rightarrow> bool"
  assumes quorum_intersect: "quorum A \<Longrightarrow> quorum B \<Longrightarrow> A \<inter> B \<noteq> {}"
begin

lemma common_member:
  assumes "quorum A" and "quorum B"
  obtains k where "k \<in> A" and "k \<in> B"
  using quorum_intersect [OF assms] by auto

lemma unique_choice:
  assumes "quorum A" and "quorum B"
    and "\<And>k. k \<in> A \<Longrightarrow> P k x" and "\<And>k. k \<in> B \<Longrightarrow> P k y"
    and "\<And>k x y. P k x \<Longrightarrow> P k y \<Longrightarrow> x = y"
  shows "x = y"
proof -
  obtain k where k: "k \<in> A" "k \<in> B"
    using assms(1,2) by (rule common_member)
  have "P k x" "P k y" by (rule assms(3) [OF k(1)], rule assms(4) [OF k(2)])
  then show ?thesis by (rule assms(5))
qed

end

definition majority :: "'n list \<Rightarrow> 'n set \<Rightarrow> bool" where
  "majority vs A \<longleftrightarrow> A \<subseteq> set vs \<and> length vs div 2 < card A"

lemma majority_intersect:
  assumes "majority vs A" and "majority vs B"
  shows "A \<inter> B \<noteq> {}"
proof
  assume disj: "A \<inter> B = {}"
  have fin: "finite A" "finite B" and sub: "A \<union> B \<subseteq> set vs"
    using assms by (auto simp: majority_def intro: finite_subset)
  have "card A + card B = card (A \<union> B)"
    using fin disj by (simp add: card_Un_disjoint)
  also have "\<dots> \<le> card (set vs)"
    using sub by (simp add: card_mono)
  also have "\<dots> \<le> length vs"
    by (rule card_length)
  finally show False
    using assms by (simp add: majority_def) linarith
qed

interpretation voter_majority: quorum_system "majority vs" for vs :: "'n list"
  by unfold_locales (rule majority_intersect)

end
