(* ===== verification/Raft_Types.thy ===== *)
theory Raft_Types
  imports Prelude
begin

text \<open>
  The data of \<^verbatim>\<open>src/raft/types.rs\<close>: node and operation identifiers, the Raft state, events
  and effects, messages, errors, the pending operations of the runtime and the log entry.
  Fields carry a two-letter prefix where several structs share a field name. A
  \<^verbatim>\<open>String\<close> is its sequence of UTF-8 bytes, so a \<^typ>\<open>string\<close> of eight-bit characters. The
  receiving half of a one-shot channel is a number, and what is sent is recorded by the
  runtime theory.
\<close>

section \<open>Identifiers and roles\<close>

datatype operation_id = OperationId u64

datatype node_id = NodeId string

text \<open>\<^verbatim>\<open>impl Display for NodeId\<close>.\<close>

primrec node_display :: "node_id \<Rightarrow> string" where
  "node_display (NodeId s) = s"

datatype role = Candidate | Follower | Leader

section \<open>Messages\<close>

record vote_request =
  vq_term :: u64
  vq_candidate_id :: node_id
  vq_last_log_index :: u64
  vq_last_log_term :: u64

record heartbeat_request =
  hb_term :: u64
  hb_leader_id :: node_id
  hb_log_index :: u64
  hb_log_term :: u64
  hb_leader_commit_index :: u64

record vote_response =
  vp_term :: u64
  vp_vote_granted :: bool

record append_entries_request =
  aq_term :: u64
  aq_leader_id :: node_id
  aq_prev_log_index :: u64
  aq_prev_log_term :: u64
  aq_commit_index :: u64

record append_entries_response =
  ap_term :: u64
  ap_success :: bool
  ap_last_log_index :: u64
  ap_last_log_term :: u64
  ap_leader_id :: "node_id option"

record persisted_entries =
  pe_operation_id :: operation_id
  pe_last_log_index :: u64
  pe_last_log_term :: u64
  pe_leader_commit_index :: u64

record applied_entries =
  ae_operation_id :: operation_id
  ae_through :: u64

record received_vote_response =
  rv_from :: node_id
  rv_response :: vote_response

record received_heartbeat_response =
  rh_from :: node_id
  rh_response :: append_entries_response

record local_entry =
  le_operation_id :: operation_id
  le_index :: u64
  le_term :: u64

record replication_target =
  tg_peer :: node_id
  tg_last_log_index :: u64
  tg_last_log_term :: u64
  tg_leader_id :: node_id
  tg_leader_commit_index :: u64

record received_append_entries_response =
  rr_operation_id :: operation_id
  rr_from :: node_id
  rr_response :: append_entries_response

record received_append_entries =
  ra_operation_id :: operation_id
  ra_request :: append_entries_request
  ra_local_prev_log_term :: "u64 option"

section \<open>Durable state and log entries\<close>

record state =
  hs_current_term :: u64
  hs_voted_for :: "node_id option"

record log_entry =
  en_term :: u64
  en_command :: "byte list"

section \<open>The Raft state, events and effects\<close>

record progress =
  next_index :: u64
  match_index :: u64

record raft =
  self_id :: node_id
  voters :: "(node_id, progress) hash_map"
  learners :: "(node_id, progress) hash_map"
  role :: role
  current_term :: u64
  leader_id :: "node_id option"
  voted_for :: "node_id option"
  last_applied :: u64
  commit_index :: u64
  last_log_index :: u64
  last_log_term :: u64
  granted_votes :: "node_id set"

datatype event =
    ElectionTimeout
  | HeartbeatTimeout
  | Heartbeat heartbeat_request
  | RequestVote vote_request
  | AppendEntries received_append_entries
  | AppendEntriesResponse received_append_entries_response
  | EntriesPersisted persisted_entries
  | EntriesApplied applied_entries
  | VoteResponse received_vote_response
  | HeartbeatResponse received_heartbeat_response
  | LocalEntriesAppended local_entry
  | Write operation_id

text \<open>The arguments of an effect stand in the order of the source's fields.\<close>

datatype effect =
    SendRequestVotes state "node_id list" vote_request
  | SendAppendEntries operation_id "replication_target list"
  | SendRequestVoteResponse "state option" node_id vote_response
  | SendHeartbeat "node_id list" heartbeat_request
  | SendHeartbeatResponse node_id append_entries_response bool "u64 option"
  | PersistEntries operation_id node_id append_entries_response "u64 option" u64
  | ApplyCommitted operation_id u64
  | RejectAppendEntries operation_id node_id append_entries_response
  | AppendLocal operation_id u64 u64
  | CompleteOperation operation_id

section \<open>Errors\<close>

datatype error =
    NotLeader "node_id option"
  | NotCandidate
  | AppendFailed
  | EntrySerialisationFailed string
  | RejectingEntryFailed string
  | PersistStateFailed string
  | ReadCommittedEntryFailed string
  | EntryDeserialisationFailed string
  | ApplyCommittedEntryFailed string

text \<open>The messages \<^verbatim>\<open>thiserror\<close> derives from the attributes of the enum.\<close>

fun error_display :: "error \<Rightarrow> string" where
  "error_display (NotLeader _) = ''node is not the leader''"
| "error_display NotCandidate = ''node is not a candidate''"
| "error_display AppendFailed = ''appending to local storage failed''"
| "error_display (EntrySerialisationFailed _) = ''log entry serialisation failed''"
| "error_display (RejectingEntryFailed _) =
     ''channel is not able to recieve response for entry rejection''"
| "error_display (PersistStateFailed e) = ''persisting Raft hard state failed: '' @ e"
| "error_display (ReadCommittedEntryFailed e) = ''reading a committed log entry failed: '' @ e"
| "error_display (EntryDeserialisationFailed e) =
     ''decoding a committed log entry failed: '' @ e"
| "error_display (ApplyCommittedEntryFailed e) =
     ''applying a committed log entry failed: '' @ e"

section \<open>Operations and runtime messages\<close>

text \<open>The sending half of a one-shot channel, by the number of its receiver.\<close>

type_synonym chan = nat

datatype operation =
    OpWrite "byte list option" chan
  | OpVote chan
  | OpAppendEntries "byte list" chan

datatype runtime_message = MsgWrite "byte list" chan

text \<open>What a one-shot channel of the runtime carries: one constructor per reply type.\<close>

datatype reply =
    WriteReply "error + unit"
  | VoteReply "error + vote_response"
  | AppendReply "error + append_entries_response"

text \<open>\<^verbatim>\<open>trait FSM\<close>: the application's \<^verbatim>\<open>apply\<close> is a parameter of the model.\<close>

type_synonym 'f fsm_apply = "'f \<Rightarrow> byte list \<Rightarrow> 'f \<times> (string + unit)"

section \<open>The order of log positions\<close>

text \<open>
  A log position is the term and the index of a last entry. Raft compares positions by
  term and then by index; the type's order is that comparison.
\<close>

datatype log_pos = LogPos (pos_term: u64) (pos_index: u64)

instantiation log_pos :: linorder
begin

definition less_eq_log_pos :: "log_pos \<Rightarrow> log_pos \<Rightarrow> bool" where
  "less_eq_log_pos a b \<longleftrightarrow>
     pos_term a < pos_term b \<or> pos_term a = pos_term b \<and> pos_index a \<le> pos_index b"

definition less_log_pos :: "log_pos \<Rightarrow> log_pos \<Rightarrow> bool" where
  "less_log_pos a b \<longleftrightarrow>
     pos_term a < pos_term b \<or> pos_term a = pos_term b \<and> pos_index a < pos_index b"

instance
  by standard (auto simp: less_eq_log_pos_def less_log_pos_def log_pos.expand)

end

definition raft_pos :: "raft \<Rightarrow> log_pos" where
  "raft_pos s = LogPos (last_log_term s) (last_log_index s)"

definition request_pos :: "vote_request \<Rightarrow> log_pos" where
  "request_pos r = LogPos (vq_last_log_term r) (vq_last_log_index r)"

end
