(* ===== verification/Raft_Core.thy ===== *)
theory Raft_Core
  imports Raft_Types
begin

text \<open>
  \<^verbatim>\<open>impl Raft\<close> of \<^verbatim>\<open>src/raft/core.rs\<close>: one definition per handler and the dispatch
  \<open>handle\<close>. A handler takes the state last and returns the new state with the handler's
  \<^verbatim>\<open>Result\<close>, or the panic of a failed assertion, \<^verbatim>\<open>expect\<close> or overflow check. A handler
  with \<^verbatim>\<open>&self\<close> returns only the \<^verbatim>\<open>Result\<close>. Assignments follow the source's order, and
  every early return is a branch.
\<close>

type_synonym 'a handler_result = "(raft \<times> (error + 'a)) outcome"

section \<open>Shared pieces\<close>

definition hard_state :: "raft \<Rightarrow> state" where
  "hard_state s = \<lparr>hs_current_term = current_term s, hs_voted_for = voted_for s\<rparr>"

text \<open>\<^verbatim>\<open>self.voters.keys().filter(|node_id| *node_id != &self.id).cloned().collect()\<close>.\<close>

definition other_voters :: "raft \<Rightarrow> node_id list" where
  "other_voters s = filter (\<lambda>n. n \<noteq> self_id s) (hm_keys (voters s))"

text \<open>The heartbeat of a leader, sent on its timer and on winning an election.\<close>

definition leader_heartbeat :: "raft \<Rightarrow> effect" where
  "leader_heartbeat s = SendHeartbeat (other_voters s)
     \<lparr>hb_term = current_term s,
      hb_leader_id = self_id s,
      hb_log_index = last_log_index s,
      hb_log_term = last_log_term s,
      hb_leader_commit_index = commit_index s\<rparr>"

text \<open>The response a node gives about its own log.\<close>

definition log_response :: "bool \<Rightarrow> raft \<Rightarrow> append_entries_response" where
  "log_response ok s =
     \<lparr>ap_term = current_term s,
      ap_success = ok,
      ap_last_log_index = last_log_index s,
      ap_last_log_term = last_log_term s,
      ap_leader_id = leader_id s\<rparr>"

section \<open>Elections\<close>

definition handle_election_timeout :: "raft \<Rightarrow> effect handler_result" where
  "handle_election_timeout s =
     obind (add_w (current_term s) 1) (\<lambda>t.
       let s1 = s\<lparr>current_term := t\<rparr>;
           s2 = s1\<lparr>voted_for := Some (self_id s1)\<rparr>;
           s3 = s2\<lparr>granted_votes := {}\<rparr>;
           s4 = s3\<lparr>granted_votes := insert (self_id s3) (granted_votes s3)\<rparr>;
           peers = other_voters s4;
           s5 = s4\<lparr>role := Candidate\<rparr>
       in Done (s5, Inr (SendRequestVotes (hard_state s5) peers
            \<lparr>vq_term = current_term s5,
             vq_candidate_id = self_id s5,
             vq_last_log_index = last_log_index s5,
             vq_last_log_term = last_log_term s5\<rparr>)))"

definition candidate_log_is_up_to_date :: "vote_request \<Rightarrow> raft \<Rightarrow> bool" where
  "candidate_log_is_up_to_date req s \<longleftrightarrow>
     vq_last_log_term req > last_log_term s \<or>
     (vq_last_log_term req = last_log_term s \<and> vq_last_log_index req \<ge> last_log_index s)"

definition handle_request_vote :: "vote_request \<Rightarrow> raft \<Rightarrow> effect handler_result" where
  "handle_request_vote req s =
     (let (s1, changed1) =
            (if vq_term req > current_term s
             then (s\<lparr>current_term := vq_term req, voted_for := None, role := Follower,
                     leader_id := None, granted_votes := {}\<rparr>, True)
             else (s, False));
          up_to_date = candidate_log_is_up_to_date req s1;
          can_vote = (voted_for s1 = None \<or> voted_for s1 = Some (vq_candidate_id req));
          vote_granted = (vq_term req = current_term s1 \<and> up_to_date \<and> can_vote);
          (s2, changed2) =
            (if vote_granted \<and> voted_for s1 \<noteq> Some (vq_candidate_id req)
             then (s1\<lparr>voted_for := Some (vq_candidate_id req)\<rparr>, True)
             else (s1, changed1))
      in Done (s2, Inr (SendRequestVoteResponse
           (if changed2 then Some (hard_state s2) else None)
           (vq_candidate_id req)
           \<lparr>vp_term = current_term s2, vp_vote_granted = vote_granted\<rparr>)))"

definition handle_vote_response ::
  "received_vote_response \<Rightarrow> raft \<Rightarrow> effect option handler_result" where
  "handle_vote_response vr s =
     (let resp = rv_response vr in
      if vp_term resp > current_term s then
        Done (s\<lparr>current_term := vp_term resp, role := Follower, voted_for := None,
                leader_id := None, granted_votes := {}\<rparr>, Inr None)
      else if role s \<noteq> Candidate then Done (s, Inl NotCandidate)
      else if vp_term resp < current_term s \<or> \<not> hm_contains (voters s) (rv_from vr)
           \<or> \<not> vp_vote_granted resp \<or> rv_from vr \<in> granted_votes s
      then Done (s, Inr None)
      else
        let s1 = s\<lparr>granted_votes := insert (rv_from vr) (granted_votes s)\<rparr> in
        if card (granted_votes s1) > length (voters s1) div 2
        then let s2 = s1\<lparr>role := Leader\<rparr> in Done (s2, Inr (Some (leader_heartbeat s2)))
        else Done (s1, Inr None))"

section \<open>Heartbeats\<close>

definition handle_heartbeat_timeout :: "raft \<Rightarrow> error + effect" where
  "handle_heartbeat_timeout s =
     (if role s \<noteq> Leader then Inl (NotLeader (leader_id s)) else Inr (leader_heartbeat s))"

definition handle_heartbeat :: "heartbeat_request \<Rightarrow> raft \<Rightarrow> effect handler_result" where
  "handle_heartbeat req s =
     (if hb_term req < current_term s then
        Done (s, Inr (SendHeartbeatResponse (hb_leader_id req) (log_response False s) False None))
      else
        let s1 = (if hb_term req > current_term s
                  then s\<lparr>current_term := hb_term req, voted_for := None\<rparr> else s);
            s2 = s1\<lparr>role := Follower, granted_votes := {},
                    leader_id := Some (hb_leader_id req)\<rparr>;
            log_matches = (hb_log_index req = last_log_index s2 \<and>
                           hb_log_term req = last_log_term s2)
        in if \<not> log_matches then
             Done (s2, Inr (SendHeartbeatResponse (hb_leader_id req)
                             (log_response False s2) True None))
           else
             let new_commit_index = min (hb_leader_commit_index req) (last_log_index s2);
                 (s3, apply_through) =
                   (if new_commit_index > commit_index s2
                    then (s2\<lparr>commit_index := new_commit_index\<rparr>, Some new_commit_index)
                    else (s2, None))
             in Done (s3, Inr (SendHeartbeatResponse (hb_leader_id req)
                                (log_response True s3) True apply_through)))"

definition heartbeat_progress :: "append_entries_response \<Rightarrow> u64 \<Rightarrow> progress \<Rightarrow> progress" where
  "heartbeat_progress resp own_index p =
     (if ap_success resp then
        let matched_index = min (ap_last_log_index resp) own_index;
            p1 = p\<lparr>match_index := max (match_index p) matched_index\<rparr>
        in p1\<lparr>next_index := max (next_index p1) (saturating_add (match_index p1) 1)\<rparr>
      else
        let previous_index = saturating_sub (next_index p) 1;
            follower_next_index = saturating_add (ap_last_log_index resp) 1
        in p\<lparr>next_index := min previous_index follower_next_index\<rparr>)"

definition handle_heartbeat_response ::
  "received_heartbeat_response \<Rightarrow> raft \<Rightarrow> effect option handler_result" where
  "handle_heartbeat_response rcv s =
     (let resp = rh_response rcv; from = rh_from rcv in
      if ap_term resp > current_term s then
        Done (s\<lparr>current_term := ap_term resp, role := Follower, voted_for := None,
                leader_id := ap_leader_id resp, granted_votes := {}\<rparr>, Inr None)
      else if role s \<noteq> Leader then Done (s, Inl (NotLeader (leader_id s)))
      else if ap_term resp < current_term s then Done (s, Inr None)
      else
        let upd = heartbeat_progress resp (last_log_index s) in
        if hm_contains (voters s) from
        then Done (s\<lparr>voters := hm_modify from upd (voters s)\<rparr>, Inr None)
        else if hm_contains (learners s) from
        then Done (s\<lparr>learners := hm_modify from upd (learners s)\<rparr>, Inr None)
        else Done (s, Inr None))"

section \<open>Replication on a follower\<close>

definition handle_append_entries ::
  "received_append_entries \<Rightarrow> raft \<Rightarrow> effect handler_result" where
  "handle_append_entries rcv s =
     (let op = ra_operation_id rcv; req = ra_request rcv;
          local_prev_log_term = ra_local_prev_log_term rcv in
      if aq_term req < current_term s then
        Done (s, Inr (RejectAppendEntries op (aq_leader_id req) (log_response False s)))
      else
        let previous_entry_matches =
              (aq_prev_log_index req = 0 \<or> local_prev_log_term = Some (aq_prev_log_term req))
        in
        if aq_prev_log_index req > last_log_index s \<or> \<not> previous_entry_matches then
          let s1 = s\<lparr>current_term := aq_term req, leader_id := Some (aq_leader_id req)\<rparr>
          in Done (s1, Inr (RejectAppendEntries op (aq_leader_id req) (log_response False s1)))
        else
          let s1 = (if aq_term req > current_term s then s\<lparr>voted_for := None\<rparr> else s) in
          if aq_term req > current_term s \<and> aq_prev_log_index req < last_log_index s1 then
            let s2 = s1\<lparr>role := Follower, current_term := aq_term req,
                        leader_id := Some (aq_leader_id req)\<rparr>
            in Done (s2, Inr (PersistEntries op (aq_leader_id req)
                 \<lparr>ap_term = current_term s2, ap_success = True,
                  ap_last_log_index = aq_prev_log_index req,
                  ap_last_log_term = aq_prev_log_term req,
                  ap_leader_id = leader_id s2\<rparr>
                 (Some (aq_prev_log_index req)) (aq_commit_index req)))
          else
            let s2 = s1\<lparr>current_term := aq_term req, role := Follower,
                        leader_id := Some (aq_leader_id req)\<rparr>
            in Done (s2, Inr (PersistEntries op (aq_leader_id req)
                 (log_response True s2) None (aq_commit_index req))))"

definition handle_entries_persisted ::
  "persisted_entries \<Rightarrow> raft \<Rightarrow> effect option handler_result" where
  "handle_entries_persisted en s =
     (let s1 = s\<lparr>last_log_index := pe_last_log_index en,
                 last_log_term := pe_last_log_term en\<rparr>;
          new_commit_index = min (pe_leader_commit_index en) (last_log_index s1)
      in if new_commit_index > commit_index s1 then
           let s2 = s1\<lparr>commit_index := new_commit_index\<rparr>
           in Done (s2, Inr (Some (ApplyCommitted (pe_operation_id en) (commit_index s2))))
         else Done (s1, Inr None))"

definition handle_entries_applied ::
  "applied_entries \<Rightarrow> raft \<Rightarrow> effect option handler_result" where
  "handle_entries_applied en s =
     (let s1 = s\<lparr>last_applied := ae_through en\<rparr>
      in if role s1 = Leader
         then Done (s1, Inr (Some (CompleteOperation (ae_operation_id en))))
         else Done (s1, Inr None))"

section \<open>Replication on a leader\<close>

definition handle_write :: "operation_id \<Rightarrow> raft \<Rightarrow> error + effect" where
  "handle_write op s =
     (if role s \<noteq> Leader then Inl (NotLeader (leader_id s))
      else Inr (AppendLocal op (current_term s) (last_log_index s)))"

definition replication_targets :: "raft \<Rightarrow> replication_target list" where
  "replication_targets s =
     map (\<lambda>(n, p). \<lparr>tg_peer = n,
                     tg_last_log_index = min (match_index p) (last_log_index s),
                     tg_last_log_term = last_log_term s,
                     tg_leader_id = self_id s,
                     tg_leader_commit_index = commit_index s\<rparr>)
         (filter (\<lambda>(n, p). n \<noteq> self_id s) (voters s @ learners s))"

definition handle_local_entry_appended :: "local_entry \<Rightarrow> raft \<Rightarrow> effect handler_result" where
  "handle_local_entry_appended en s =
     (if role s \<noteq> Leader then Done (s, Inl (NotLeader (leader_id s)))
      else
        let targets = replication_targets s;
            s1 = s\<lparr>last_log_index := le_index en, last_log_term := le_term en\<rparr>
        in if \<not> hm_contains (voters s1) (self_id s1)
           then Panic (ExpectFailed ''leader mut be present in voters'')
           else obind (add_w (last_log_index s1) 1) (\<lambda>next.
             let s2 = s1\<lparr>voters := hm_modify (self_id s1)
                        (\<lambda>p. p\<lparr>match_index := last_log_index s1, next_index := next\<rparr>)
                        (voters s1)\<rparr>
             in if targets = [] then
                  let s3 = s2\<lparr>commit_index := last_log_index s2\<rparr>
                  in Done (s3, Inr (ApplyCommitted (le_operation_id en) (commit_index s3)))
                else Done (s2, Inr (SendAppendEntries (le_operation_id en) targets))))"

definition retry_target :: "node_id \<Rightarrow> append_entries_response \<Rightarrow> raft \<Rightarrow> replication_target" where
  "retry_target from resp s =
     \<lparr>tg_peer = from,
      tg_last_log_index = ap_last_log_index resp,
      tg_last_log_term = ap_last_log_term resp,
      tg_leader_id = self_id s,
      tg_leader_commit_index = commit_index s\<rparr>"

definition caught_up :: "raft \<Rightarrow> nat" where
  "caught_up s = length (filter (\<lambda>p. match_index p \<ge> last_log_index s) (map snd (voters s)))"

text \<open>The part of the handler below its two assertions: a learner's or a voter's progress.\<close>

definition record_progress ::
  "operation_id \<Rightarrow> node_id \<Rightarrow> append_entries_response \<Rightarrow> raft \<Rightarrow> effect option handler_result"
where
  "record_progress op from resp s =
     (if hm_contains (learners s) from then
        obind (add_w (ap_last_log_index resp) 1) (\<lambda>next.
          let s1 = s\<lparr>learners := hm_modify from
                     (\<lambda>p. p\<lparr>match_index := ap_last_log_index resp, next_index := next\<rparr>)
                     (learners s)\<rparr>
          in if ap_last_log_index resp < last_log_index s1
             then Done (s1, Inr (Some (SendAppendEntries op [retry_target from resp s1])))
             else Done (s1, Inr None))
      else if hm_contains (voters s) from then
        obind (add_w (ap_last_log_index resp) 1) (\<lambda>next.
          let s1 = s\<lparr>voters := hm_modify from
                     (\<lambda>p. p\<lparr>match_index := ap_last_log_index resp, next_index := next\<rparr>)
                     (voters s)\<rparr>
          in if ap_last_log_index resp < last_log_index s1
             then Done (s1, Inr (Some (SendAppendEntries op [retry_target from resp s1])))
             else if caught_up s1 > length (voters s1) div 2 \<and>
                     commit_index s1 < last_log_index s1
             then let s2 = s1\<lparr>commit_index := last_log_index s1\<rparr>
                  in Done (s2, Inr (Some (ApplyCommitted op (commit_index s2))))
             else Done (s1, Inr None))
      else Done (s, Inr None))"

definition handle_append_entries_response ::
  "received_append_entries_response \<Rightarrow> raft \<Rightarrow> effect option handler_result" where
  "handle_append_entries_response rcv s =
     (let op = rr_operation_id rcv; from = rr_from rcv; resp = rr_response rcv in
      if role s \<noteq> Leader then Done (s, Inl (NotLeader (ap_leader_id resp)))
      else if ap_term resp > current_term s then
        Done (s\<lparr>current_term := ap_term resp, leader_id := ap_leader_id resp,
                role := Follower, voted_for := None, granted_votes := {}\<rparr>,
              Inl (NotLeader (ap_leader_id resp)))
      else if \<not> ap_success resp \<and> ap_last_log_index resp > last_log_index s then
        Panic (AssertionFailed
          ''follower last log index cannot be greater than leader's index'')
      else if \<not> ap_success resp \<and> ap_last_log_index resp < last_log_index s then
        Done (s, Inr (Some (SendAppendEntries op [retry_target from resp s])))
      else if ap_last_log_index resp > last_log_index s then
        Panic (AssertionFailed
          ''follower's last log index cannot be greater than leader's index'')
      else record_progress op from resp s)"

section \<open>Dispatch\<close>

definition ok_some :: "raft \<times> (error + effect) \<Rightarrow> raft \<times> (error + effect option)" where
  "ok_some r = (fst r, map_sum id Some (snd r))"

fun handle :: "event \<Rightarrow> raft \<Rightarrow> effect option handler_result" where
  "handle (Write op) s = Done (s, map_sum id Some (handle_write op s))"
| "handle (LocalEntriesAppended en) s = omap ok_some (handle_local_entry_appended en s)"
| "handle (EntriesPersisted en) s = handle_entries_persisted en s"
| "handle (EntriesApplied en) s = handle_entries_applied en s"
| "handle (RequestVote req) s = omap ok_some (handle_request_vote req s)"
| "handle (AppendEntries rcv) s = omap ok_some (handle_append_entries rcv s)"
| "handle (VoteResponse vr) s = handle_vote_response vr s"
| "handle (Heartbeat req) s = omap ok_some (handle_heartbeat req s)"
| "handle (HeartbeatResponse rcv) s = handle_heartbeat_response rcv s"
| "handle ElectionTimeout s = omap ok_some (handle_election_timeout s)"
| "handle HeartbeatTimeout s = Done (s, map_sum id Some (handle_heartbeat_timeout s))"
| "handle (AppendEntriesResponse rcv) s = handle_append_entries_response rcv s"

end
