(* ===== verification/Raft_Core_Props.thy ===== *)
theory Raft_Core_Props
  imports Raft_Core
begin

text \<open>
  What \<^verbatim>\<open>Raft::handle\<close> keeps and decides. The first part proves one-step facts of every
  event; \<open>raft_step\<close> turns the handler into a labelled step relation, and the locales of
  the prelude lift the facts to runs. The second part holds the properties.
\<close>

section \<open>One step\<close>

named_theorems handler_defs

lemmas handler_definitions [handler_defs] =
  handle_election_timeout_def handle_request_vote_def handle_vote_response_def
  handle_heartbeat_timeout_def handle_heartbeat_def handle_heartbeat_response_def
  handle_append_entries_def handle_entries_persisted_def handle_entries_applied_def
  handle_write_def handle_local_entry_appended_def handle_append_entries_response_def
  record_progress_def ok_some_def

lemmas step_simps = handler_defs Let_def obind_eq_Done omap_eq_Done

inductive raft_step :: "raft \<Rightarrow> event \<times> (error + effect option) \<Rightarrow> raft \<Rightarrow> bool" where
  raft_stepI: "handle ev s = Done (s', r) \<Longrightarrow> raft_step s (ev, r) s'"

inductive_simps raft_step_iff: "raft_step s (ev, r) s'"

lemma raft_stepE:
  assumes "raft_step s l s'"
  obtains ev r where "l = (ev, r)" and "handle ev s = Done (s', r)"
  using assms by (cases rule: raft_step.cases) auto

lemma add_w_1_less: "add_w a 1 = Done b \<Longrightarrow> a < b"
  by (auto simp: add_w_def dest: checked_add_1_less split: option.splits)

lemma handle_term_mono:
  "handle ev s = Done (s', r) \<Longrightarrow> current_term s \<le> current_term s'"
  by (cases ev) (auto simp: step_simps split: if_splits dest: add_w_1_less)

lemma handle_vote_stable:
  "handle ev s = Done (s', r) \<Longrightarrow> current_term s' = current_term s \<Longrightarrow>
   voted_for s = Some c \<Longrightarrow> voted_for s' = Some c"
  by (cases ev) (auto simp: step_simps split: if_splits dest: add_w_1_less)

lemma handle_membership:
  "handle ev s = Done (s', r) \<Longrightarrow>
   hm_keys (voters s') = hm_keys (voters s) \<and> hm_keys (learners s') = hm_keys (learners s) \<and>
   self_id s' = self_id s"
  by (cases ev) (auto simp: step_simps split: if_splits)

definition raft_wf :: "raft \<Rightarrow> bool" where
  "raft_wf s \<longleftrightarrow>
     hm_wf (voters s) \<and> hm_wf (learners s) \<and> hm_contains (voters s) (self_id s) \<and>
     granted_votes s \<subseteq> set (hm_keys (voters s))"

lemma handle_granted_subset:
  "handle ev s = Done (s', r) \<Longrightarrow> hm_contains (voters s) (self_id s) \<Longrightarrow>
   granted_votes s \<subseteq> set (hm_keys (voters s)) \<Longrightarrow>
   granted_votes s' \<subseteq> set (hm_keys (voters s))"
  by (cases ev) (auto simp: step_simps hm_contains_iff split: if_splits)

lemma handle_wf: "handle ev s = Done (s', r) \<Longrightarrow> raft_wf s \<Longrightarrow> raft_wf s'"
  using handle_granted_subset [of ev s s' r] handle_membership [of ev s s' r]
  by (simp add: raft_wf_def hm_wf_def hm_contains_iff)

lemma raft_wf_finite: "raft_wf s \<Longrightarrow> finite (granted_votes s)"
  by (auto simp: raft_wf_def intro: finite_subset)

interpretation raft_term: step_monotone raft_step current_term
  by unfold_locales (auto elim!: raft_stepE dest: handle_term_mono)

interpretation raft_invariant: step_invariant raft_step raft_wf
  by unfold_locales (auto elim!: raft_stepE dest: handle_wf)

interpretation raft_members: step_invariant raft_step
  "\<lambda>s. hm_keys (voters s) = vs \<and> hm_keys (learners s) = ls \<and> self_id s = n" for vs ls n
  by unfold_locales (auto elim!: raft_stepE dest: handle_membership)

section \<open>Votes\<close>

text \<open>The votes a label casts: the candidate's own vote, and a vote granted to a peer.\<close>

fun effect_ballots :: "effect \<Rightarrow> (u64 \<times> node_id) set" where
  "effect_ballots (SendRequestVotes hs peers req) = {(vq_term req, vq_candidate_id req)}"
| "effect_ballots (SendRequestVoteResponse hs peer resp) =
     (if vp_vote_granted resp then {(vp_term resp, peer)} else {})"
| "effect_ballots _ = {}"

fun ballots :: "event \<times> (error + effect option) \<Rightarrow> (u64 \<times> node_id) set" where
  "ballots (ev, Inr (Some eff)) = effect_ballots eff"
| "ballots _ = {}"

text \<open>The node voted for \<open>c\<close> in term \<open>t\<close>, or has left \<open>t\<close> behind.\<close>

definition vote_held :: "u64 \<Rightarrow> node_id \<Rightarrow> raft \<Rightarrow> bool" where
  "vote_held t c s \<longleftrightarrow> t < current_term s \<or> t = current_term s \<and> voted_for s = Some c"

lemma handle_ballot:
  assumes "handle ev s = Done (s', r)" and "(t, c) \<in> ballots (ev, r)"
  shows "t = current_term s' \<and> voted_for s' = Some c"
  using assms
  by (cases ev) (auto simp: step_simps leader_heartbeat_def split: if_splits)

lemma vote_held_step:
  "handle ev s = Done (s', r) \<Longrightarrow> vote_held t c s \<Longrightarrow> vote_held t c s'"
  using handle_term_mono [of ev s s' r] handle_vote_stable [of ev s s' r c]
  by (auto simp: vote_held_def)

interpretation raft_vote: step_invariant raft_step "vote_held t c" for t c
  by unfold_locales (auto elim!: raft_stepE dest: vote_held_step)

lemma later_ballot_agrees:
  assumes "steps raft_step s ls u" and "vote_held t c s" and "l \<in> set ls" and "(t, d) \<in> ballots l"
  shows "d = c"
  using assms
proof (induction rule: steps.induct)
  case (steps_nil s)
  then show ?case by simp
next
  case (steps_cons s l' s' ls u)
  from steps_cons.hyps(1) obtain ev r where l': "l' = (ev, r)" and h: "handle ev s = Done (s', r)"
    by (rule raft_stepE)
  have held: "vote_held t c s'"
    using raft_vote.inv_step steps_cons.hyps(1) steps_cons.prems(1) .
  show ?case
  proof (cases "l = l'")
    case True
    with handle_ballot [OF h] l' steps_cons.prems(3) held show ?thesis
      by (auto simp: vote_held_def)
  next
    case False
    with steps_cons.prems show ?thesis by (auto intro: steps_cons.IH held)
  qed
qed

section \<open>Elections\<close>

lemma handle_becomes_leader:
  assumes "handle ev s = Done (s', r)" and "role s \<noteq> Leader" and "role s' = Leader"
  shows "\<exists>vr. ev = VoteResponse vr \<and> role s = Candidate \<and>
    vp_term (rv_response vr) = current_term s \<and> vp_vote_granted (rv_response vr) \<and>
    rv_from vr \<in> set (hm_keys (voters s)) \<and>
    s' = s\<lparr>granted_votes := insert (rv_from vr) (granted_votes s), role := Leader\<rparr> \<and>
    length (voters s) div 2 < card (granted_votes s')"
  using assms
  by (cases ev) (auto simp: step_simps hm_contains_iff split: if_splits)

lemma handle_becomes_candidate:
  assumes "handle ev s = Done (s', r)" and "role s \<noteq> Candidate" and "role s' = Candidate"
  shows "ev = ElectionTimeout \<and> voted_for s' = Some (self_id s) \<and>
    granted_votes s' = {self_id s} \<and> current_term s < current_term s'"
  using assms
  by (cases ev) (auto simp: step_simps split: if_splits dest: add_w_1_less)

text \<open>With one voter, a candidate's only possible supporter has already voted.\<close>

definition lone_unelected :: "raft \<Rightarrow> bool" where
  "lone_unelected s \<longleftrightarrow> hm_keys (voters s) = [self_id s] \<and> role s \<noteq> Leader \<and>
     (role s = Candidate \<longrightarrow> self_id s \<in> granted_votes s)"

lemma handle_keeps_own_vote:
  "handle ev s = Done (s', r) \<Longrightarrow> role s = Candidate \<Longrightarrow> role s' = Candidate \<Longrightarrow>
   self_id s \<in> granted_votes s \<Longrightarrow> self_id s \<in> granted_votes s'"
  by (cases ev) (auto simp: step_simps split: if_splits)

lemma handle_vote_response_known:
  "rv_from vr \<in> granted_votes s \<Longrightarrow> handle (VoteResponse vr) s = Done (s', r) \<Longrightarrow>
   role s \<noteq> Leader \<Longrightarrow> role s' \<noteq> Leader"
  by (auto simp: step_simps split: if_splits)

lemma lone_unelected_step:
  assumes h: "handle ev s = Done (s', r)" and lone: "lone_unelected s"
  shows "lone_unelected s'"
proof -
  have mem: "hm_keys (voters s') = [self_id s']" and me: "self_id s' = self_id s"
    using handle_membership [OF h] lone by (simp_all add: lone_unelected_def)
  have "role s' \<noteq> Leader"
  proof
    assume "role s' = Leader"
    with handle_becomes_leader [OF h] lone obtain vr where vr: "ev = VoteResponse vr"
      "role s = Candidate" "rv_from vr = self_id s"
      by (auto simp: lone_unelected_def)
    with handle_vote_response_known [of vr s s' r] h lone \<open>role s' = Leader\<close> show False
      by (simp add: lone_unelected_def)
  qed
  moreover have "role s' = Candidate \<Longrightarrow> self_id s \<in> granted_votes s'"
    using handle_becomes_candidate [OF h] handle_keeps_own_vote [OF h] lone
    by (cases "role s = Candidate") (auto simp: lone_unelected_def)
  ultimately show ?thesis
    using mem me by (simp add: lone_unelected_def)
qed

interpretation raft_lone: step_invariant raft_step lone_unelected
  by unfold_locales (auto elim!: raft_stepE dest: lone_unelected_step)

section \<open>Commitment\<close>

lemma handle_commit_bound:
  "handle ev s = Done (s', r) \<Longrightarrow> commit_index s' \<noteq> commit_index s \<Longrightarrow>
   commit_index s' \<le> last_log_index s'"
  by (cases ev) (auto simp: step_simps split: if_splits)

lemma handle_commit_mono:
  "handle ev s = Done (s', r) \<Longrightarrow>
   (\<And>en. ev = LocalEntriesAppended en \<Longrightarrow> commit_index s \<le> le_index en) \<Longrightarrow>
   commit_index s \<le> commit_index s'"
  by (cases ev) (auto simp: step_simps split: if_splits)

definition acked :: "raft \<Rightarrow> u64 \<Rightarrow> node_id set" where
  "acked s i = {n. \<exists>p. map_of (voters s) n = Some p \<and> i \<le> match_index p}"

lemma caught_up_acked:
  assumes "hm_wf (voters s)"
  shows "caught_up s = card (acked s (last_log_index s))"
proof -
  let ?P = "\<lambda>(n, p). last_log_index s \<le> match_index p"
  have dist: "distinct (map fst (filter ?P (voters s)))"
    using assms by (simp add: hm_wf_def hm_keys_def distinct_map_filter)
  have "acked s (last_log_index s) = fst ` set (filter ?P (voters s))"
    using assms
    by (force simp: acked_def hm_wf_def hm_keys_def map_of_eq_Some_iff)
  also have "card \<dots> = length (filter ?P (voters s))"
    using dist distinct_card [of "map fst (filter ?P (voters s))"] by simp
  also have "\<dots> = caught_up s"
    by (simp add: caught_up_def filter_map o_def case_prod_unfold)
  finally show ?thesis by simp
qed

lemma handle_response_commit:
  assumes "handle (AppendEntriesResponse rcv) s = Done (s', r)"
    and "commit_index s' \<noteq> commit_index s"
  shows "length (voters s') div 2 < caught_up s' \<and> commit_index s' = last_log_index s' \<and>
    r = Inr (Some (ApplyCommitted (rr_operation_id rcv) (commit_index s')))"
  using assms
  by (auto simp: step_simps caught_up_def split: if_splits)

text \<open>The leader's bookkeeping reads only the log position of a response.\<close>

lemma retry_target_only_position [simp]:
  "retry_target from (resp\<lparr>ap_term := t\<rparr>) s = retry_target from resp s"
  "retry_target from (resp\<lparr>ap_success := b\<rparr>) s = retry_target from resp s"
  by (simp_all add: retry_target_def)

lemma record_progress_only_position [simp]:
  "record_progress op from (resp\<lparr>ap_term := t\<rparr>) s = record_progress op from resp s"
  "record_progress op from (resp\<lparr>ap_success := b\<rparr>) s = record_progress op from resp s"
  by (simp_all add: record_progress_def Let_def cong: if_cong)

section \<open>Panics\<close>

lemma request_vote_done: "\<exists>s' r. handle (RequestVote req) s = Done (s', r)"
  by (simp add: handler_defs Let_def case_prod_unfold)

lemmas panic_simps = panics_obind panics_add_1 Let_def

lemma panics_local: "panics (handle_local_entry_appended en s) \<longleftrightarrow>
          role s = Leader \<and> (\<not> hm_contains (voters s) (self_id s) \<or> le_index en = - 1)"
  by (simp add: handle_local_entry_appended_def panic_simps)

lemma panics_response: "panics (handle_append_entries_response rcv s) \<longleftrightarrow>
          role s = Leader \<and> ap_term (rr_response rcv) \<le> current_term s \<and>
          (last_log_index s < ap_last_log_index (rr_response rcv) \<or>
           ap_last_log_index (rr_response rcv) = - 1 \<and>
           (hm_contains (learners s) (rr_from rcv) \<or> hm_contains (voters s) (rr_from rcv)))"
  by (simp add: handle_append_entries_response_def record_progress_def panic_simps)
    (auto simp: not_less)

lemma panics_never:
  "\<not> panics (handle_request_vote req s)"
  "\<not> panics (handle_vote_response vr s)"
  "\<not> panics (handle_heartbeat hb s)"
  "\<not> panics (handle_heartbeat_response rh s)"
  "\<not> panics (handle_append_entries ra s)"
  "\<not> panics (handle_entries_persisted pe s)"
  "\<not> panics (handle_entries_applied ae s)"
  by (simp_all add: handler_defs Let_def case_prod_unfold)

lemma panics_election: "panics (handle_election_timeout s) \<longleftrightarrow> current_term s = - 1"
  by (simp add: handle_election_timeout_def panic_simps)

section \<open>The decision on a vote request\<close>

lemma log_freshness_order:
  "candidate_log_is_up_to_date req s \<longleftrightarrow> raft_pos s \<le> request_pos req"
  by (auto simp: candidate_log_is_up_to_date_def raft_pos_def request_pos_def
      less_eq_log_pos_def)

text \<open>When a vote is granted, said in one condition instead of the code's assignments.\<close>

definition grants_vote :: "vote_request \<Rightarrow> raft \<Rightarrow> bool" where
  "grants_vote req s \<longleftrightarrow>
     current_term s \<le> vq_term req \<and> raft_pos s \<le> request_pos req \<and>
     (current_term s < vq_term req \<or> voted_for s \<in> {None, Some (vq_candidate_id req)})"

section \<open>Test fixtures\<close>

text \<open>\<^verbatim>\<open>progress\<close> and \<^verbatim>\<open>follower\<close> of the test module: three voters, the node a follower.\<close>

definition progress0 :: progress where
  "progress0 = \<lparr>next_index = 0, match_index = 0\<rparr>"

definition follower :: "u64 \<Rightarrow> node_id option \<Rightarrow> u64 \<Rightarrow> u64 \<Rightarrow> raft" where
  "follower term voted last_index last_term =
     \<lparr>self_id = NodeId ''node-1'',
      voters = [(NodeId ''node-1'', progress0), (NodeId ''node-2'', progress0),
                (NodeId ''node-3'', progress0)],
      learners = [], role = Follower, current_term = term,
      leader_id = Some (NodeId ''old-leader''), voted_for = voted,
      last_applied = 0, commit_index = 0,
      last_log_index = last_index, last_log_term = last_term, granted_votes = {}\<rparr>"

lemmas fixture_simps =
  follower_def progress0_def hm_contains_def hm_modify_def hm_keys_def hm_wf_def

definition vote_from :: "string \<Rightarrow> u64 \<Rightarrow> vote_request" where
  "vote_from n t = \<lparr>vq_term = t, vq_candidate_id = NodeId n,
                    vq_last_log_index = 8, vq_last_log_term = 3\<rparr>"

end
