(* ===== verification/Raft_Core_Theorems.thy ===== *)
theory Raft_Core_Theorems
  imports Raft_Core_Props
begin

text \<open>
  The properties of the protocol core: voting and elections, membership, commitment,
  errors and panics, and the handling of messages from other terms. Each is stated over
  \<open>handle\<close> or over runs of \<open>raft_step\<close>, with a witness at a concrete state.
\<close>

section \<open>Voting\<close>

text \<open>
  C6. A node votes at most once per term: along any run of events, two votes it casts in
  the same term (its own as a candidate, or one granted to a peer) name the same candidate.
\<close>

theorem one_vote_per_term:
  assumes "steps raft_step s ls s'"
    and "l1 \<in> set ls" and "(t, a) \<in> ballots l1"
    and "l2 \<in> set ls" and "(t, b) \<in> ballots l2"
  shows "a = b"
  using assms
proof (induction rule: steps.induct)
  case (steps_nil s)
  then show ?case by simp
next
  case (steps_cons s l s' ls u)
  from steps_cons.hyps(1) obtain ev r where l: "l = (ev, r)" and h: "handle ev s = Done (s', r)"
    by (rule raft_stepE)
  have cast: "vote_held t c s'" if "(t, c) \<in> ballots l" for c
    using handle_ballot [OF h] that l by (auto simp: vote_held_def)
  have later: "d = c" if "(t, c) \<in> ballots l" "l' \<in> set ls" "(t, d) \<in> ballots l'" for c d l'
    using later_ballot_agrees [OF steps_cons.hyps(2) cast] that .
  have here: "c = d" if "(t, c) \<in> ballots l" "(t, d) \<in> ballots l" for c d
    using handle_ballot [OF h, of t c] handle_ballot [OF h, of t d] that l by simp
  consider "l1 = l" "l2 = l" | "l1 = l" "l2 \<in> set ls" | "l1 \<in> set ls" "l2 = l"
    | "l1 \<in> set ls" "l2 \<in> set ls"
    using steps_cons.prems(1,3) by (meson set_ConsD)
  then show ?case
  proof cases
    case 1
    then show ?thesis using here steps_cons.prems by simp
  next
    case 2
    then show ?thesis using later [of a l2 b] steps_cons.prems by simp
  next
    case 3
    then show ?thesis using later [of b l1 a] steps_cons.prems by simp
  next
    case 4
    then show ?thesis using steps_cons.IH steps_cons.prems by simp
  qed
qed

lemma one_vote_per_term_witness:
  "\<exists>s' r1 r2. steps raft_step (follower 4 None 8 3)
       [(RequestVote (vote_from ''node-2'' 4), r1), (RequestVote (vote_from ''node-3'' 4), r2)] s' \<and>
     (4, NodeId ''node-2'') \<in> ballots (RequestVote (vote_from ''node-2'' 4), r1) \<and>
     (4, NodeId ''node-3'') \<notin> ballots (RequestVote (vote_from ''node-3'' 4), r2)"
proof -
  let ?e1 = "RequestVote (vote_from ''node-2'' 4)" and ?e2 = "RequestVote (vote_from ''node-3'' 4)"
  obtain s1 r1 where h1: "handle ?e1 (follower 4 None 8 3) = Done (s1, r1)"
    and b1: "(4, NodeId ''node-2'') \<in> ballots (?e1, r1)"
    by (simp add: step_simps follower_def vote_from_def candidate_log_is_up_to_date_def)
  obtain s2 r2 where h2: "handle ?e2 s1 = Done (s2, r2)"
    using request_vote_done by blast
  from h1 h2 have run: "steps raft_step (follower 4 None 8 3) [(?e1, r1), (?e2, r2)] s2"
    by (auto simp: steps_cons_iff raft_step_iff)
  have "(4, NodeId ''node-3'') \<notin> ballots (?e2, r2)"
    using one_vote_per_term [OF run, of "(?e1, r1)" 4 "NodeId ''node-2''"
        "(?e2, r2)" "NodeId ''node-3''"] b1
    by auto
  with run b1 show ?thesis by blast
qed

text \<open>
  C16. The decision on a vote request, completely: the node answers in the larger of the
  two terms; it grants exactly when the request's term is not older, the candidate's log
  position is not smaller in the order of terms and indexes, and in the current term it
  has not voted for another; and the answer carries the hard state to save exactly when
  the term or the vote changed.
\<close>

theorem request_vote_decision:
  "\<exists>s' hs. handle (RequestVote req) s =
     Done (s', Inr (Some (SendRequestVoteResponse hs (vq_candidate_id req)
        \<lparr>vp_term = max (current_term s) (vq_term req), vp_vote_granted = grants_vote req s\<rparr>))) \<and>
     current_term s' = max (current_term s) (vq_term req) \<and>
     voted_for s' = (if grants_vote req s then Some (vq_candidate_id req)
       else if current_term s < vq_term req then None else voted_for s) \<and>
     hs = (if hard_state s' = hard_state s then None else Some (hard_state s'))"
  by (simp add: handler_defs Let_def grants_vote_def log_freshness_order hard_state_def
      raft_pos_def) auto

text \<open>
  C21. Along any run the term never decreases, and the voters, the learners and the node's
  own identity never change: progress is not membership.
\<close>

theorem terms_grow_and_members_stay:
  assumes "steps raft_step s ls s'"
  shows "current_term s \<le> current_term s' \<and> hm_keys (voters s') = hm_keys (voters s) \<and>
    hm_keys (learners s') = hm_keys (learners s) \<and> self_id s' = self_id s"
  using raft_term.mono_steps [OF assms] raft_members.inv_steps [OF assms] by simp

lemma terms_grow_and_members_stay_witness:
  "\<exists>s' r. steps raft_step (follower 4 None 8 3) [(ElectionTimeout, r)] s' \<and>
     4 \<le> current_term s' \<and>
     hm_keys (voters s') = [NodeId ''node-1'', NodeId ''node-2'', NodeId ''node-3'']"
proof -
  obtain s' r where h: "handle ElectionTimeout (follower 4 None 8 3) = Done (s', r)"
    by (simp add: step_simps fixture_simps add_w_def checked_add_def)
  then have run: "steps raft_step (follower 4 None 8 3) [(ElectionTimeout, r)] s'"
    by (auto simp: steps_cons_iff raft_step_iff)
  with terms_grow_and_members_stay [OF run] show ?thesis
    by (auto simp: fixture_simps)
qed

text \<open>
  C15. A node becomes leader only by a vote response that completes a majority: it was a
  candidate, the response is a grant in its own term from a voter, the term stays, and the
  voters recorded as granting form a majority of the configuration.
\<close>

theorem leader_has_majority:
  assumes "raft_wf s" and "handle ev s = Done (s', r)"
    and "role s \<noteq> Leader" and "role s' = Leader"
  shows "role s = Candidate \<and> current_term s' = current_term s \<and>
    majority (hm_keys (voters s')) (granted_votes s') \<and>
    (\<exists>vr. ev = VoteResponse vr \<and> vp_term (rv_response vr) = current_term s \<and>
       vp_vote_granted (rv_response vr) \<and> rv_from vr \<in> granted_votes s')"
proof -
  have wf: "raft_wf s'" using handle_wf assms(2,1) .
  obtain vr where vr: "ev = VoteResponse vr" "role s = Candidate"
    "vp_term (rv_response vr) = current_term s" "vp_vote_granted (rv_response vr)"
    "s' = s\<lparr>granted_votes := insert (rv_from vr) (granted_votes s), role := Leader\<rparr>"
    "length (voters s) div 2 < card (granted_votes s')"
    using handle_becomes_leader [OF assms(2-4)] by auto
  with wf show ?thesis
    by (simp add: majority_def raft_wf_def)
qed

lemma leader_has_majority_witness:
  "\<exists>s s' r. role s = Candidate \<and> role s' = Leader \<and>
     majority (hm_keys (voters s')) (granted_votes s') \<and>
     handle (VoteResponse \<lparr>rv_from = NodeId ''node-2'',
       rv_response = \<lparr>vp_term = 5, vp_vote_granted = True\<rparr>\<rparr>) s = Done (s', r)"
proof -
  let ?s = "(follower 5 (Some (NodeId ''node-1'')) 8 3)
    \<lparr>role := Candidate, granted_votes := {NodeId ''node-1''}\<rparr>"
  let ?e = "VoteResponse \<lparr>rv_from = NodeId ''node-2'',
       rv_response = \<lparr>vp_term = 5, vp_vote_granted = True\<rparr>\<rparr>"
  let ?s' = "?s\<lparr>granted_votes := {NodeId ''node-2'', NodeId ''node-1''}, role := Leader\<rparr>"
  have wf: "raft_wf ?s" by (simp add: raft_wf_def fixture_simps)
  have h: "handle ?e ?s = Done (?s', Inr (Some (leader_heartbeat ?s')))"
    by (simp add: step_simps fixture_simps)
  have "majority (hm_keys (voters ?s')) (granted_votes ?s')"
    using leader_has_majority [OF wf h] by (simp add: follower_def)
  with h show ?thesis by (intro exI [of _ ?s] exI [of _ ?s'] exI conjI) simp_all
qed

text \<open>
  C25. A cluster of one voter never elects a leader: from a follower, no sequence of events
  makes the only voter a leader, because winning is only checked on a vote response from
  another voter.
\<close>

theorem lone_voter_never_leads:
  assumes "hm_keys (voters s) = [self_id s]" and "role s = Follower"
    and "steps raft_step s ls s'"
  shows "role s' \<noteq> Leader"
proof -
  have "lone_unelected s" using assms(1,2) by (simp add: lone_unelected_def)
  with assms(3) have "lone_unelected s'" by (rule raft_lone.inv_steps)
  then show ?thesis by (simp add: lone_unelected_def)
qed

lemma lone_voter_never_leads_witness:
  "\<exists>s s' r. hm_keys (voters s) = [self_id s] \<and>
     steps raft_step s [(ElectionTimeout, r)] s' \<and> role s' = Candidate \<and> role s' \<noteq> Leader"
proof -
  let ?s = "(follower 0 None 0 0)\<lparr>voters := [(NodeId ''node-1'', progress0)]\<rparr>"
  obtain s' r where h: "handle ElectionTimeout ?s = Done (s', r)" and c: "role s' = Candidate"
    by (simp add: step_simps fixture_simps add_w_def checked_add_def)
  then have run: "steps raft_step ?s [(ElectionTimeout, r)] s'"
    by (auto simp: steps_cons_iff raft_step_iff)
  have keys: "hm_keys (voters ?s) = [self_id ?s]" by (simp add: fixture_simps)
  have "role s' \<noteq> Leader"
    using lone_voter_never_leads [OF keys _ run] by (simp add: follower_def)
  with run c keys show ?thesis by blast
qed

section \<open>Commitment\<close>

text \<open>
  C22. Every change of the commit index stays within the node's log, and the index never
  goes back, except where a local append reports an index below it.
\<close>

theorem commit_index_sound:
  assumes "handle ev s = Done (s', r)"
    and "\<And>en. ev = LocalEntriesAppended en \<Longrightarrow> commit_index s \<le> le_index en"
  shows "commit_index s \<le> commit_index s' \<and>
    (commit_index s' = commit_index s \<or> commit_index s' \<le> last_log_index s')"
  using handle_commit_mono [OF assms] handle_commit_bound [OF assms(1)] by auto

lemma commit_index_sound_witness:
  "\<exists>s' r. handle (EntriesPersisted \<lparr>pe_operation_id = OperationId 1, pe_last_log_index = 9,
       pe_last_log_term = 4, pe_leader_commit_index = 20\<rparr>) (follower 4 None 8 3) = Done (s', r) \<and>
     commit_index s' = 9 \<and> commit_index s' \<le> last_log_index s'"
proof -
  let ?e = "EntriesPersisted \<lparr>pe_operation_id = OperationId 1, pe_last_log_index = 9,
       pe_last_log_term = 4, pe_leader_commit_index = 20\<rparr>"
  let ?s' = "(follower 4 None 8 3)\<lparr>last_log_index := 9, last_log_term := 4, commit_index := 9\<rparr>"
  have h: "handle ?e (follower 4 None 8 3) =
      Done (?s', Inr (Some (ApplyCommitted (OperationId 1) 9)))"
    by (simp add: step_simps follower_def)
  from commit_index_sound [OF h] h show ?thesis by (auto simp: follower_def)
qed

text \<open>
  C7. A leader commits on a response only when a majority of the voters is on record for it: when
  the response moves the commit index, the voters whose recorded match index reaches it form a
  majority, the index is the leader's last one, and the effect asks to apply exactly through it.
  What the record is worth is another matter: the handler also records a refusal that names the
  leader's last index (\<open>rejection_at_last_index_is_counted\<close>).
\<close>

theorem commit_needs_majority:
  assumes "raft_wf s" and "handle (AppendEntriesResponse rcv) s = Done (s', r)"
    and "commit_index s' \<noteq> commit_index s"
  shows "majority (hm_keys (voters s')) (acked s' (commit_index s')) \<and>
    commit_index s' = last_log_index s' \<and>
    r = Inr (Some (ApplyCommitted (rr_operation_id rcv) (commit_index s')))"
proof -
  have wf: "hm_wf (voters s')"
    using handle_wf [OF assms(2,1)] by (simp add: raft_wf_def)
  have c: "length (voters s') div 2 < caught_up s'" "commit_index s' = last_log_index s'"
    "r = Inr (Some (ApplyCommitted (rr_operation_id rcv) (commit_index s')))"
    using handle_response_commit [OF assms(2,3)] by auto
  have "acked s' i \<subseteq> set (hm_keys (voters s'))" for i
    by (auto simp: acked_def hm_keys_def intro: rev_image_eqI dest!: map_of_SomeD)
  with c wf show ?thesis
    by (simp add: majority_def caught_up_acked)
qed

lemma commit_needs_majority_witness:
  "\<exists>s s' r. role s = Leader \<and> commit_index s = 0 \<and> commit_index s' = 8 \<and>
     handle (AppendEntriesResponse \<lparr>rr_operation_id = OperationId 7, rr_from = NodeId ''node-2'',
       rr_response = \<lparr>ap_term = 4, ap_success = True, ap_last_log_index = 8,
         ap_last_log_term = 3, ap_leader_id = None\<rparr>\<rparr>) s = Done (s', r) \<and>
     majority (hm_keys (voters s')) (acked s' 8)"
proof -
  let ?p = "\<lparr>next_index = 9, match_index = 8\<rparr>"
  let ?s = "(follower 4 None 8 3)\<lparr>role := Leader,
      voters := [(NodeId ''node-1'', ?p), (NodeId ''node-2'', progress0),
                 (NodeId ''node-3'', progress0)]\<rparr>"
  let ?e = "AppendEntriesResponse \<lparr>rr_operation_id = OperationId 7, rr_from = NodeId ''node-2'',
       rr_response = \<lparr>ap_term = 4, ap_success = True, ap_last_log_index = 8,
         ap_last_log_term = 3, ap_leader_id = None\<rparr>\<rparr>"
  let ?s' = "?s\<lparr>voters := [(NodeId ''node-1'', ?p), (NodeId ''node-2'', ?p),
                 (NodeId ''node-3'', progress0)], commit_index := 8\<rparr>"
  have wf: "raft_wf ?s" by (simp add: raft_wf_def fixture_simps)
  have h: "handle ?e ?s = Done (?s', Inr (Some (ApplyCommitted (OperationId 7) 8)))"
    by (simp add: step_simps fixture_simps caught_up_def add_w_def checked_add_def)
  have "majority (hm_keys (voters ?s')) (acked ?s' 8)"
    using commit_needs_majority [OF wf h] by (simp add: follower_def)
  with h show ?thesis by (intro exI [of _ ?s] exI [of _ ?s'] exI conjI) (simp_all add: follower_def)
qed

section \<open>Errors, panics and messages from other terms\<close>

text \<open>
  C23. Exactly when the core panics: an election in the last term, a local append on a
  leader outside its voter set or at the last index, and on a leader a response whose
  index is beyond the leader's own log or is the last index. No other event panics.
\<close>

theorem panics_exactly_when:
  "panics (handle ev s) \<longleftrightarrow>
     ev = ElectionTimeout \<and> current_term s = - 1 \<or>
     (\<exists>en. ev = LocalEntriesAppended en \<and> role s = Leader \<and>
        (map_of (voters s) (self_id s) = None \<or> le_index en = - 1)) \<or>
     (\<exists>rcv. ev = AppendEntriesResponse rcv \<and> role s = Leader \<and>
        ap_term (rr_response rcv) \<le> current_term s \<and>
        (last_log_index s < ap_last_log_index (rr_response rcv) \<or>
         ap_last_log_index (rr_response rcv) = - 1 \<and>
         (hm_contains (learners s) (rr_from rcv) \<or> hm_contains (voters s) (rr_from rcv))))"
  by (cases ev)
    (simp_all add: panics_local panics_response panics_never panics_election hm_contains_def)

text \<open>
  C24. Messages of an older term change nothing, append responses excepted: a vote request, a
  heartbeat, an append request, a vote response or a heartbeat response whose term is behind
  leaves the state as it is. An append response of an older term is not looked at in this way
  (\<open>stale_append_response_is_counted\<close>).
\<close>

theorem stale_messages_change_nothing:
  assumes "case ev of
      RequestVote req \<Rightarrow> vq_term req < current_term s
    | Heartbeat req \<Rightarrow> hb_term req < current_term s
    | AppendEntries rcv \<Rightarrow> aq_term (ra_request rcv) < current_term s
    | VoteResponse vr \<Rightarrow> vp_term (rv_response vr) < current_term s
    | HeartbeatResponse rcv \<Rightarrow> ap_term (rh_response rcv) < current_term s
    | _ \<Rightarrow> False"
  shows "\<exists>r. handle ev s = Done (s, r)"
  using assms by (cases ev) (auto simp: handler_defs Let_def)

lemma stale_messages_change_nothing_witness:
  "\<exists>r. handle (RequestVote (vote_from ''node-2'' 3)) (follower 4 None 8 3) =
     Done (follower 4 None 8 3, r)"
  by (rule stale_messages_change_nothing) (simp add: vote_from_def follower_def)

text \<open>
  An append response of an older term is not ignored, unlike the other messages: a node treats
  any append response whose term is not newer exactly as a response of its own term, down to the
  commit index, which the response of an earlier term can move.
\<close>

lemma stale_append_response_is_counted:
  assumes "ap_term (rr_response rcv) \<le> current_term s"
  shows "handle (AppendEntriesResponse rcv) s =
    handle (AppendEntriesResponse
      (rcv\<lparr>rr_response := (rr_response rcv)\<lparr>ap_term := current_term s\<rparr>\<rparr>)) s"
proof -
  have "\<not> ap_term (rr_response rcv) > current_term s" using assms by (rule leD)
  then show ?thesis by (simp add: handle_append_entries_response_def Let_def)
qed

lemma stale_append_response_is_counted_witness:
  "\<exists>s s' r. current_term s = 4 \<and> commit_index s = 0 \<and> commit_index s' = 8 \<and>
     handle (AppendEntriesResponse \<lparr>rr_operation_id = OperationId 7, rr_from = NodeId ''node-2'',
       rr_response = \<lparr>ap_term = 2, ap_success = True, ap_last_log_index = 8,
         ap_last_log_term = 3, ap_leader_id = None\<rparr>\<rparr>) s = Done (s', r)"
proof -
  let ?p = "\<lparr>next_index = 9, match_index = 8\<rparr>"
  let ?s = "(follower 4 None 8 3)\<lparr>role := Leader,
      voters := [(NodeId ''node-1'', ?p), (NodeId ''node-2'', progress0),
                 (NodeId ''node-3'', progress0)]\<rparr>"
  let ?rcv = "\<lparr>rr_operation_id = OperationId 7, rr_from = NodeId ''node-2'',
       rr_response = \<lparr>ap_term = 2, ap_success = True, ap_last_log_index = 8,
         ap_last_log_term = 3, ap_leader_id = None\<rparr>\<rparr>"
  let ?s' = "?s\<lparr>voters := [(NodeId ''node-1'', ?p), (NodeId ''node-2'', ?p),
                 (NodeId ''node-3'', progress0)], commit_index := 8\<rparr>"
  have old: "ap_term (rr_response ?rcv) \<le> current_term ?s" by (simp add: follower_def)
  have "handle (AppendEntriesResponse
      (?rcv\<lparr>rr_response := (rr_response ?rcv)\<lparr>ap_term := current_term ?s\<rparr>\<rparr>)) ?s =
      Done (?s', Inr (Some (ApplyCommitted (OperationId 7) 8)))"
    by (simp add: step_simps fixture_simps caught_up_def add_w_def checked_add_def)
  with stale_append_response_is_counted [OF old]
  have "handle (AppendEntriesResponse ?rcv) ?s =
      Done (?s', Inr (Some (ApplyCommitted (OperationId 7) 8)))"
    by simp
  then show ?thesis
    by (intro exI [of _ ?s] exI [of _ ?s'] exI conjI) (simp_all add: follower_def)
qed

text \<open>
  C26. A rejection at the leader's own last index counts as an acknowledgement: the handler
  returns the same state and the same effect whether the follower accepted or refused.
\<close>

theorem rejection_at_last_index_is_counted:
  assumes "ap_last_log_index (rr_response rcv) = last_log_index s"
  shows "handle (AppendEntriesResponse
      (rcv\<lparr>rr_response := (rr_response rcv)\<lparr>ap_success := False\<rparr>\<rparr>)) s =
    handle (AppendEntriesResponse
      (rcv\<lparr>rr_response := (rr_response rcv)\<lparr>ap_success := True\<rparr>\<rparr>)) s"
  using assms by (simp add: handle_append_entries_response_def Let_def)

lemma rejection_at_last_index_is_counted_witness:
  "\<exists>s s' r. commit_index s = 0 \<and> commit_index s' = 8 \<and>
     handle (AppendEntriesResponse \<lparr>rr_operation_id = OperationId 7, rr_from = NodeId ''node-2'',
       rr_response = \<lparr>ap_term = 4, ap_success = False, ap_last_log_index = 8,
         ap_last_log_term = 2, ap_leader_id = None\<rparr>\<rparr>) s = Done (s', r)"
proof -
  let ?p = "\<lparr>next_index = 9, match_index = 8\<rparr>"
  let ?s = "(follower 4 None 8 3)\<lparr>role := Leader,
      voters := [(NodeId ''node-1'', ?p), (NodeId ''node-2'', progress0),
                 (NodeId ''node-3'', progress0)]\<rparr>"
  let ?rcv = "\<lparr>rr_operation_id = OperationId 7, rr_from = NodeId ''node-2'',
       rr_response = \<lparr>ap_term = 4, ap_success = False, ap_last_log_index = 8,
         ap_last_log_term = 2, ap_leader_id = None\<rparr>\<rparr>"
  let ?s' = "?s\<lparr>voters := [(NodeId ''node-1'', ?p), (NodeId ''node-2'', ?p),
                 (NodeId ''node-3'', progress0)], commit_index := 8\<rparr>"
  have last: "ap_last_log_index (rr_response ?rcv) = last_log_index ?s"
    by (simp add: follower_def)
  have "handle (AppendEntriesResponse
      (?rcv\<lparr>rr_response := (rr_response ?rcv)\<lparr>ap_success := True\<rparr>\<rparr>)) ?s =
      Done (?s', Inr (Some (ApplyCommitted (OperationId 7) 8)))"
    by (simp add: step_simps fixture_simps caught_up_def add_w_def checked_add_def)
  with rejection_at_last_index_is_counted [OF last]
  have "handle (AppendEntriesResponse ?rcv) ?s =
      Done (?s', Inr (Some (ApplyCommitted (OperationId 7) 8)))"
    by simp
  then show ?thesis
    by (intro exI [of _ ?s] exI [of _ ?s'] exI conjI) (simp_all add: follower_def)
qed

end
