(* ===== verification/Raft_Core_Tests.thy ===== *)
theory Raft_Core_Tests
  imports Raft_Core_Props
begin

text \<open>
  The unit tests of \<^verbatim>\<open>src/raft/core.rs\<close>, each as a check that computes: the fixture, the event and
  the assertions of the test, in its order. That all of them hold says that the model of the
  core answers as the source's authors expect of the code, test by test.
\<close>

named_theorems core_test "unfolding of the tests and their helpers"

section \<open>Helpers of the test module\<close>

definition node :: "string \<Rightarrow> node_id" where [core_test]:
  "node name = NodeId name"

definition append_entries_event :: "u64 \<Rightarrow> append_entries_request \<Rightarrow> u64 option \<Rightarrow> event" where [core_test]:
  "append_entries_event op request local_prev_log_term = AppendEntries
     \<lparr>ra_operation_id = OperationId op, ra_request = request, ra_local_prev_log_term = local_prev_log_term\<rparr>"

text \<open>
  \<^verbatim>\<open>raft.handle(event).unwrap()\<close>, the same with \<^verbatim>\<open>.expect(..)\<close> on the effect, and an expected error:
  the rest of the test is a function of the new state and the result.
\<close>

definition unwrap :: "event \<Rightarrow> raft \<Rightarrow> (raft \<Rightarrow> effect option \<Rightarrow> bool) \<Rightarrow> bool" where [core_test]:
  "unwrap ev s rest = (case handle ev s of Done (s', Inr effect) \<Rightarrow> rest s' effect | _ \<Rightarrow> False)"

definition expect_effect :: "event \<Rightarrow> raft \<Rightarrow> (raft \<Rightarrow> effect \<Rightarrow> bool) \<Rightarrow> bool" where [core_test]:
  "expect_effect ev s rest =
     unwrap ev s (\<lambda>s' effect. case effect of Some eff \<Rightarrow> rest s' eff | None \<Rightarrow> False)"

definition expect_error :: "event \<Rightarrow> raft \<Rightarrow> (raft \<Rightarrow> error \<Rightarrow> bool) \<Rightarrow> bool" where [core_test]:
  "expect_error ev s rest = (case handle ev s of Done (s', Inl err) \<Rightarrow> rest s' err | _ \<Rightarrow> False)"

definition request_vote :: "raft \<Rightarrow> node_id \<Rightarrow> u64 \<Rightarrow> u64 \<Rightarrow> u64 \<Rightarrow>
    (raft \<Rightarrow> node_id \<times> u64 \<times> bool \<Rightarrow> bool) \<Rightarrow> bool" where [core_test]:
  "request_vote s candidate t index log_t rest =
     expect_effect (RequestVote \<lparr>vq_term = t, vq_candidate_id = candidate, vq_last_log_index = index,
       vq_last_log_term = log_t\<rparr>) s (\<lambda>s' eff.
       case eff of
         SendRequestVoteResponse hs peer response \<Rightarrow> rest s' (peer, vp_term response, vp_vote_granted response)
       | _ \<Rightarrow> False)"

definition progress_of :: "(node_id, progress) hash_map \<Rightarrow> node_id \<Rightarrow> (progress \<Rightarrow> bool) \<Rightarrow> bool" where [core_test]:
  "progress_of m n rest = (case map_of m n of Some p \<Rightarrow> rest p | None \<Rightarrow> False)"

section \<open>Elections\<close>

definition election_timeout_starts_a_new_election :: bool where [core_test]:
  "election_timeout_starts_a_new_election \<longleftrightarrow>
     expect_effect (ElectionTimeout)
     ((follower 2 None 8 2)) (\<lambda>raft effect.
       role raft = Candidate \<and>
       current_term raft = 3 \<and>
       voted_for raft = Some (node ''node-1'') \<and>
       (case effect of SendRequestVotes saved peers request \<Rightarrow>
       vq_term request = 3 \<and>
       vq_candidate_id request = node ''node-1'' \<and>
       vq_last_log_index request = 8 \<and>
       vq_last_log_term request = 2 \<and>
       hs_current_term saved = 3 \<and>
       hs_voted_for saved = Some (node ''node-1'') \<and>
       set peers = {node ''node-2'', node ''node-3''}
       | _ \<Rightarrow> False))"

definition election_requests_votes_only_from_other_voters :: bool where [core_test]:
  "election_requests_votes_only_from_other_voters \<longleftrightarrow>
     expect_effect (ElectionTimeout)
     ((follower 2 None 8 2)\<lparr>voters := [(node ''node-1'', progress0), (node ''node-2'', progress0)],
       learners := [(node ''node-3'', progress0)]\<rparr>) (\<lambda>raft effect.
       (case effect of SendRequestVotes saved peers request \<Rightarrow>
       set peers = {node ''node-2''}
       | _ \<Rightarrow> False))"

definition request_vote_rejects_an_older_term :: bool where [core_test]:
  "request_vote_rejects_an_older_term \<longleftrightarrow>
     request_vote (follower 4 None 8 3) (node ''node-2'') 3 8 3 (\<lambda>raft response.
       response = (node ''node-2'', 4, False) \<and>
       current_term raft = 4 \<and>
       voted_for raft = None \<and>
       role raft = Follower)"

definition request_vote_with_a_newer_term_makes_candidate_step_down :: bool where [core_test]:
  "request_vote_with_a_newer_term_makes_candidate_step_down \<longleftrightarrow>
     request_vote ((follower 4 (Some (node ''node-1'')) 8 3)\<lparr>role := Candidate\<rparr>) (node ''node-2'') 5 8 3 (\<lambda>raft response.
       response = (node ''node-2'', 5, True) \<and>
       current_term raft = 5 \<and>
       voted_for raft = Some (node ''node-2'') \<and>
       role raft = Follower)"

definition request_vote_rejects_a_second_candidate_in_the_same_term :: bool where [core_test]:
  "request_vote_rejects_a_second_candidate_in_the_same_term \<longleftrightarrow>
     request_vote (follower 4 (Some (node ''node-3'')) 8 3) (node ''node-2'') 4 8 3 (\<lambda>raft response.
       response = (node ''node-2'', 4, False) \<and>
       voted_for raft = Some (node ''node-3''))"

definition request_vote_is_idempotent_for_the_same_candidate :: bool where [core_test]:
  "request_vote_is_idempotent_for_the_same_candidate \<longleftrightarrow>
     request_vote (follower 4 (Some (node ''node-2'')) 8 3) (node ''node-2'') 4 8 3 (\<lambda>raft response.
       response = (node ''node-2'', 4, True) \<and>
       voted_for raft = Some (node ''node-2''))"

definition request_vote_rejects_a_candidate_with_a_stale_log :: bool where [core_test]:
  "request_vote_rejects_a_candidate_with_a_stale_log \<longleftrightarrow>
     request_vote (follower 4 None 8 3) (node ''node-2'') 4 100 2 (\<lambda>raft response.
       response = (node ''node-2'', 4, False)) \<and>
     request_vote (follower 4 None 8 3) (node ''node-2'') 4 7 3 (\<lambda>raft response.
       response = (node ''node-2'', 4, False))"

definition higher_term_vote_request_is_adopted_even_when_candidate_log_is_stale :: bool where [core_test]:
  "higher_term_vote_request_is_adopted_even_when_candidate_log_is_stale \<longleftrightarrow>
     expect_effect (RequestVote \<lparr>vq_term = 5, vq_candidate_id = node ''node-2'', vq_last_log_index = 100, vq_last_log_term = 2\<rparr>)
     ((follower 4 (Some (node ''node-1'')) 8 3)\<lparr>role := Candidate\<rparr>) (\<lambda>raft effect.
       (case effect of SendRequestVoteResponse saved peer response \<Rightarrow>
       \<not> vp_vote_granted response \<and>
       vp_term response = 5 \<and>
       current_term raft = 5 \<and>
       voted_for raft = None \<and>
       role raft = Follower \<and>
       saved = Some \<lparr>hs_current_term = 5, hs_voted_for = None\<rparr>
       | _ \<Rightarrow> False))"

definition request_vote_grants_a_candidate_with_an_up_to_date_log :: bool where [core_test]:
  "request_vote_grants_a_candidate_with_an_up_to_date_log \<longleftrightarrow>
     request_vote (follower 4 None 8 3) (node ''node-2'') 4 1 4 (\<lambda>raft response.
       response = (node ''node-2'', 4, True)) \<and>
     request_vote (follower 4 None 8 3) (node ''node-2'') 4 8 3 (\<lambda>raft response.
       response = (node ''node-2'', 4, True))"

definition granted_vote_that_reaches_a_majority_makes_candidate_leader :: bool where [core_test]:
  "granted_vote_that_reaches_a_majority_makes_candidate_leader \<longleftrightarrow>
     expect_effect (VoteResponse \<lparr>rv_from = node ''node-2'', rv_response = \<lparr>vp_term = 4, vp_vote_granted = True\<rparr>\<rparr>)
     ((follower 4 (Some (node ''node-1'')) 8 3)\<lparr>role := Candidate, granted_votes := {node ''node-1''}\<rparr>) (\<lambda>raft effect.
       card (granted_votes raft) = 2 \<and>
       role raft = Leader \<and>
       (case effect of SendHeartbeat peers request \<Rightarrow>
       hb_term request = 4 \<and>
       hb_leader_id request = node ''node-1'' \<and>
       set peers = {node ''node-2'', node ''node-3''}
       | _ \<Rightarrow> False))"

definition denied_vote_does_not_change_candidate_votes :: bool where [core_test]:
  "denied_vote_does_not_change_candidate_votes \<longleftrightarrow>
     unwrap (VoteResponse \<lparr>rv_from = node ''node-2'', rv_response = \<lparr>vp_term = 4, vp_vote_granted = False\<rparr>\<rparr>)
     ((follower 4 (Some (node ''node-1'')) 8 3)\<lparr>role := Candidate, granted_votes := {node ''node-1''}\<rparr>) (\<lambda>raft effect.
       effect = None \<and>
       card (granted_votes raft) = 1 \<and>
       role raft = Candidate)"

definition duplicate_granted_vote_is_counted_only_once :: bool where [core_test]:
  "duplicate_granted_vote_is_counted_only_once \<longleftrightarrow>
     (let ev = VoteResponse \<lparr>rv_from = node ''node-2'', rv_response = \<lparr>vp_term = 4, vp_vote_granted = True\<rparr>\<rparr>;
         raft = (follower 4 (Some (node ''node-1'')) 8 3);
         raft = raft\<lparr>voters := hm_insert (node ''node-5'') progress0 (hm_insert (node ''node-4'') progress0 (voters raft)),
           role := Candidate, granted_votes := {node ''node-1''}\<rparr>
     in unwrap ev raft (\<lambda>raft effect. effect = None \<and>
        unwrap ev raft (\<lambda>raft effect. effect = None \<and>
          card (granted_votes raft) = 2 \<and> role raft = Candidate)))"

definition stale_vote_response_is_ignored :: bool where [core_test]:
  "stale_vote_response_is_ignored \<longleftrightarrow>
     unwrap (VoteResponse \<lparr>rv_from = node ''node-2'', rv_response = \<lparr>vp_term = 4, vp_vote_granted = True\<rparr>\<rparr>)
     ((follower 5 (Some (node ''node-1'')) 8 3)\<lparr>role := Candidate, granted_votes := {node ''node-1''}\<rparr>) (\<lambda>raft effect.
       effect = None \<and>
       card (granted_votes raft) = 1 \<and>
       role raft = Candidate \<and>
       current_term raft = 5)"

definition higher_term_vote_response_makes_candidate_step_down :: bool where [core_test]:
  "higher_term_vote_response_makes_candidate_step_down \<longleftrightarrow>
     unwrap (VoteResponse \<lparr>rv_from = node ''node-2'', rv_response = \<lparr>vp_term = 5, vp_vote_granted = False\<rparr>\<rparr>)
     ((follower 4 (Some (node ''node-1'')) 8 3)\<lparr>role := Candidate, granted_votes := {node ''node-1''}\<rparr>) (\<lambda>raft effect.
       effect = None \<and>
       current_term raft = 5 \<and>
       role raft = Follower \<and>
       voted_for raft = None \<and>
       granted_votes raft = {})"

definition vote_response_is_rejected_when_node_is_not_a_candidate :: bool where [core_test]:
  "vote_response_is_rejected_when_node_is_not_a_candidate \<longleftrightarrow>
     expect_error (VoteResponse \<lparr>rv_from = node ''node-2'', rv_response = \<lparr>vp_term = 4, vp_vote_granted = True\<rparr>\<rparr>)
     ((follower 4 None 8 3)) (\<lambda>raft err.
       err = NotCandidate \<and>
       granted_votes raft = {} \<and>
       role raft = Follower)"

section \<open>Heartbeats\<close>

definition heartbeat_request_rejects_an_older_term_without_resetting_timer :: bool where [core_test]:
  "heartbeat_request_rejects_an_older_term_without_resetting_timer \<longleftrightarrow>
     expect_effect (Heartbeat \<lparr>hb_term = 3, hb_leader_id = node ''node-2'', hb_log_index = 8, hb_log_term = 3,
       hb_leader_commit_index = 6\<rparr>)
     ((follower 4 None 8 3)) (\<lambda>raft effect.
       (case effect of SendHeartbeatResponse peer response reset_election_timer apply_through \<Rightarrow>
       peer = node ''node-2'' \<and>
       ap_term response = 4 \<and>
       ap_success response = False \<and>
       reset_election_timer = False \<and>
       apply_through = None \<and>
       current_term raft = 4 \<and>
       leader_id raft = Some (node ''old-leader'')
       | _ \<Rightarrow> False))"

definition valid_heartbeat_request_makes_candidate_step_down :: bool where [core_test]:
  "valid_heartbeat_request_makes_candidate_step_down \<longleftrightarrow>
     expect_effect (Heartbeat \<lparr>hb_term = 4, hb_leader_id = node ''node-2'', hb_log_index = 8, hb_log_term = 3,
       hb_leader_commit_index = 0\<rparr>)
     ((follower 4 (Some (node ''node-1'')) 8 3)\<lparr>role := Candidate, granted_votes := {node ''node-1'', node ''node-3''}\<rparr>) (\<lambda>raft effect.
       (case effect of SendHeartbeatResponse peer response reset_election_timer apply_through \<Rightarrow>
       ap_success response = True \<and>
       reset_election_timer = True \<and>
       role raft = Follower \<and>
       leader_id raft = Some (node ''node-2'') \<and>
       granted_votes raft = {}
       | _ \<Rightarrow> False))"

definition heartbeat_request_with_higher_term_clears_previous_vote :: bool where [core_test]:
  "heartbeat_request_with_higher_term_clears_previous_vote \<longleftrightarrow>
     unwrap (Heartbeat \<lparr>hb_term = 5, hb_leader_id = node ''node-2'', hb_log_index = 8, hb_log_term = 3,
       hb_leader_commit_index = 0\<rparr>)
     ((follower 4 (Some (node ''node-3'')) 8 3)) (\<lambda>raft effect.
       current_term raft = 5 \<and>
       voted_for raft = None \<and>
       role raft = Follower \<and>
       leader_id raft = Some (node ''node-2''))"

definition valid_heartbeat_advances_commit_only_through_local_log :: bool where [core_test]:
  "valid_heartbeat_advances_commit_only_through_local_log \<longleftrightarrow>
     expect_effect (Heartbeat \<lparr>hb_term = 4, hb_leader_id = node ''node-2'', hb_log_index = 8, hb_log_term = 3,
       hb_leader_commit_index = 12\<rparr>)
     ((follower 4 None 8 3)\<lparr>last_applied := 5\<rparr>) (\<lambda>raft effect.
       (case effect of SendHeartbeatResponse peer response reset_election_timer apply_through \<Rightarrow>
       ap_success response = True \<and>
       commit_index raft = 8 \<and>
       last_applied raft = 5 \<and>
       apply_through = Some 8
       | _ \<Rightarrow> False))"

definition heartbeat_with_mismatched_log_is_rejected_but_recognizes_leader :: bool where [core_test]:
  "heartbeat_with_mismatched_log_is_rejected_but_recognizes_leader \<longleftrightarrow>
     expect_effect (Heartbeat \<lparr>hb_term = 5, hb_leader_id = node ''node-2'', hb_log_index = 7, hb_log_term = 2,
       hb_leader_commit_index = 6\<rparr>)
     ((follower 4 None 8 3)) (\<lambda>raft effect.
       (case effect of SendHeartbeatResponse peer response reset_election_timer apply_through \<Rightarrow>
       ap_success response = False \<and>
       ap_last_log_index response = 8 \<and>
       ap_last_log_term response = 3 \<and>
       reset_election_timer = True \<and>
       apply_through = None \<and>
       current_term raft = 5 \<and>
       leader_id raft = Some (node ''node-2'')
       | _ \<Rightarrow> False))"

definition successful_heartbeat_response_updates_peer_progress :: bool where [core_test]:
  "successful_heartbeat_response_updates_peer_progress \<longleftrightarrow>
     unwrap (HeartbeatResponse \<lparr>rh_from = node ''node-2'', rh_response = \<lparr>ap_term = 4, ap_success = True, ap_last_log_index = 8, ap_last_log_term = 3,
       ap_leader_id = Some (node ''node-1'')\<rparr>\<rparr>)
     ((follower 4 (Some (node ''node-1'')) 8 3)\<lparr>role := Leader,
       voters := hm_insert (node ''node-2'') \<lparr>next_index = 6, match_index = 5\<rparr> (voters (follower 4 (Some (node ''node-1'')) 8 3))\<rparr>) (\<lambda>raft effect.
       progress_of (voters raft) (node ''node-2'') (\<lambda>progress. effect = None \<and> match_index progress = 8 \<and> next_index progress = 9))"

definition rejected_heartbeat_response_rewinds_peer_next_index :: bool where [core_test]:
  "rejected_heartbeat_response_rewinds_peer_next_index \<longleftrightarrow>
     unwrap (HeartbeatResponse \<lparr>rh_from = node ''node-2'', rh_response = \<lparr>ap_term = 4, ap_success = False, ap_last_log_index = 5, ap_last_log_term = 2,
       ap_leader_id = Some (node ''node-1'')\<rparr>\<rparr>)
     ((follower 4 (Some (node ''node-1'')) 8 3)\<lparr>role := Leader,
       voters := hm_insert (node ''node-2'') \<lparr>next_index = 9, match_index = 0\<rparr> (voters (follower 4 (Some (node ''node-1'')) 8 3))\<rparr>) (\<lambda>raft effect.
       progress_of (voters raft) (node ''node-2'') (\<lambda>progress. effect = None \<and> match_index progress = 0 \<and> next_index progress = 6))"

definition heartbeat_response_with_higher_term_makes_leader_step_down :: bool where [core_test]:
  "heartbeat_response_with_higher_term_makes_leader_step_down \<longleftrightarrow>
     unwrap (HeartbeatResponse \<lparr>rh_from = node ''node-2'', rh_response = \<lparr>ap_term = 5, ap_success = False, ap_last_log_index = 8, ap_last_log_term = 3,
       ap_leader_id = Some (node ''node-2'')\<rparr>\<rparr>)
     ((follower 4 (Some (node ''node-1'')) 8 3)\<lparr>role := Leader, granted_votes := {node ''node-1'', node ''node-3''}\<rparr>) (\<lambda>raft effect.
       effect = None \<and>
       current_term raft = 5 \<and>
       role raft = Follower \<and>
       voted_for raft = None \<and>
       leader_id raft = Some (node ''node-2'') \<and>
       granted_votes raft = {})"

section \<open>Replication on a follower\<close>

definition append_entries_rejects_an_older_leader_term :: bool where [core_test]:
  "append_entries_rejects_an_older_leader_term \<longleftrightarrow>
     expect_effect (append_entries_event 1 \<lparr>aq_term = 3, aq_leader_id = node ''node-2'', aq_prev_log_index = 8,
       aq_prev_log_term = 3, aq_commit_index = 6\<rparr> (Some 3))
     ((follower 4 None 8 3)) (\<lambda>raft effect.
       (case effect of RejectAppendEntries operation_id peer response \<Rightarrow>
       operation_id = OperationId 1 \<and>
       peer = node ''node-2'' \<and>
       ap_term response = 4 \<and>
       ap_success response = False \<and>
       ap_last_log_index response = 8 \<and>
       ap_last_log_term response = 3 \<and>
       current_term raft = 4 \<and>
       leader_id raft = Some (node ''old-leader'')
       | _ \<Rightarrow> False))"

definition append_entries_rejects_a_missing_previous_log_entry :: bool where [core_test]:
  "append_entries_rejects_a_missing_previous_log_entry \<longleftrightarrow>
     expect_effect (append_entries_event 2 \<lparr>aq_term = 4, aq_leader_id = node ''node-2'', aq_prev_log_index = 9,
       aq_prev_log_term = 3, aq_commit_index = 6\<rparr> None)
     ((follower 4 None 8 3)) (\<lambda>raft effect.
       (case effect of RejectAppendEntries operation_id peer response \<Rightarrow>
       operation_id = OperationId 2 \<and>
       peer = node ''node-2'' \<and>
       ap_term response = 4 \<and>
       ap_success response = False \<and>
       ap_last_log_index response = 8 \<and>
       ap_last_log_term response = 3
       | _ \<Rightarrow> False))"

definition append_entries_rejects_a_mismatched_local_previous_term :: bool where [core_test]:
  "append_entries_rejects_a_mismatched_local_previous_term \<longleftrightarrow>
     expect_effect (append_entries_event 21 \<lparr>aq_term = 4, aq_leader_id = node ''node-2'', aq_prev_log_index = 5,
       aq_prev_log_term = 3, aq_commit_index = 4\<rparr> (Some 2))
     ((follower 4 None 8 3)) (\<lambda>raft effect.
       (case effect of RejectAppendEntries operation_id peer response \<Rightarrow>
       operation_id = OperationId 21 \<and>
       ap_success response = False \<and>
       last_log_index raft = 8 \<and>
       last_log_term raft = 3
       | _ \<Rightarrow> False))"

definition append_entries_accepts_a_matching_log_prefix :: bool where [core_test]:
  "append_entries_accepts_a_matching_log_prefix \<longleftrightarrow>
     expect_effect (append_entries_event 3 \<lparr>aq_term = 4, aq_leader_id = node ''node-2'', aq_prev_log_index = 8,
       aq_prev_log_term = 3, aq_commit_index = 6\<rparr> (Some 3))
     ((follower 4 None 8 3)) (\<lambda>raft effect.
       (case effect of PersistEntries operation_id peer response truncate_after leader_commit_index \<Rightarrow>
       operation_id = OperationId 3 \<and>
       peer = node ''node-2'' \<and>
       ap_term response = 4 \<and>
       ap_success response = True \<and>
       truncate_after = None \<and>
       leader_commit_index = 6 \<and>
       leader_id raft = Some (node ''node-2'') \<and>
       role raft = Follower
       | _ \<Rightarrow> False))"

definition append_entries_passes_leader_commit_index_to_persistence :: bool where [core_test]:
  "append_entries_passes_leader_commit_index_to_persistence \<longleftrightarrow>
     expect_effect (append_entries_event 4 \<lparr>aq_term = 4, aq_leader_id = node ''node-2'', aq_prev_log_index = 8,
       aq_prev_log_term = 3, aq_commit_index = 12\<rparr> (Some 3))
     ((follower 4 None 8 3)) (\<lambda>raft effect.
       (case effect of PersistEntries operation_id peer response truncate_after leader_commit_index \<Rightarrow>
       leader_commit_index = 12
       | _ \<Rightarrow> False))"

definition append_entries_from_a_newer_term_makes_a_candidate_step_down :: bool where [core_test]:
  "append_entries_from_a_newer_term_makes_a_candidate_step_down \<longleftrightarrow>
     expect_effect (append_entries_event 5 \<lparr>aq_term = 5, aq_leader_id = node ''node-2'', aq_prev_log_index = 8,
       aq_prev_log_term = 3, aq_commit_index = 6\<rparr> (Some 3))
     ((follower 4 (Some (node ''node-1'')) 8 3)\<lparr>role := Candidate\<rparr>) (\<lambda>raft effect.
       (case effect of PersistEntries operation_id peer response truncate_after leader_commit_index \<Rightarrow>
       current_term raft = 5 \<and>
       role raft = Follower \<and>
       voted_for raft = None \<and>
       leader_id raft = Some (node ''node-2'')
       | _ \<Rightarrow> False))"

definition append_entries_uses_persist_effect_when_truncation_is_required :: bool where [core_test]:
  "append_entries_uses_persist_effect_when_truncation_is_required \<longleftrightarrow>
     expect_effect (append_entries_event 6 \<lparr>aq_term = 5, aq_leader_id = node ''node-2'', aq_prev_log_index = 5,
       aq_prev_log_term = 2, aq_commit_index = 4\<rparr> (Some 2))
     ((follower 4 None 8 3)) (\<lambda>raft effect.
       (case effect of PersistEntries operation_id peer response truncate_after leader_commit_index \<Rightarrow>
       ap_success response = True \<and>
       truncate_after = Some 5 \<and>
       leader_commit_index = 4
       | _ \<Rightarrow> False))"

definition entries_persisted_advances_commit_and_requests_application :: bool where [core_test]:
  "entries_persisted_advances_commit_and_requests_application \<longleftrightarrow>
     expect_effect (EntriesPersisted \<lparr>pe_operation_id = OperationId 7, pe_last_log_index = 8, pe_last_log_term = 4,
       pe_leader_commit_index = 6\<rparr>)
     ((follower 4 None 5 2)\<lparr>last_applied := 3\<rparr>) (\<lambda>raft effect.
       last_log_index raft = 8 \<and>
       last_log_term raft = 4 \<and>
       commit_index raft = 6 \<and>
       last_applied raft = 3 \<and>
       (case effect of ApplyCommitted operation_id through \<Rightarrow>
       operation_id = OperationId 7 \<and>
       through = 6
       | _ \<Rightarrow> False))"

definition entries_applied_updates_last_applied :: bool where [core_test]:
  "entries_applied_updates_last_applied \<longleftrightarrow>
     unwrap (EntriesApplied \<lparr>ae_operation_id = OperationId 8, ae_through = 6\<rparr>)
     ((follower 4 None 5 2)\<lparr>last_applied := 3\<rparr>) (\<lambda>raft effect.
       effect = None \<and>
       last_applied raft = 6)"

definition entries_persisted_never_commits_beyond_the_local_log :: bool where [core_test]:
  "entries_persisted_never_commits_beyond_the_local_log \<longleftrightarrow>
     expect_effect (EntriesPersisted \<lparr>pe_operation_id = OperationId 9, pe_last_log_index = 8, pe_last_log_term = 4,
       pe_leader_commit_index = 12\<rparr>)
     ((follower 4 None 5 2)) (\<lambda>raft effect.
       commit_index raft = 8 \<and>
       (case effect of ApplyCommitted operation_id through \<Rightarrow>
       operation_id = OperationId 9 \<and>
       through = 8
       | _ \<Rightarrow> False))"

section \<open>Replication on a leader\<close>

definition leader_completes_operation_after_committed_entries_are_applied :: bool where [core_test]:
  "leader_completes_operation_after_committed_entries_are_applied \<longleftrightarrow>
     expect_effect (EntriesApplied \<lparr>ae_operation_id = OperationId 80, ae_through = 5\<rparr>)
     ((follower 4 (Some (node ''node-1'')) 5 2)\<lparr>role := Leader\<rparr>) (\<lambda>raft effect.
       last_applied raft = 5 \<and>
       (case effect of CompleteOperation operation_id \<Rightarrow>
       operation_id = OperationId 80
       | _ \<Rightarrow> False))"

definition write_on_leader_requests_a_local_append :: bool where [core_test]:
  "write_on_leader_requests_a_local_append \<longleftrightarrow>
     expect_effect (Write (OperationId 10))
     ((follower 4 (Some (node ''node-1'')) 8 3)\<lparr>role := Leader\<rparr>) (\<lambda>raft effect.
       (case effect of AppendLocal operation_id append_term log_index \<Rightarrow>
       operation_id = OperationId 10 \<and>
       append_term = 4 \<and>
       log_index = 8 \<and>
       last_log_index raft = 8
       | _ \<Rightarrow> False))"

definition write_on_follower_returns_known_leader :: bool where [core_test]:
  "write_on_follower_returns_known_leader \<longleftrightarrow>
     expect_error (Write (OperationId 11))
     ((follower 4 None 8 3)) (\<lambda>raft err.
       err = NotLeader (Some (node ''old-leader'')) \<and>
       last_log_index raft = 8)"

definition local_entry_append_updates_leader_log_and_own_progress :: bool where [core_test]:
  "local_entry_append_updates_leader_log_and_own_progress \<longleftrightarrow>
     unwrap (LocalEntriesAppended \<lparr>le_operation_id = OperationId 12, le_index = 9, le_term = 4\<rparr>)
     ((follower 4 (Some (node ''node-1'')) 8 3)\<lparr>role := Leader\<rparr>) (\<lambda>raft effect.
       progress_of (voters raft) (node ''node-1'') (\<lambda>progress. last_log_index raft = 9 \<and> last_log_term raft = 4 \<and>
         match_index progress = 9 \<and> next_index progress = 10))"

definition local_entry_append_creates_a_replication_target_for_every_other_node :: bool where [core_test]:
  "local_entry_append_creates_a_replication_target_for_every_other_node \<longleftrightarrow>
     (let raft = (follower 4 (Some (node ''node-1'')) 8 3)\<lparr>role := Leader, commit_index := 6\<rparr>;
         raft = raft\<lparr>voters := hm_insert (node ''node-3'') \<lparr>next_index = 9, match_index = 8\<rparr>
           (hm_insert (node ''node-2'') \<lparr>next_index = 6, match_index = 5\<rparr> (voters raft)),
           learners := hm_insert (node ''node-4'') \<lparr>next_index = 3, match_index = 2\<rparr> (learners raft)\<rparr>
     in expect_effect (LocalEntriesAppended \<lparr>le_operation_id = OperationId 13, le_index = 9, le_term = 4\<rparr>)
     (raft) (\<lambda>raft effect.
       (case effect of SendAppendEntries operation_id targets \<Rightarrow>
       operation_id = OperationId 13 \<and>
       commit_index raft = 6 \<and>
       set (map (\<lambda>t. (tg_peer t, tg_last_log_index t, tg_last_log_term t, tg_leader_id t, tg_leader_commit_index t)) targets) =
         {(node ''node-2'', 5, 3, node ''node-1'', 6), (node ''node-3'', 8, 3, node ''node-1'', 6), (node ''node-4'', 2, 3, node ''node-1'', 6)}
       | _ \<Rightarrow> False)))"

definition local_entry_append_is_rejected_after_leader_steps_down :: bool where [core_test]:
  "local_entry_append_is_rejected_after_leader_steps_down \<longleftrightarrow>
     expect_error (LocalEntriesAppended \<lparr>le_operation_id = OperationId 14, le_index = 9, le_term = 4\<rparr>)
     ((follower 5 None 8 3)) (\<lambda>raft err.
       err = NotLeader (Some (node ''old-leader'')) \<and>
       last_log_index raft = 8 \<and>
       last_log_term raft = 3)"

definition rejected_append_entries_response_retries_from_follower_position :: bool where [core_test]:
  "rejected_append_entries_response_retries_from_follower_position \<longleftrightarrow>
     expect_effect (AppendEntriesResponse \<lparr>rr_operation_id = OperationId 15, rr_from = node ''node-2'', rr_response = \<lparr>ap_term = 4, ap_success = False, ap_last_log_index = 5, ap_last_log_term = 2,
       ap_leader_id = Some (node ''node-1'')\<rparr>\<rparr>)
     ((follower 4 (Some (node ''node-1'')) 10 4)\<lparr>role := Leader, commit_index := 6\<rparr>) (\<lambda>raft effect.
       (case effect of SendAppendEntries operation_id targets \<Rightarrow>
       operation_id = OperationId 15 \<and>
       (case targets of [target] \<Rightarrow>
         tg_peer target = node ''node-2'' \<and> tg_last_log_index target = 5 \<and> tg_last_log_term target = 2 \<and>
         tg_leader_id target = node ''node-1'' \<and> tg_leader_commit_index target = 6 | _ \<Rightarrow> False)
       | _ \<Rightarrow> False))"

definition learner_that_is_still_behind_remains_a_learner_and_is_retried :: bool where [core_test]:
  "learner_that_is_still_behind_remains_a_learner_and_is_retried \<longleftrightarrow>
     expect_effect (AppendEntriesResponse \<lparr>rr_operation_id = OperationId 16, rr_from = node ''node-4'', rr_response = \<lparr>ap_term = 4, ap_success = True, ap_last_log_index = 6, ap_last_log_term = 3,
       ap_leader_id = Some (node ''node-1'')\<rparr>\<rparr>)
     ((follower 4 (Some (node ''node-1'')) 10 4)\<lparr>role := Leader, learners := hm_insert (node ''node-4'') progress0 []\<rparr>) (\<lambda>raft effect.
       (case effect of SendAppendEntries operation_id targets \<Rightarrow>
       hm_contains (learners raft) (node ''node-4'') \<and>
       \<not> hm_contains (voters raft) (node ''node-4'') \<and>
       progress_of (learners raft) (node ''node-4'') (\<lambda>progress. match_index progress = 6 \<and> next_index progress = 7)
       | _ \<Rightarrow> False))"

definition caught_up_learner_is_not_promoted_without_a_configuration_change :: bool where [core_test]:
  "caught_up_learner_is_not_promoted_without_a_configuration_change \<longleftrightarrow>
     unwrap (AppendEntriesResponse \<lparr>rr_operation_id = OperationId 17, rr_from = node ''node-4'', rr_response = \<lparr>ap_term = 4, ap_success = True, ap_last_log_index = 10, ap_last_log_term = 4,
       ap_leader_id = Some (node ''node-1'')\<rparr>\<rparr>)
     ((follower 4 (Some (node ''node-1'')) 10 4)\<lparr>role := Leader, learners := hm_insert (node ''node-4'') progress0 []\<rparr>) (\<lambda>raft effect.
       effect = None \<and>
       \<not> hm_contains (voters raft) (node ''node-4'') \<and>
       progress_of (learners raft) (node ''node-4'') (\<lambda>progress. match_index progress = 10 \<and> next_index progress = 11))"

definition voter_that_is_still_behind_remains_in_voter_configuration :: bool where [core_test]:
  "voter_that_is_still_behind_remains_in_voter_configuration \<longleftrightarrow>
     unwrap (AppendEntriesResponse \<lparr>rr_operation_id = OperationId 18, rr_from = node ''node-2'', rr_response = \<lparr>ap_term = 4, ap_success = True, ap_last_log_index = 7, ap_last_log_term = 3,
       ap_leader_id = Some (node ''node-1'')\<rparr>\<rparr>)
     ((follower 4 (Some (node ''node-1'')) 10 4)\<lparr>role := Leader\<rparr>) (\<lambda>raft effect.
       progress_of (voters raft) (node ''node-2'') (\<lambda>progress. match_index progress = 7 \<and> next_index progress = 8) \<and>
       \<not> hm_contains (learners raft) (node ''node-2''))"

definition successful_append_response_from_one_follower_forms_three_node_majority :: bool where [core_test]:
  "successful_append_response_from_one_follower_forms_three_node_majority \<longleftrightarrow>
     (let raft = (follower 4 (Some (node ''node-1'')) 10 4)\<lparr>role := Leader\<rparr>;
         raft = raft\<lparr>voters := hm_insert (node ''node-1'') \<lparr>next_index = 11, match_index = 10\<rparr> (voters raft)\<rparr>
     in expect_effect (AppendEntriesResponse \<lparr>rr_operation_id = OperationId 19, rr_from = node ''node-2'', rr_response = \<lparr>ap_term = 4, ap_success = True, ap_last_log_index = 10, ap_last_log_term = 4,
       ap_leader_id = Some (node ''node-1'')\<rparr>\<rparr>)
     (raft) (\<lambda>raft effect.
       commit_index raft = 10 \<and>
       (case effect of ApplyCommitted operation_id through \<Rightarrow>
       operation_id = OperationId 19 \<and>
       through = 10
       | _ \<Rightarrow> False)))"

definition successful_append_response_with_higher_term_makes_leader_step_down :: bool where [core_test]:
  "successful_append_response_with_higher_term_makes_leader_step_down \<longleftrightarrow>
     expect_error (AppendEntriesResponse \<lparr>rr_operation_id = OperationId 20, rr_from = node ''node-2'', rr_response = \<lparr>ap_term = 5, ap_success = True, ap_last_log_index = 10, ap_last_log_term = 4,
       ap_leader_id = Some (node ''node-3'')\<rparr>\<rparr>)
     ((follower 4 (Some (node ''node-1'')) 10 4)\<lparr>role := Leader\<rparr>) (\<lambda>raft err.
       err = NotLeader (Some (node ''node-3'')) \<and>
       current_term raft = 5 \<and>
       role raft = Follower \<and>
       voted_for raft = None \<and>
       leader_id raft = Some (node ''node-3''))"

section \<open>All tests pass\<close>

lemmas test_arith = add_w_def checked_add_def checked_sub_def saturating_add_def saturating_sub_def caught_up_def
  replication_targets_def retry_target_def heartbeat_progress_def hm_insert_def candidate_log_is_up_to_date_def
  leader_heartbeat_def log_response_def hard_state_def other_voters_def

lemma tests_of_elections:
  "election_timeout_starts_a_new_election"
  "election_requests_votes_only_from_other_voters"
  "request_vote_rejects_an_older_term"
  "request_vote_with_a_newer_term_makes_candidate_step_down"
  "request_vote_rejects_a_second_candidate_in_the_same_term"
  "request_vote_is_idempotent_for_the_same_candidate"
  "request_vote_rejects_a_candidate_with_a_stale_log"
  "higher_term_vote_request_is_adopted_even_when_candidate_log_is_stale"
  "request_vote_grants_a_candidate_with_an_up_to_date_log"
  "granted_vote_that_reaches_a_majority_makes_candidate_leader"
  "denied_vote_does_not_change_candidate_votes"
  "duplicate_granted_vote_is_counted_only_once"
  "stale_vote_response_is_ignored"
  "higher_term_vote_response_makes_candidate_step_down"
  "vote_response_is_rejected_when_node_is_not_a_candidate"
  by (simp_all add: core_test step_simps fixture_simps test_arith)

lemma tests_of_heartbeats:
  "heartbeat_request_rejects_an_older_term_without_resetting_timer"
  "valid_heartbeat_request_makes_candidate_step_down"
  "heartbeat_request_with_higher_term_clears_previous_vote"
  "valid_heartbeat_advances_commit_only_through_local_log"
  "heartbeat_with_mismatched_log_is_rejected_but_recognizes_leader"
  "successful_heartbeat_response_updates_peer_progress"
  "rejected_heartbeat_response_rewinds_peer_next_index"
  "heartbeat_response_with_higher_term_makes_leader_step_down"
  by (simp_all add: core_test step_simps fixture_simps test_arith)

lemma tests_of_replication_on_a_follower:
  "append_entries_rejects_an_older_leader_term"
  "append_entries_rejects_a_missing_previous_log_entry"
  "append_entries_rejects_a_mismatched_local_previous_term"
  "append_entries_accepts_a_matching_log_prefix"
  "append_entries_passes_leader_commit_index_to_persistence"
  "append_entries_from_a_newer_term_makes_a_candidate_step_down"
  "append_entries_uses_persist_effect_when_truncation_is_required"
  "entries_persisted_advances_commit_and_requests_application"
  "entries_applied_updates_last_applied"
  "entries_persisted_never_commits_beyond_the_local_log"
  by (simp_all add: core_test step_simps fixture_simps test_arith)

lemma tests_of_replication_on_a_leader:
  "leader_completes_operation_after_committed_entries_are_applied"
  "write_on_leader_requests_a_local_append"
  "write_on_follower_returns_known_leader"
  "local_entry_append_updates_leader_log_and_own_progress"
  "local_entry_append_creates_a_replication_target_for_every_other_node"
  "local_entry_append_is_rejected_after_leader_steps_down"
  "rejected_append_entries_response_retries_from_follower_position"
  "learner_that_is_still_behind_remains_a_learner_and_is_retried"
  "caught_up_learner_is_not_promoted_without_a_configuration_change"
  "voter_that_is_still_behind_remains_in_voter_configuration"
  "successful_append_response_from_one_follower_forms_three_node_majority"
  "successful_append_response_with_higher_term_makes_leader_step_down"
  by (simp_all add: core_test step_simps fixture_simps test_arith)

end
