(* ===== verification/Bytes.thy ===== *)
theory Bytes
  imports Prelude
begin

text \<open>
  Bytes and files: big-endian integers (\<^verbatim>\<open>to_be_bytes\<close>, \<^verbatim>\<open>from_be_bytes\<close>), UTF-8 strings,
  the positional file operations of \<^verbatim>\<open>std::os::unix::fs::FileExt\<close>, and I/O errors. A file
  is its byte sequence. The locale \<open>fixed_codec\<close> is what the record formats rely on.
\<close>

section \<open>I/O errors\<close>

datatype io_kind = NotADirectory | UnexpectedEof | InvalidInput | InvalidData | WriteZero | OtherKind

datatype io_error = IoError io_kind string

primrec io_display :: "io_error \<Rightarrow> string" where
  "io_display (IoError k msg) = msg"

primrec io_error_kind :: "io_error \<Rightarrow> io_kind" where
  "io_error_kind (IoError k msg) = k"

type_synonym 'a io_result = "io_error + 'a"

section \<open>Big-endian integers\<close>

fun be_bytes :: "nat \<Rightarrow> nat \<Rightarrow> byte list" where
  "be_bytes 0 n = []"
| "be_bytes (Suc k) n = be_bytes k (n div 256) @ [word_of_nat (n mod 256)]"

fun be_val :: "nat \<Rightarrow> byte list \<Rightarrow> nat" where
  "be_val acc [] = acc"
| "be_val acc (b # bs) = be_val (acc * 256 + unat b) bs"

lemma length_be_bytes [simp]: "length (be_bytes k n) = k"
  by (induction k arbitrary: n) simp_all

lemma be_bytes_numeral:
  "be_bytes (numeral k) n = be_bytes (pred_numeral k) (n div 256) @ [word_of_nat (n mod 256)]"
  unfolding numeral_eq_Suc [of k] be_bytes.simps ..

lemma be_val_append: "be_val acc (xs @ ys) = be_val (be_val acc xs) ys"
  by (induction xs arbitrary: acc) simp_all

lemma be_val_be_bytes: "be_val 0 (be_bytes k n) = n mod 256 ^ k"
proof (induction k arbitrary: n)
  case 0
  show ?case by simp
next
  case (Suc k)
  have "unat (word_of_nat (n mod 256) :: byte) = n mod 256"
    by (simp add: unat_of_nat)
  then have "be_val 0 (be_bytes (Suc k) n) = (n div 256) mod 256 ^ k * 256 + n mod 256"
    by (simp add: be_val_append Suc.IH)
  also have "\<dots> = n mod 256 ^ Suc k"
    by (simp add: mod_mult2_eq mult.commute)
  finally show ?case .
qed

lemma be_val_less: "be_val 0 bs < 256 ^ length bs"
proof (induction bs rule: rev_induct)
  case Nil
  show ?case by simp
next
  case (snoc b bs)
  have b: "unat b < 256" using unsigned_less [of b] by simp
  have "be_val 0 (bs @ [b]) = be_val 0 bs * 256 + unat b"
    by (simp add: be_val_append)
  also have "\<dots> < (be_val 0 bs + 1) * 256" using b by simp
  also have "\<dots> \<le> 256 ^ length bs * 256" using snoc.IH by (simp del: mult_Suc)
  finally show ?case by (simp add: mult.commute)
qed

lemma be_bytes_be_val: "be_bytes (length bs) (be_val 0 bs) = bs"
proof (induction bs rule: rev_induct)
  case Nil
  show ?case by simp
next
  case (snoc b bs)
  have b: "unat b < 256" using unsigned_less [of b] by simp
  then have "(be_val 0 bs * 256 + unat b) div 256 = be_val 0 bs"
    and "(be_val 0 bs * 256 + unat b) mod 256 = unat b"
    by simp_all
  with snoc.IH show ?case by (simp add: be_val_append)
qed

definition u64_to_be :: "u64 \<Rightarrow> byte list" where
  "u64_to_be w = be_bytes 8 (unat w)"

definition u64_from_be :: "byte list \<Rightarrow> u64" where
  "u64_from_be bs = word_of_nat (be_val 0 bs)"

definition u32_to_be :: "u32 \<Rightarrow> byte list" where
  "u32_to_be w = be_bytes 4 (unat w)"

definition u32_from_be :: "byte list \<Rightarrow> u32" where
  "u32_from_be bs = word_of_nat (be_val 0 bs)"

text \<open>
  A fixed-width encoding: every value takes \<open>width\<close> bytes, decoding inverts encoding, and
  every run of \<open>width\<close> bytes is the encoding of what it decodes to.
\<close>

locale fixed_codec =
  fixes enc :: "'a \<Rightarrow> byte list"
    and dec :: "byte list \<Rightarrow> 'a"
    and width :: nat
  assumes length_enc: "length (enc x) = width"
    and dec_enc: "dec (enc x) = x"
    and enc_dec: "length bs = width \<Longrightarrow> enc (dec bs) = bs"
begin

lemma enc_inj: "enc x = enc y \<longleftrightarrow> x = y"
  by (metis dec_enc)

lemma dec_prefix: "dec (take width (enc x @ rest)) = x"
  by (simp add: length_enc dec_enc)

lemma dec_at: "length pre = n \<Longrightarrow> dec (take width (drop n (pre @ enc x @ rest))) = x"
  by (simp add: length_enc dec_enc)

lemma enc_at_iff:
  assumes "n + width \<le> length bs"
  shows "dec (take width (drop n bs)) = x \<longleftrightarrow> take width (drop n bs) = enc x"
  using assms enc_dec [of "take width (drop n bs)"] dec_enc [of x] by auto

end

interpretation be64: fixed_codec u64_to_be u64_from_be 8
proof
  show "length (u64_to_be x) = 8" for x by (simp add: u64_to_be_def)
  show "u64_from_be (u64_to_be x) = x" for x
  proof -
    have "unat x < 256 ^ 8" using unsigned_less [of x] by simp
    then show ?thesis by (simp add: u64_to_be_def u64_from_be_def be_val_be_bytes)
  qed
  show "length bs = 8 \<Longrightarrow> u64_to_be (u64_from_be bs) = bs" for bs
  proof -
    assume len: "length bs = 8"
    then have "be_val 0 bs < 2 ^ 64" using be_val_less [of bs] by simp
    then have "unat (word_of_nat (be_val 0 bs) :: u64) = be_val 0 bs"
      by (simp add: unat_of_nat)
    with be_bytes_be_val [of bs] len show ?thesis
      by (simp add: u64_to_be_def u64_from_be_def)
  qed
qed

interpretation be32: fixed_codec u32_to_be u32_from_be 4
proof
  show "length (u32_to_be x) = 4" for x by (simp add: u32_to_be_def)
  show "u32_from_be (u32_to_be x) = x" for x
  proof -
    have "unat x < 256 ^ 4" using unsigned_less [of x] by simp
    then show ?thesis by (simp add: u32_to_be_def u32_from_be_def be_val_be_bytes)
  qed
  show "length bs = 4 \<Longrightarrow> u32_to_be (u32_from_be bs) = bs" for bs
  proof -
    assume len: "length bs = 4"
    then have "be_val 0 bs < 2 ^ 32" using be_val_less [of bs] by simp
    then have "unat (word_of_nat (be_val 0 bs) :: u32) = be_val 0 bs"
      by (simp add: unat_of_nat)
    with be_bytes_be_val [of bs] len show ?thesis
      by (simp add: u32_to_be_def u32_from_be_def)
  qed
qed

section \<open>Strings\<close>

text \<open>\<^verbatim>\<open>String::as_bytes\<close>, the unchecked inverse, and the validity \<^verbatim>\<open>String::from_utf8\<close> checks.\<close>

definition as_bytes :: "string \<Rightarrow> byte list" where
  "as_bytes s = map (\<lambda>c. word_of_nat (of_char c)) s"

definition string_of_bytes :: "byte list \<Rightarrow> string" where
  "string_of_bytes bs = map (\<lambda>b. char_of (unat b)) bs"

definition between :: "nat \<Rightarrow> nat \<Rightarrow> byte \<Rightarrow> bool" where
  "between lo hi b \<longleftrightarrow> lo \<le> unat b \<and> unat b \<le> hi"

fun utf8_valid :: "byte list \<Rightarrow> bool" where
  "utf8_valid [] = True"
| "utf8_valid (b0 # bs) =
     (if unat b0 < 128 then utf8_valid bs
      else case bs of
        [] \<Rightarrow> False
      | b1 # bs1 \<Rightarrow>
          if between 194 223 b0 then between 128 191 b1 \<and> utf8_valid bs1
          else case bs1 of
            [] \<Rightarrow> False
          | b2 # bs2 \<Rightarrow>
              if between 224 239 b0 then
                between (if unat b0 = 224 then 160 else 128)
                        (if unat b0 = 237 then 159 else 191) b1 \<and>
                between 128 191 b2 \<and> utf8_valid bs2
              else case bs2 of
                [] \<Rightarrow> False
              | b3 # bs3 \<Rightarrow>
                  between 240 244 b0 \<and>
                  between (if unat b0 = 240 then 144 else 128)
                          (if unat b0 = 244 then 143 else 191) b1 \<and>
                  between 128 191 b2 \<and> between 128 191 b3 \<and> utf8_valid bs3)"

lemma length_as_bytes [simp]: "length (as_bytes s) = length s"
  by (simp add: as_bytes_def)

lemma string_of_as_bytes [simp]: "string_of_bytes (as_bytes s) = s"
proof -
  have "char_of (unat (word_of_nat (of_char c) :: byte)) = c" for c
  proof -
    have "of_char c < (256 :: nat)" by (rule nat_of_char_less_256)
    then have "unat (word_of_nat (of_char c) :: byte) = of_char c"
      by (simp add: unat_of_nat)
    then show ?thesis by simp
  qed
  then show ?thesis by (simp add: as_bytes_def string_of_bytes_def map_idI)
qed

section \<open>Files\<close>

type_synonym filedata = "byte list"

definition write_at :: "nat \<Rightarrow> byte list \<Rightarrow> filedata \<Rightarrow> filedata" where
  "write_at p bs f = take p (f @ replicate (p - length f) 0) @ bs @ drop (p + length bs) f"

definition set_len :: "nat \<Rightarrow> filedata \<Rightarrow> filedata" where
  "set_len n f = take n f @ replicate (n - length f) 0"

definition read_exact_at :: "nat \<Rightarrow> nat \<Rightarrow> filedata \<Rightarrow> byte list option" where
  "read_exact_at p n f =
     (if n = 0 then Some [] else if p + n \<le> length f then Some (take n (drop p f)) else None)"

lemma length_write_at: "length (write_at p bs f) = max (p + length bs) (length f)"
  by (simp add: write_at_def)

lemma length_set_len [simp]: "length (set_len n f) = n"
  by (simp add: set_len_def)

lemma write_at_append: "length xs = p \<Longrightarrow> write_at p bs (xs @ ys) = xs @ bs @ drop (length bs) ys"
  by (simp add: write_at_def)

lemma set_len_append: "length xs = n \<Longrightarrow> set_len n (xs @ ys) = xs"
  by (simp add: set_len_def)

lemma read_exact_at_append:
  "length xs = p \<Longrightarrow> length bs = n \<Longrightarrow> read_exact_at p n (xs @ bs @ ys) = Some bs"
  by (auto simp: read_exact_at_def)

lemma read_exact_at_0 [simp]: "read_exact_at p 0 f = Some []"
  by (simp add: read_exact_at_def)

end
