(* ===== verification/Raft_Storage.thy ===== *)
theory Raft_Storage
  imports Raft_Types Bytes
begin

text \<open>
  Durable election state, \<^verbatim>\<open>src/raft/storage.rs\<close>: the term and the vote in one small file.
  \<open>save_state\<close> is the sequence of system calls of the source, run against a fault schedule:
  the schedule may fail any call after part of its bytes reached the file, which also
  describes a crash between or inside the calls. \<open>load_state\<close> reads the file back and
  panics where the source does. A saving without faults writes the whole file, whatever it
  held before, and loading returns what was saved.
\<close>

section \<open>The storage\<close>

record storage =
  st_dir :: string
  st_file :: filedata

text \<open>The result of opening \<^verbatim>\<open>state.metadata\<close> (its bytes, empty when just created) is given.\<close>

definition storage_new :: "string \<Rightarrow> filedata io_result \<Rightarrow> storage outcome" where
  "storage_new dir opened =
     (case opened of
        Inl e \<Rightarrow> Panic (ExpectFailed ''metadata file for raft could not be created'')
      | Inr f \<Rightarrow> Done \<lparr>st_dir = dir, st_file = f\<rparr>)"

definition load_state :: "storage \<Rightarrow> state outcome" where
  "load_state st =
     (if length (st_file st) = 0
      then Done \<lparr>hs_current_term = 0, hs_voted_for = None\<rparr>
      else case read_exact_at 0 8 (st_file st) of
        None \<Rightarrow> Panic (ExpectFailed ''reading metadata file fails'')
      | Some term_buf \<Rightarrow>
          (case read_exact_at 8 8 (st_file st) of
             None \<Rightarrow> Panic (ExpectFailed ''reading metadata file fails'')
           | Some voted_len_buf \<Rightarrow>
               let term = u64_from_be term_buf;
                   voted_len = u64_from_be voted_len_buf
               in if voted_len = 0
                  then Done \<lparr>hs_current_term = term, hs_voted_for = None\<rparr>
                  else case read_exact_at 16 (unat voted_len) (st_file st) of
                    None \<Rightarrow> Panic (ExpectFailed ''reading voted_for from metadata fails'')
                  | Some buf \<Rightarrow>
                      if utf8_valid buf
                      then Done \<lparr>hs_current_term = term,
                                 hs_voted_for = Some (NodeId (string_of_bytes buf))\<rparr>
                      else Panic (ExpectFailed
                        ''conversion of voted_for metadata into string fails'')))"

text \<open>The system calls of \<^verbatim>\<open>save_state\<close>, in order.\<close>

datatype disk_op = WriteAllAt nat "byte list" | SetLen nat | SyncAll

primrec node_str :: "node_id \<Rightarrow> string" where
  "node_str (NodeId s) = s"

definition save_ops :: "state \<Rightarrow> disk_op list" where
  "save_ops h =
     WriteAllAt 0 (u64_to_be (hs_current_term h)) #
     (case hs_voted_for h of
        Some n \<Rightarrow>
          let size = word_of_nat (length (node_str n)) :: u64
          in [WriteAllAt 8 (u64_to_be size), WriteAllAt 16 (as_bytes (node_str n)),
              SetLen (16 + unat size), SyncAll]
      | None \<Rightarrow> [WriteAllAt 8 (u64_to_be 0), SetLen 16, SyncAll])"

text \<open>
  A fault is the error of the call and the number of its bytes already written. A call
  that fails ends the sequence, as \<^verbatim>\<open>?\<close> does.
\<close>

type_synonym faults = "nat \<Rightarrow> (io_error \<times> nat) option"

primrec do_op :: "disk_op \<Rightarrow> filedata \<Rightarrow> filedata" where
  "do_op (WriteAllAt p bs) f = write_at p bs f"
| "do_op (SetLen n) f = set_len n f"
| "do_op SyncAll f = f"

primrec do_partial :: "nat \<Rightarrow> disk_op \<Rightarrow> filedata \<Rightarrow> filedata" where
  "do_partial k (WriteAllAt p bs) f = (if k = 0 then f else write_at p (take k bs) f)"
| "do_partial k (SetLen n) f = f"
| "do_partial k SyncAll f = f"

fun run_ops :: "faults \<Rightarrow> nat \<Rightarrow> disk_op list \<Rightarrow> filedata \<Rightarrow> filedata \<times> unit io_result" where
  "run_ops flt i [] f = (f, Inr ())"
| "run_ops flt i (c # cs) f =
     (case flt i of
        Some (e, k) \<Rightarrow> (do_partial k c f, Inl e)
      | None \<Rightarrow> run_ops flt (Suc i) cs (do_op c f))"

definition save_state :: "faults \<Rightarrow> state \<Rightarrow> storage \<Rightarrow> storage \<times> unit io_result" where
  "save_state flt h st =
     (let (f, r) = run_ops flt 0 (save_ops h) (st_file st) in (st\<lparr>st_file := f\<rparr>, r))"

abbreviation no_faults :: faults where
  "no_faults \<equiv> \<lambda>_. None"

section \<open>The layout of the file\<close>

definition vote_bytes :: "state \<Rightarrow> byte list" where
  "vote_bytes h = (case hs_voted_for h of None \<Rightarrow> [] | Some n \<Rightarrow> as_bytes (node_str n))"

definition layout :: "state \<Rightarrow> filedata" where
  "layout h = u64_to_be (hs_current_term h) @
     u64_to_be (word_of_nat (length (vote_bytes h))) @ vote_bytes h"

text \<open>What a Rust \<^verbatim>\<open>State\<close> always satisfies: the identifier is a \<^verbatim>\<open>String\<close>, so valid UTF-8 and no
  longer than memory.\<close>

definition state_ok :: "state \<Rightarrow> bool" where
  "state_ok h \<longleftrightarrow> utf8_valid (vote_bytes h) \<and> length (vote_bytes h) < 2 ^ 64"

text \<open>The state the file can represent: an empty identifier reads back as no vote.\<close>

definition read_back :: "state \<Rightarrow> state" where
  "read_back h = (if vote_bytes h = [] then h\<lparr>hs_voted_for := None\<rparr> else h)"

lemma unat_vote_length: "state_ok h \<Longrightarrow> unat (word_of_nat (length (vote_bytes h)) :: u64) =
    length (vote_bytes h)"
  by (simp add: state_ok_def unat_of_nat)

lemma write_two: "length a = 8 \<Longrightarrow> length b = 8 \<Longrightarrow>
    write_at 8 b (write_at 0 a f) = a @ b @ drop 16 f"
  by (simp add: write_at_def)

lemma write_three: "length a = 8 \<Longrightarrow> length b = 8 \<Longrightarrow>
    set_len (16 + length c) (write_at 16 c (a @ b @ rest)) = a @ b @ c"
  using write_at_append [of "a @ b" 16 c rest]
    set_len_append [of "a @ b @ c" "16 + length c" "drop (length c) rest"]
  by simp

lemma run_save_ops:
  assumes "state_ok h"
  shows "run_ops no_faults 0 (save_ops h) f = (layout h, Inr ())"
proof (cases "hs_voted_for h")
  case None
  then show ?thesis
    by (simp add: save_ops_def layout_def vote_bytes_def write_two be64.length_enc
        set_len_def)
next
  case (Some n)
  then have "unat (word_of_nat (length (node_str n)) :: u64) = length (node_str n)"
    using unat_vote_length [OF assms] by (simp add: vote_bytes_def)
  with Some show ?thesis
    using write_three [of "u64_to_be (hs_current_term h)"
        "u64_to_be (word_of_nat (length (node_str n)))" "as_bytes (node_str n)" "drop 16 f"]
    by (simp add: save_ops_def layout_def vote_bytes_def write_two be64.length_enc)
qed

lemma save_state_layout:
  assumes "state_ok h"
  shows "save_state no_faults h st = (st\<lparr>st_file := layout h\<rparr>, Inr ())"
  using run_save_ops [OF assms] by (simp add: save_state_def)

lemma read_layout:
  "read_exact_at 0 8 (layout h) = Some (u64_to_be (hs_current_term h))"
  "read_exact_at 8 8 (layout h) = Some (u64_to_be (word_of_nat (length (vote_bytes h))))"
  "read_exact_at 16 (length (vote_bytes h)) (layout h) = Some (vote_bytes h)"
  by (simp_all add: layout_def read_exact_at_def be64.length_enc)

lemma load_layout:
  assumes "state_ok h"
  shows "load_state (st\<lparr>st_file := layout h\<rparr>) = Done (read_back h)"
proof -
  have nonempty: "length (layout h) \<noteq> 0"
    by (simp add: layout_def be64.length_enc)
  have zero: "(word_of_nat (length (vote_bytes h)) :: u64) = 0 \<longleftrightarrow> vote_bytes h = []"
    by (simp add: word_unat_eq_iff unat_vote_length [OF assms])
  have same: "vote_bytes h \<noteq> [] \<Longrightarrow>
      h = \<lparr>hs_current_term = hs_current_term h,
           hs_voted_for = Some (NodeId (string_of_bytes (vote_bytes h)))\<rparr>"
    by (cases h; cases "hs_voted_for h"; cases "the (hs_voted_for h)") (auto simp: vote_bytes_def)
  show ?thesis
  proof (cases "vote_bytes h = []")
    case True
    with nonempty zero show ?thesis
      by (simp add: load_state_def read_layout be64.dec_enc Let_def read_back_def)
  next
    case False
    with nonempty zero same show ?thesis
      using assms unat_vote_length [OF assms]
      by (simp add: load_state_def read_layout be64.dec_enc Let_def read_back_def state_ok_def)
  qed
qed

section \<open>The interface: a durable cell\<close>

text \<open>
  What the runtime relies on: a cell whose reader returns the last value written. \<open>valid\<close>
  are the values that can be written and read back unchanged.
\<close>

locale durable_cell =
  fixes put :: "'v \<Rightarrow> 'd \<Rightarrow> 'd"
    and get :: "'d \<Rightarrow> 'v outcome"
    and valid :: "'v \<Rightarrow> bool"
  assumes get_put: "valid v \<Longrightarrow> get (put v d) = Done v"
begin

lemma get_last_put:
  assumes "vs \<noteq> []" and "list_all valid vs"
  shows "get (fold put vs d) = Done (last vs)"
  using assms
proof (induction vs arbitrary: d rule: rev_induct)
  case Nil
  then show ?case by simp
next
  case (snoc v vs)
  then show ?case by (simp add: get_put)
qed

end

definition state_storable :: "state \<Rightarrow> bool" where
  "state_storable h \<longleftrightarrow> state_ok h \<and> hs_voted_for h \<noteq> Some (NodeId [])"

lemma read_back_storable: "state_storable h \<Longrightarrow> read_back h = h"
  by (cases h; cases "hs_voted_for h"; cases "the (hs_voted_for h)")
    (auto simp: state_storable_def read_back_def vote_bytes_def as_bytes_def)

interpretation hard_state_cell: durable_cell
  "\<lambda>h st. fst (save_state no_faults h st)" load_state state_storable
proof
  fix h and st :: storage
  assume *: "state_storable h"
  then show "load_state (fst (save_state no_faults h st)) = Done h"
    using load_layout [of h st] read_back_storable [OF *]
    by (simp add: save_state_layout state_storable_def)
qed

section \<open>Properties\<close>

text \<open>
  C9. Saving without an I/O fault succeeds, writes exactly the documented layout (term,
  length of the vote, vote) whatever the file held before, and a later load returns the
  saved state; an empty node identifier is the one vote that is not read back.
\<close>

theorem save_then_load:
  assumes "state_ok h"
  shows "\<exists>st'. save_state no_faults h st = (st', Inr ()) \<and> st_file st' = layout h \<and>
    load_state st' = Done (if hs_voted_for h = Some (NodeId []) then h\<lparr>hs_voted_for := None\<rparr> else h)"
proof -
  have "vote_bytes h = [] \<longleftrightarrow> hs_voted_for h = None \<or> hs_voted_for h = Some (NodeId [])"
    by (cases "hs_voted_for h"; cases "the (hs_voted_for h)")
      (auto simp: vote_bytes_def as_bytes_def)
  then have "read_back h =
      (if hs_voted_for h = Some (NodeId []) then h\<lparr>hs_voted_for := None\<rparr> else h)"
    by (cases h) (auto simp: read_back_def)
  with save_state_layout [OF assms, of st] load_layout [OF assms, of st] show ?thesis
    by simp
qed

definition abc_state :: state where
  "abc_state = \<lparr>hs_current_term = 0x0102030405060708, hs_voted_for = Some (NodeId ''abc'')\<rparr>"

lemma save_then_load_witness:
  "\<exists>st'. save_state no_faults abc_state \<lparr>st_dir = ''d'', st_file = [9, 9]\<rparr> = (st', Inr ()) \<and>
     st_file st' = [1, 2, 3, 4, 5, 6, 7, 8, 0, 0, 0, 0, 0, 0, 0, 3, 97, 98, 99] \<and>
     load_state st' = Done abc_state"
proof -
  have ok: "state_ok abc_state"
    by (simp add: state_ok_def vote_bytes_def abc_state_def as_bytes_def)
  have "layout abc_state = [1, 2, 3, 4, 5, 6, 7, 8, 0, 0, 0, 0, 0, 0, 0, 3, 97, 98, 99]"
    by (simp add: layout_def vote_bytes_def abc_state_def as_bytes_def u64_to_be_def
        be_bytes_numeral)
  with save_then_load [OF ok, of "\<lparr>st_dir = ''d'', st_file = [9, 9]\<rparr>"] show ?thesis
    by (auto simp: abc_state_def)
qed

section \<open>Stops inside a saving\<close>

text \<open>A failed call, or a stop, inside the call numbered \<open>k\<close> after \<open>j\<close> of its bytes.\<close>

definition stop_in :: "nat \<Rightarrow> nat \<Rightarrow> faults" where
  "stop_in k j = (\<lambda>i. if i = k then Some (IoError OtherKind ''crash'', j) else None)"

lemma run_ops_stop:
  "i \<le> k \<Longrightarrow> fst (run_ops (stop_in k j) i cs f) =
     (if k - i < length cs then do_partial j (cs ! (k - i)) else id) (fold do_op (take (k - i) cs) f)"
proof (induction cs arbitrary: i f)
  case Nil
  show ?case by simp
next
  case (Cons c cs)
  show ?case
  proof (cases "i = k")
    case True
    then show ?thesis by (simp add: stop_in_def)
  next
    case False
    with Cons.prems obtain m where m: "k - i = Suc m" "k - Suc i = m" "Suc i \<le> k"
      by (metis Suc_diff_Suc Suc_leI le_neq_implies_less)
    with False Cons.IH [of "Suc i" "do_op c f"] show ?thesis
      by (simp add: stop_in_def)
  qed
qed

lemma save_state_stop:
  "fst (save_state (stop_in k j) h st) = st\<lparr>st_file :=
     (if k < length (save_ops h) then do_partial j (save_ops h ! k) else id)
       (fold do_op (take k (save_ops h)) (st_file st))\<rparr>"
  using run_ops_stop [of 0 k j "save_ops h" "st_file st"]
  by (simp add: save_state_def case_prod_unfold)

text \<open>Old bytes of which the first \<open>j\<close> have been overwritten.\<close>

definition torn :: "nat \<Rightarrow> byte list \<Rightarrow> byte list \<Rightarrow> byte list" where
  "torn j bs old = take j bs @ drop (length (take j bs)) old"

text \<open>What the three fields of a file mean.\<close>

definition read_fields :: "byte list \<Rightarrow> byte list \<Rightarrow> byte list \<Rightarrow> state outcome" where
  "read_fields tb lb vb =
     (let n = unat (u64_from_be lb) in
      if n = 0 then Done \<lparr>hs_current_term = u64_from_be tb, hs_voted_for = None\<rparr>
      else if length vb < n then Panic (ExpectFailed ''reading voted_for from metadata fails'')
      else if utf8_valid (take n vb)
      then Done \<lparr>hs_current_term = u64_from_be tb, hs_voted_for = Some (NodeId (string_of_bytes (take n vb)))\<rparr>
      else Panic (ExpectFailed ''conversion of voted_for metadata into string fails''))"

lemma load_fields:
  assumes "length tb = 8" and "length lb = 8"
  shows "load_state (st\<lparr>st_file := tb @ lb @ vb\<rparr>) = read_fields tb lb vb"
proof -
  have nums: "read_exact_at 0 8 (tb @ lb @ vb) = Some tb" "read_exact_at 8 8 (tb @ lb @ vb) = Some lb"
    "read_exact_at 16 n (tb @ lb @ vb) = (if n \<le> length vb then Some (take n vb) else None)"  for n
    using assms by (auto simp: read_exact_at_def)
  have ne: "length (tb @ lb @ vb) \<noteq> 0" using assms by auto
  show ?thesis
    using ne by (auto simp: load_state_def nums read_fields_def Let_def unat_eq_zero not_less)
qed

lemma length_torn [simp]: "length bs = length old \<Longrightarrow> length (torn j bs old) = length old"
  by (simp add: torn_def)

lemma torn_0 [simp]: "torn 0 bs old = old"
  by (simp add: torn_def)

abbreviation term_bytes :: "state \<Rightarrow> byte list" where
  "term_bytes h \<equiv> u64_to_be (hs_current_term h)"

abbreviation length_bytes :: "state \<Rightarrow> byte list" where
  "length_bytes h \<equiv> u64_to_be (word_of_nat (length (vote_bytes h)))"

text \<open>The three fields a stopped saving leaves.\<close>

lemma stopped_file:
  assumes "state_ok old" and "state_ok new"
  shows "k = 0 \<Longrightarrow> st_file (fst (save_state (stop_in k j) new (st\<lparr>st_file := layout old\<rparr>))) =
      torn j (term_bytes new) (term_bytes old) @ length_bytes old @ vote_bytes old"
    and "k = 1 \<Longrightarrow> st_file (fst (save_state (stop_in k j) new (st\<lparr>st_file := layout old\<rparr>))) =
      term_bytes new @ torn j (length_bytes new) (length_bytes old) @ vote_bytes old"
    and "k = 2 \<Longrightarrow> st_file (fst (save_state (stop_in k j) new (st\<lparr>st_file := layout old\<rparr>))) =
      term_bytes new @ length_bytes new @ torn j (vote_bytes new) (vote_bytes old)"
  by (auto simp: save_state_stop save_ops_def layout_def vote_bytes_def write_at_def torn_def be64.length_enc
     take_Cons' nth_Cons' Let_def split: option.splits)

lemma stopped_late:
  assumes new: "state_ok new" and k: "3 \<le> k"
  shows "\<exists>rest. st_file (fst (save_state (stop_in k j) new (st\<lparr>st_file := layout old\<rparr>))) = layout new @ rest"
proof -
  have len: "unat (word_of_nat (length (vote_bytes new)) :: u64) = length (vote_bytes new)"
    using unat_vote_length [OF new] .
  let ?T = "u64_to_be (hs_current_term new)" and ?L = "u64_to_be (word_of_nat (length (vote_bytes new)))"
  have two: "write_at 8 ?L (write_at 0 ?T (layout old)) = ?T @ ?L @ vote_bytes old"
    using write_two [of ?T ?L "layout old"] by (simp add: be64.length_enc layout_def)
  have lay: "layout new = ?T @ ?L @ vote_bytes new" by (simp add: layout_def)
  have cut: "set_len (16 + length (vote_bytes new)) (layout new @ r) = layout new" for r
    by (simp add: lay set_len_def be64.length_enc)
  let ?f = "st_file (fst (save_state (stop_in k j) new (st\<lparr>st_file := layout old\<rparr>)))"
  show ?thesis
  proof (cases "hs_voted_for new")
    case None
    then have v: "vote_bytes new = []" by (simp add: vote_bytes_def)
    have ops: "save_ops new = [WriteAllAt 0 ?T, WriteAllAt 8 ?L, SetLen 16, SyncAll]"
      using None by (simp add: save_ops_def v)
    have "take k (save_ops new) = [WriteAllAt 0 ?T, WriteAllAt 8 ?L, SetLen 16] @ (if k = 3 then [] else [SyncAll])"
      using k by (cases "k = 3") (simp_all add: ops)
    moreover have "set_len 16 (?T @ ?L @ vote_bytes old) = layout new"
      using cut [of "vote_bytes old"] by (simp add: lay v)
    ultimately have "?f = layout new"
      using k two by (cases "k = 3") (auto simp: save_state_stop ops)
    then show ?thesis by simp
  next
    case (Some n)
    then have v: "as_bytes (node_str n) = vote_bytes new" and n: "length (node_str n) = length (vote_bytes new)"
      by (simp_all add: vote_bytes_def)
    have ops: "save_ops new = [WriteAllAt 0 ?T, WriteAllAt 8 ?L, WriteAllAt 16 (vote_bytes new),
        SetLen (16 + length (vote_bytes new)), SyncAll]"
      using Some len by (simp add: save_ops_def v n Let_def)
    let ?three = "write_at 16 (vote_bytes new) (?T @ ?L @ vote_bytes old)"
    have three: "?three = layout new @ drop (length (vote_bytes new)) (vote_bytes old)"
      by (simp add: lay write_at_def be64.length_enc)
    consider "k = 3" | "k = 4" | "5 \<le> k" using k by linarith
    then show ?thesis
    proof cases
      case 1
      then have "?f = ?three" using two by (simp add: save_state_stop ops)
      then show ?thesis unfolding three by blast
    next
      case 2
      then have "?f = layout new" using two by (simp add: save_state_stop ops three cut)
      then show ?thesis by simp
    next
      case 3
      then have "?f = layout new" using two by (simp add: save_state_stop ops three cut)
      then show ?thesis by simp
    qed
  qed
qed

lemma read_fields_layout:
  assumes "state_storable h"
  shows "read_fields tb (u64_to_be (word_of_nat (length (vote_bytes h)))) (vote_bytes h @ rest) =
    Done (h\<lparr>hs_current_term := u64_from_be tb\<rparr>)"
proof -
  have ok: "state_ok h" using assms by (simp add: state_storable_def)
  obtain t v where h: "h = \<lparr>hs_current_term = t, hs_voted_for = v\<rparr>" by (cases h)
  note len = unat_vote_length [OF ok]
  show ?thesis
  proof (cases v)
    case None
    then show ?thesis by (simp add: h read_fields_def vote_bytes_def be64.dec_enc)
  next
    case (Some n)
    then obtain s where s: "v = Some (NodeId s)" by (cases n) simp
    then have vb: "vote_bytes h = as_bytes s" by (simp add: h vote_bytes_def)
    then have "s \<noteq> []" and utf: "utf8_valid (as_bytes s)"
      using assms s by (auto simp: h state_storable_def state_ok_def as_bytes_def)
    with len show ?thesis by (simp add: read_fields_def be64.dec_enc vb utf Let_def) (simp add: h s)
  qed
qed

lemma read_fields_no_vote:
  "hs_voted_for h = None \<Longrightarrow>
   read_fields (u64_to_be (hs_current_term h)) (u64_to_be (word_of_nat (length (vote_bytes h)))) vb = Done h"
  by (cases h) (simp add: read_fields_def vote_bytes_def be64.dec_enc)

text \<open>
  C27. What a saving that stops anywhere leaves for the next start, from a file that held a full
  state: stopped inside the call numbered \<open>k\<close> after \<open>j\<close> bytes of it, the next load gives, in the
  first call, the old vote under a term whose first \<open>j\<close> bytes are new; in the second, the old vote
  read with a length that is partly new; in the third, the bytes of the old vote of which \<open>j\<close> are
  overwritten, cut to the new length, as the vote of the new term, or a panic where they are too
  few or no UTF-8; and from the fourth on the new state. So between two calls it is the old state,
  the old vote under the new term or the new state, except between the length and the bytes of a
  new vote, where the vote may be lost, cut or mixed.\<close>

theorem crash_recovery:
  assumes "state_storable old" and "state_storable new" and "st_file st = layout old"
  shows "load_state (fst (save_state (stop_in k j) new st)) =
      (if k = 0 then Done (old\<lparr>hs_current_term := u64_from_be (torn j (term_bytes new) (term_bytes old))\<rparr>)
       else if k = 1 then read_fields (term_bytes new) (torn j (length_bytes new) (length_bytes old)) (vote_bytes old)
       else if k = 2 then read_fields (term_bytes new) (length_bytes new) (torn j (vote_bytes new) (vote_bytes old))
       else Done new) \<and>
    (j = 0 \<and> (k \<noteq> 2 \<or> hs_voted_for new = None) \<longrightarrow>
      (\<exists>h \<in> {old, old\<lparr>hs_current_term := hs_current_term new\<rparr>, new}.
         load_state (fst (save_state (stop_in k j) new st)) = Done h))"
proof -
  let ?r = "load_state (fst (save_state (stop_in k j) new st))"
  have st: "st = st\<lparr>st_file := layout old\<rparr>" using assms(3) by simp
  have ok: "state_ok old" "state_ok new" using assms(1,2) by (simp_all add: state_storable_def)
  have stop: "fst (save_state (stop_in k j) new st) =
      st\<lparr>st_file := st_file (fst (save_state (stop_in k j) new (st\<lparr>st_file := layout old\<rparr>)))\<rparr>"
    unfolding st [symmetric] by (simp add: save_state_stop)
  note stopped = stopped_file [OF ok, where k = k and j = j and st = st]
  have len: "length (term_bytes h) = 8" "length (length_bytes h) = 8" for h by (simp_all add: be64.length_enc)
  have num: "u64_from_be (term_bytes h) = hs_current_term h" for h by (simp add: be64.dec_enc)
  have k0: "?r = Done (old\<lparr>hs_current_term := u64_from_be (torn j (term_bytes new) (term_bytes old))\<rparr>)" if "k = 0"
    unfolding stop stopped(1) [OF that]
    using len read_fields_layout [OF assms(1), of _ "[]"] by (subst load_fields) simp_all
  have k1: "?r = read_fields (term_bytes new) (torn j (length_bytes new) (length_bytes old)) (vote_bytes old)" if "k = 1"
    unfolding stop stopped(2) [OF that] using len by (subst load_fields) simp_all
  have k2: "?r = read_fields (term_bytes new) (length_bytes new) (torn j (vote_bytes new) (vote_bytes old))" if "k = 2"
    unfolding stop stopped(3) [OF that] using len by (subst load_fields) simp_all
  have k3: "?r = Done new" if late: "3 \<le> k"
  proof -
    obtain rest where rest: "st_file (fst (save_state (stop_in k j) new (st\<lparr>st_file := layout old\<rparr>))) = term_bytes new @ length_bytes new @ vote_bytes new @ rest"
      using stopped_late [OF ok(2) late, where j = j and st = st and old = old] by (auto simp: layout_def)
    show ?thesis
      unfolding stop rest using len read_fields_layout [OF assms(2), of "term_bytes new" rest] num [of new]
      by (subst load_fields) simp_all
  qed
  have "?r = (if k = 0 then Done (old\<lparr>hs_current_term := u64_from_be (torn j (term_bytes new) (term_bytes old))\<rparr>)
       else if k = 1 then read_fields (term_bytes new) (torn j (length_bytes new) (length_bytes old)) (vote_bytes old)
       else if k = 2 then read_fields (term_bytes new) (length_bytes new) (torn j (vote_bytes new) (vote_bytes old))
       else Done new)"
    using k0 k1 k2 k3 by auto
  moreover have "\<exists>h \<in> {old, old\<lparr>hs_current_term := hs_current_term new\<rparr>, new}. ?r = Done h"
    if "j = 0" "k \<noteq> 2 \<or> hs_voted_for new = None"
  proof -
    consider "k = 0" | "k = 1" | "k = 2" | "3 \<le> k" by linarith
    then show ?thesis
    proof cases
      case 2
      then show ?thesis
        using k1 that(1) read_fields_layout [OF assms(1), of "term_bytes new" "[]"] num by simp
    next
      case 3
      then show ?thesis
        using k2 that read_fields_no_vote [of new "torn j (vote_bytes new) (vote_bytes old)"] by simp
    qed (use k0 k3 that(1) num in simp_all)
  qed
  ultimately show ?thesis by blast
qed

text \<open>A vote for \<^verbatim>\<open>abc\<close> over one for \<^verbatim>\<open>xyz\<close>, stopped after one byte of it: a vote for \<^verbatim>\<open>ayz\<close>.\<close>

lemma crash_recovery_witness:
  "load_state (fst (save_state (stop_in 2 1) abc_state
      \<lparr>st_dir = ''d'', st_file = layout \<lparr>hs_current_term = 4, hs_voted_for = Some (NodeId ''xyz'')\<rparr>\<rparr>)) =
    Done \<lparr>hs_current_term = 0x0102030405060708, hs_voted_for = Some (NodeId ''ayz'')\<rparr>"
proof -
  let ?old = "\<lparr>hs_current_term = 4, hs_voted_for = Some (NodeId ''xyz'')\<rparr>"
  have "state_storable ?old" "state_storable abc_state"
    by (simp_all add: state_storable_def state_ok_def vote_bytes_def abc_state_def as_bytes_def)
  note stop = crash_recovery [OF this, of "\<lparr>st_dir = ''d'', st_file = layout ?old\<rparr>" 2 1]
  have vote: "torn 1 (vote_bytes abc_state) (vote_bytes ?old) = as_bytes ''ayz''" "length (vote_bytes abc_state) = 3"
    "utf8_valid (as_bytes ''ayz'')" "length (as_bytes ''ayz'') = 3"
    by (simp_all add: torn_def vote_bytes_def abc_state_def as_bytes_def)
  then show ?thesis
    using stop by (simp add: read_fields_def be64.dec_enc) (simp add: abc_state_def)
qed

text \<open>
  Between the length and the bytes of a first vote the file is lost: a node without a stored vote
  that stops there cannot load its state again.\<close>

theorem crash_bricks_first_vote:
  assumes "state_ok old" and "state_ok new" and "st_file st = layout old"
    and "hs_voted_for old = None" and "vote_bytes new \<noteq> []"
  shows "load_state (fst (save_state (stop_in 2 0) new st)) =
    Panic (ExpectFailed ''reading voted_for from metadata fails'')"
proof -
  have st: "st = st\<lparr>st_file := layout old\<rparr>" using assms(3) by simp
  have "fst (save_state (stop_in 2 0) new st) = st\<lparr>st_file := u64_to_be (hs_current_term new) @
      u64_to_be (word_of_nat (length (vote_bytes new))) @ []\<rparr>"
    using stopped_file(3) [OF assms(1,2), where k = 2 and j = 0 and st = st] assms(4) unfolding st [symmetric]
    by (cases st) (simp add: save_state_stop vote_bytes_def)
  then show ?thesis
    using assms(5) unat_vote_length [OF assms(2)]
    by (simp only:) (subst load_fields, simp_all add: be64.length_enc read_fields_def be64.dec_enc)
qed

lemma crash_bricks_first_vote_witness:
  "load_state (fst (save_state (stop_in 2 0) abc_state
      \<lparr>st_dir = ''d'', st_file = layout \<lparr>hs_current_term = 4, hs_voted_for = None\<rparr>\<rparr>)) =
    Panic (ExpectFailed ''reading voted_for from metadata fails'')"
  using crash_bricks_first_vote [of "\<lparr>hs_current_term = 4, hs_voted_for = None\<rparr>" abc_state
      "\<lparr>st_dir = ''d'', st_file = layout \<lparr>hs_current_term = 4, hs_voted_for = None\<rparr>\<rparr>"]
  by (simp add: state_ok_def vote_bytes_def abc_state_def as_bytes_def)

end
