(* ===== verification/Raft_Boot.thy ===== *)
theory Raft_Boot
  imports Raft_Core_Props
begin

text \<open>
  The Raft state a node starts with: the part of \<^verbatim>\<open>Runtime::new\<close> in \<^verbatim>\<open>src/raft/runtime.rs\<close>
  that builds \<^verbatim>\<open>Raft\<close> from the identifier, the voters, the next offset of the log and the
  stored hard state.
\<close>

definition boot_progress :: "node_id \<Rightarrow> u64 \<Rightarrow> node_id \<Rightarrow> progress" where
  "boot_progress me next_offset v =
     \<lparr>next_index = next_offset,
      match_index = (if v = me then saturating_sub next_offset 1 else 0)\<rparr>"

fun boot_voters :: "node_id \<Rightarrow> u64 \<Rightarrow> node_id list \<Rightarrow> (node_id, progress) hash_map \<Rightarrow>
    (node_id, progress) hash_map" where
  "boot_voters me next_offset [] acc = acc"
| "boot_voters me next_offset (v # vs) acc =
     boot_voters me next_offset vs (hm_insert v (boot_progress me next_offset v) acc)"

definition boot_raft :: "node_id \<Rightarrow> (node_id, progress) hash_map \<Rightarrow> state \<Rightarrow> raft" where
  "boot_raft me vm h =
     \<lparr>self_id = me, voters = vm, learners = [], role = Follower,
      current_term = hs_current_term h, leader_id = None, voted_for = hs_voted_for h,
      last_applied = 0, commit_index = 0, last_log_index = 0, last_log_term = 0,
      granted_votes = {}\<rparr>"

definition raft_new :: "node_id \<Rightarrow> node_id list \<Rightarrow> u64 \<Rightarrow> state \<Rightarrow> raft outcome" where
  "raft_new me vs next_offset h =
     (let vm = boot_voters me next_offset vs []
      in if \<not> hm_contains vm me
         then Panic (AssertionFailed ''the local node must be a voter'')
         else Done (boot_raft me vm h))"

lemma boot_voters_keys:
  "distinct (hm_keys acc @ vs) \<Longrightarrow>
   hm_keys (boot_voters me next_offset vs acc) = hm_keys acc @ vs"
proof (induction vs arbitrary: acc)
  case Nil
  then show ?case by simp
next
  case (Cons v vs)
  then have "hm_keys (hm_insert v (boot_progress me next_offset v) acc) = hm_keys acc @ [v]"
    by (simp add: hm_keys_def hm_insert_def update_keys)
  with Cons show ?case by simp
qed

lemma boot_voters_set:
  "set (hm_keys (boot_voters me next_offset vs acc)) = set (hm_keys acc) \<union> set vs"
  by (induction vs arbitrary: acc) (auto simp: hm_keys_insert)

lemma boot_voters_wf: "hm_wf acc \<Longrightarrow> hm_wf (boot_voters me next_offset vs acc)"
  by (induction vs arbitrary: acc) (auto simp: hm_wf_insert)

lemma hm_keys_Nil [simp]: "hm_keys [] = []"
  by (simp add: hm_keys_def)

lemma hm_wf_Nil [simp]: "hm_wf []"
  by (simp add: hm_wf_def)

lemma raft_new_Done: "raft_new me vs next_offset h = Done s \<Longrightarrow> me \<in> set vs"
  by (auto simp: raft_new_def Let_def hm_contains_iff boot_voters_set split: if_splits)

lemma raft_new_member: "me \<in> set vs \<Longrightarrow>
   raft_new me vs next_offset h = Done (boot_raft me (boot_voters me next_offset vs []) h)"
  by (simp add: raft_new_def Let_def hm_contains_iff boot_voters_set)

lemma raft_new_fields:
  "raft_new me vs next_offset h = Done s \<Longrightarrow>
   self_id s = me \<and> role s = Follower \<and> hard_state s = h \<and> granted_votes s = {} \<and>
   current_term s = hs_current_term h \<and> voted_for s = hs_voted_for h \<and>
   voters s = boot_voters me next_offset vs []"
  by (cases h) (auto simp: raft_new_def boot_raft_def Let_def hard_state_def split: if_splits)

lemma raft_new_wf: "raft_new me vs next_offset h = Done s \<Longrightarrow> raft_wf s"
  by (auto simp: raft_new_def boot_raft_def Let_def raft_wf_def boot_voters_wf split: if_splits)

end
