(* ===== verification/Raft_Cluster.thy ===== *)
theory Raft_Cluster
  imports Raft_Boot Raft_Storage
begin

text \<open>
  A cluster of nodes that each run \<^verbatim>\<open>Raft::handle\<close> over their own hard-state file. The
  network may lose, repeat and reorder vote messages but does not forge them; every other
  event is arbitrary. A node saves the hard state an effect carries before the effect's
  message is on the wire, as \<^verbatim>\<open>Runtime::execute\<close> does, and may stop at any time and restart
  from its file as \<^verbatim>\<open>Runtime::new\<close> does. Two history fields record the votes cast and the
  terms in which a node was leader.
\<close>

section \<open>The cluster\<close>

datatype message = VoteReq node_id vote_request | VoteResp node_id node_id vote_response

record cluster =
  nodes :: "node_id \<Rightarrow> raft"
  disks :: "node_id \<Rightarrow> storage"
  wire :: "message set"
  votes_cast :: "(node_id \<times> u64 \<times> node_id) set"
  elected :: "(node_id \<times> u64) set"

datatype cluster_label = Deliver node_id event | Restart node_id u64

definition on_wire :: "node_id \<Rightarrow> event \<Rightarrow> cluster \<Rightarrow> bool" where
  "on_wire i ev c =
     (case ev of
        RequestVote req \<Rightarrow> VoteReq i req \<in> wire c
      | VoteResponse vr \<Rightarrow> VoteResp (rv_from vr) i (rv_response vr) \<in> wire c
      | _ \<Rightarrow> True)"

text \<open>The hard state that an effect carries, which the executor saves first.\<close>

fun carried :: "effect \<Rightarrow> state option" where
  "carried (SendRequestVotes h peers req) = Some h"
| "carried (SendRequestVoteResponse hs peer resp) = hs"
| "carried _ = None"

fun to_save :: "error + effect option \<Rightarrow> state option" where
  "to_save (Inr (Some eff)) = carried eff"
| "to_save _ = None"

definition persist :: "error + effect option \<Rightarrow> storage \<Rightarrow> storage" where
  "persist r st = (case to_save r of None \<Rightarrow> st | Some h \<Rightarrow> fst (save_state no_faults h st))"

fun sends :: "node_id \<Rightarrow> error + effect option \<Rightarrow> message set" where
  "sends i (Inr (Some (SendRequestVotes h peers req))) = (\<lambda>p. VoteReq p req) ` set peers"
| "sends i (Inr (Some (SendRequestVoteResponse hs peer resp))) = {VoteResp i peer resp}"
| "sends i _ = {}"

fun cluster_exec :: "node_id list \<Rightarrow> cluster_label \<Rightarrow> cluster \<Rightarrow> cluster option" where
  "cluster_exec vs (Deliver i ev) c =
     (if i \<in> set vs \<and> on_wire i ev c then
        (case handle ev (nodes c i) of
           Panic p \<Rightarrow> None
         | Done (s', r) \<Rightarrow> Some (c
             \<lparr>nodes := (nodes c)(i := s'),
              disks := (disks c)(i := persist r (disks c i)),
              wire := wire c \<union> sends i r,
              votes_cast := votes_cast c \<union> (\<lambda>(t, a). (i, t, a)) ` ballots (ev, r),
              elected := elected c \<union> (if role s' = Leader then {(i, current_term s')} else {})\<rparr>))
      else None)"
| "cluster_exec vs (Restart i next_offset) c =
     (case load_state (disks c i) of
        Panic p \<Rightarrow> None
      | Done h \<Rightarrow> (case raft_new i vs next_offset h of
            Panic p \<Rightarrow> None
          | Done s \<Rightarrow> Some (c\<lparr>nodes := (nodes c)(i := s)\<rparr>)))"

text \<open>Every node starts on an empty file.\<close>

definition fresh_node :: "node_id list \<Rightarrow> node_id \<Rightarrow> raft" where
  "fresh_node vs i =
     boot_raft i (boot_voters i 0 vs []) \<lparr>hs_current_term = 0, hs_voted_for = None\<rparr>"

definition cluster_init :: "node_id list \<Rightarrow> cluster" where
  "cluster_init vs =
     \<lparr>nodes = fresh_node vs, disks = (\<lambda>i. \<lparr>st_dir = node_str i, st_file = []\<rparr>),
      wire = {}, votes_cast = {}, elected = {}\<rparr>"

text \<open>
  The one branch of the core that breaks elections: an append request of a newer term whose
  previous entry does not match.
\<close>

definition newer_term_mismatch :: "event \<Rightarrow> raft \<Rightarrow> bool" where
  "newer_term_mismatch ev s =
     (case ev of
        AppendEntries rcv \<Rightarrow>
          current_term s < aq_term (ra_request rcv) \<and>
          (last_log_index s < aq_prev_log_index (ra_request rcv) \<or>
           aq_prev_log_index (ra_request rcv) \<noteq> 0 \<and>
           ra_local_prev_log_term rcv \<noteq> Some (aq_prev_log_term (ra_request rcv)))
      | _ \<Rightarrow> False)"

definition clean_step :: "node_id list \<Rightarrow> cluster \<Rightarrow> cluster_label \<Rightarrow> cluster \<Rightarrow> bool" where
  "clean_step vs c l c' \<longleftrightarrow> cluster_exec vs l c = Some c' \<and>
     (case l of Deliver i ev \<Rightarrow> \<not> newer_term_mismatch ev (nodes c i) | Restart i n \<Rightarrow> True)"

section \<open>What one event does to the durable part\<close>

lemma handle_saved:
  "handle ev s = Done (s', r) \<Longrightarrow> to_save r = Some h \<Longrightarrow> h = hard_state s'"
  by (cases ev) (auto simp: step_simps leader_heartbeat_def split: if_splits)

lemma handle_unsaved:
  assumes "handle ev s = Done (s', r)" and "to_save r = None"
    and "\<not> newer_term_mismatch ev s"
  shows "current_term s' = current_term s \<and> voted_for s' = voted_for s \<or>
    current_term s < current_term s' \<and> voted_for s' = None"
  using assms
  by (cases ev) (auto simp: step_simps newer_term_mismatch_def split: if_splits)

lemma handle_voted:
  "handle ev s = Done (s', r) \<Longrightarrow>
   voted_for s' \<in> {None, voted_for s, Some (self_id s)} \<or>
   (\<exists>req. ev = RequestVote req \<and> voted_for s' = Some (vq_candidate_id req))"
  by (cases ev) (auto simp: step_simps split: if_splits)

lemma handle_leads:
  "handle ev s = Done (s', r) \<Longrightarrow> role s' = Leader \<Longrightarrow> \<not> newer_term_mismatch ev s \<Longrightarrow>
   role s = Leader \<Longrightarrow> current_term s' = current_term s"
  by (cases ev) (auto simp: step_simps newer_term_mismatch_def split: if_splits)

lemma handle_candidate:
  "handle ev s = Done (s', r) \<Longrightarrow> role s' = Candidate \<Longrightarrow> \<not> newer_term_mismatch ev s \<Longrightarrow>
   (current_term s', self_id s) \<in> ballots (ev, r) \<and> granted_votes s' = {self_id s} \<or>
   role s = Candidate \<and> current_term s' = current_term s \<and>
   (granted_votes s' = granted_votes s \<or>
    (\<exists>vr. ev = VoteResponse vr \<and> vp_term (rv_response vr) = current_term s \<and>
       vp_vote_granted (rv_response vr) \<and>
       granted_votes s' = insert (rv_from vr) (granted_votes s)))"
  by (cases ev) (auto simp: step_simps newer_term_mismatch_def split: if_splits)

lemma handle_sends_request:
  "handle ev s = Done (s', r) \<Longrightarrow> VoteReq j req \<in> sends i r \<Longrightarrow> vq_candidate_id req = self_id s"
  by (cases ev) (auto simp: step_simps leader_heartbeat_def split: if_splits)

lemma sends_grant:
  "VoteResp k j resp \<in> sends i r \<Longrightarrow> vp_vote_granted resp \<Longrightarrow>
   k = i \<and> (vp_term resp, j) \<in> ballots (ev, r)"
  by (cases "(i, r)" rule: sends.cases) auto

section \<open>The invariant\<close>

text \<open>Identifiers the hard-state file can hold, and states whose vote is one of them.\<close>

definition storable_id :: "node_id \<Rightarrow> bool" where
  "storable_id n \<longleftrightarrow> state_storable \<lparr>hs_current_term = 0, hs_voted_for = Some n\<rparr>"

definition votes_within :: "node_id list \<Rightarrow> raft \<Rightarrow> bool" where
  "votes_within vs s \<longleftrightarrow> voted_for s \<in> insert None (Some ` set vs)"

lemma votes_within_storable:
  "votes_within vs s \<Longrightarrow> list_all storable_id vs \<Longrightarrow> state_storable (hard_state s)"
  by (auto simp: votes_within_def storable_id_def state_storable_def state_ok_def vote_bytes_def
      hard_state_def list_all_iff)

text \<open>
  The file is never ahead of the node; where it is behind, the node has not voted since;
  every vote the node ever cast is covered by the file, and no two of them contradict.
\<close>

definition durable :: "(u64 \<times> node_id) set \<Rightarrow> raft \<Rightarrow> storage \<Rightarrow> bool" where
  "durable B s st \<longleftrightarrow> (\<exists>d. load_state st = Done d \<and>
     hs_current_term d \<le> current_term s \<and>
     (if hs_current_term d = current_term s then hs_voted_for d = voted_for s
      else voted_for s = None) \<and>
     (\<forall>t a. (t, a) \<in> B \<longrightarrow>
        t < hs_current_term d \<or> t = hs_current_term d \<and> hs_voted_for d = Some a)) \<and>
     (\<forall>t a b. (t, a) \<in> B \<longrightarrow> (t, b) \<in> B \<longrightarrow> a = b)"

lemma durable_step:
  assumes dur: "durable B s st" and h: "handle ev s = Done (s', r)"
    and clean: "\<not> newer_term_mismatch ev s" and ok: "state_storable (hard_state s')"
  shows "durable (B \<union> ballots (ev, r)) s' (persist r st)"
proof -
  obtain d where d: "load_state st = Done d" "hs_current_term d \<le> current_term s"
    and vote: "if hs_current_term d = current_term s then hs_voted_for d = voted_for s
      else voted_for s = None"
    and cast: "\<And>t a. (t, a) \<in> B \<Longrightarrow>
      t < hs_current_term d \<or> t = hs_current_term d \<and> hs_voted_for d = Some a"
    and uniq: "\<And>t a b. (t, a) \<in> B \<Longrightarrow> (t, b) \<in> B \<Longrightarrow> a = b"
    using dur by (auto simp: durable_def)
  have mono: "current_term s \<le> current_term s'" using h by (rule handle_term_mono)
  have new: "t = current_term s' \<and> voted_for s' = Some a" if "(t, a) \<in> ballots (ev, r)" for t a
    using handle_ballot [OF h that] .
  have old: "t < current_term s' \<or> t = current_term s' \<and> voted_for s' = Some a"
    if "(t, a) \<in> B" for t a
    using cast [OF that] d(2) mono vote handle_vote_stable [OF h, of a]
    by (auto split: if_splits)
  have one: "a = b"
    if "(t, a) \<in> B \<union> ballots (ev, r)" and "(t, b) \<in> B \<union> ballots (ev, r)" for t a b
    using that uniq old [of t a] old [of t b] new [of t a] new [of t b] by auto
  show ?thesis
  proof (cases "to_save r")
    case (Some g)
    then have "g = hard_state s'" using h by (auto dest: handle_saved)
    then have load: "load_state (persist r st) = Done (hard_state s')"
      using Some ok by (simp add: persist_def hard_state_cell.get_put)
    show ?thesis
      unfolding durable_def using load new old one by (auto simp: hard_state_def)
  next
    case None
    then have same: "persist r st = st" by (simp add: persist_def)
    from handle_unsaved [OF h None clean] show ?thesis
    proof
      assume "current_term s' = current_term s \<and> voted_for s' = voted_for s"
      with d vote cast new same one show ?thesis
        unfolding durable_def by (auto split: if_splits)
    next
      assume "current_term s < current_term s' \<and> voted_for s' = None"
      with d vote cast new same one show ?thesis
        unfolding durable_def by (auto split: if_splits)
    qed
  qed
qed

lemma durable_restart:
  "durable B s st \<Longrightarrow> load_state st = Done (hard_state s') \<Longrightarrow> durable B s' st"
  by (auto simp: durable_def hard_state_def)

definition ballots_of :: "cluster \<Rightarrow> node_id \<Rightarrow> (u64 \<times> node_id) set" where
  "ballots_of c i = {(t, a). (i, t, a) \<in> votes_cast c}"

definition disk_within :: "node_id list \<Rightarrow> storage \<Rightarrow> bool" where
  "disk_within vs st \<longleftrightarrow>
     (\<forall>d. load_state st = Done d \<longrightarrow> hs_voted_for d \<in> insert None (Some ` set vs))"

definition node_inv :: "node_id list \<Rightarrow> cluster \<Rightarrow> node_id \<Rightarrow> bool" where
  "node_inv vs c i \<longleftrightarrow>
     self_id (nodes c i) = i \<and> raft_wf (nodes c i) \<and> hm_keys (voters (nodes c i)) = vs \<and>
     votes_within vs (nodes c i) \<and> disk_within vs (disks c i) \<and>
     durable (ballots_of c i) (nodes c i) (disks c i) \<and>
     (role (nodes c i) = Candidate \<longrightarrow>
        (\<forall>k \<in> granted_votes (nodes c i). (k, current_term (nodes c i), i) \<in> votes_cast c)) \<and>
     (role (nodes c i) = Leader \<longrightarrow> (i, current_term (nodes c i)) \<in> elected c)"

definition wire_inv :: "node_id list \<Rightarrow> cluster \<Rightarrow> bool" where
  "wire_inv vs c \<longleftrightarrow>
     (\<forall>j req. VoteReq j req \<in> wire c \<longrightarrow> vq_candidate_id req \<in> set vs) \<and>
     (\<forall>k j resp. VoteResp k j resp \<in> wire c \<longrightarrow> vp_vote_granted resp \<longrightarrow>
        (k, vp_term resp, j) \<in> votes_cast c)"

definition elected_inv :: "node_id list \<Rightarrow> cluster \<Rightarrow> bool" where
  "elected_inv vs c \<longleftrightarrow> (\<forall>i t. (i, t) \<in> elected c \<longrightarrow>
     (\<exists>Q. majority vs Q \<and> (\<forall>k \<in> Q. (k, t, i) \<in> votes_cast c)))"

definition cluster_inv :: "node_id list \<Rightarrow> cluster \<Rightarrow> bool" where
  "cluster_inv vs c \<longleftrightarrow>
     (\<forall>i \<in> set vs. node_inv vs c i) \<and> wire_inv vs c \<and> elected_inv vs c"

section \<open>The invariant holds in every run\<close>

lemma handle_votes_within:
  assumes "handle ev s = Done (s', r)" and "votes_within vs s" and "self_id s \<in> set vs"
    and "\<And>req. ev = RequestVote req \<Longrightarrow> vq_candidate_id req \<in> set vs"
  shows "votes_within vs s'"
  using handle_voted [OF assms(1)] assms(2-4) by (auto simp: votes_within_def)

lemma disk_within_persist:
  assumes "handle ev s = Done (s', r)" and "votes_within vs s'" and "list_all storable_id vs"
    and "disk_within vs st"
  shows "disk_within vs (persist r st)"
proof (cases "to_save r")
  case None
  with assms(4) show ?thesis by (simp add: persist_def)
next
  case (Some h)
  then have "h = hard_state s'" using assms(1) by (auto dest: handle_saved)
  with Some votes_within_storable [OF assms(2,3)] assms(2) show ?thesis
    by (auto simp: persist_def hard_state_cell.get_put disk_within_def votes_within_def
        hard_state_def)
qed

lemma cluster_inv_init:
  assumes "distinct vs"
  shows "cluster_inv vs (cluster_init vs)"
proof -
  have "node_inv vs (cluster_init vs) i" if "i \<in> set vs" for i
    using assms that boot_voters_keys [of "[]" vs i 0] boot_voters_wf [of "[]" i 0 vs]
    by (auto simp: node_inv_def cluster_init_def fresh_node_def boot_raft_def raft_wf_def
        hm_contains_iff votes_within_def disk_within_def durable_def load_state_def ballots_of_def)
  then show ?thesis
    by (simp add: cluster_inv_def wire_inv_def elected_inv_def cluster_init_def)
qed

text \<open>What a delivery changes, by name.\<close>

definition delivered :: "node_id \<Rightarrow> event \<Rightarrow> raft \<Rightarrow> error + effect option \<Rightarrow> cluster \<Rightarrow> cluster" where
  "delivered i ev s' r c = c
     \<lparr>nodes := (nodes c)(i := s'),
      disks := (disks c)(i := persist r (disks c i)),
      wire := wire c \<union> sends i r,
      votes_cast := votes_cast c \<union> (\<lambda>(t, a). (i, t, a)) ` ballots (ev, r),
      elected := elected c \<union> (if role s' = Leader then {(i, current_term s')} else {})\<rparr>"

lemma cluster_exec_Deliver:
  "cluster_exec vs (Deliver i ev) c = Some c' \<longleftrightarrow> i \<in> set vs \<and> on_wire i ev c \<and>
     (\<exists>s' r. handle ev (nodes c i) = Done (s', r) \<and> c' = delivered i ev s' r c)"
  by (auto simp: delivered_def split: outcome.splits)

lemma delivered_simps [simp]:
  "nodes (delivered i ev s' r c) = (nodes c)(i := s')"
  "disks (delivered i ev s' r c) = (disks c)(i := persist r (disks c i))"
  "wire (delivered i ev s' r c) = wire c \<union> sends i r"
  "elected (delivered i ev s' r c) =
     elected c \<union> (if role s' = Leader then {(i, current_term s')} else {})"
  "(k, t, a) \<in> votes_cast (delivered i ev s' r c) \<longleftrightarrow>
     (k, t, a) \<in> votes_cast c \<or> k = i \<and> (t, a) \<in> ballots (ev, r)"
  by (auto simp: delivered_def)

lemma ballots_of_delivered:
  "ballots_of (delivered i ev s' r c) j =
     (if j = i then ballots_of c i \<union> ballots (ev, r) else ballots_of c j)"
  by (auto simp: ballots_of_def)

lemma wire_inv_delivered:
  assumes "wire_inv vs c" and h: "handle ev (nodes c i) = Done (s', r)"
    and "self_id (nodes c i) \<in> set vs"
  shows "wire_inv vs (delivered i ev s' r c)"
  using assms(1,3) handle_sends_request [OF h, of _ _ i] sends_grant [of _ _ _ i r ev]
  unfolding wire_inv_def by (auto 0 4)

text \<open>Every vote a candidate counts was cast for it, the one that just arrived included.\<close>

lemma granted_were_cast:
  assumes ni: "node_inv vs c i" and wi: "wire_inv vs c" and "on_wire i ev c"
    and h: "handle ev (nodes c i) = Done (s', r)" and "\<not> newer_term_mismatch ev (nodes c i)"
    and "role s' = Candidate \<or> role s' = Leader \<and> role (nodes c i) \<noteq> Leader"
    and k: "k \<in> granted_votes s'"
  shows "(k, current_term s', i) \<in> votes_cast (delivered i ev s' r c)"
proof -
  have arrived: "(rv_from vr, vp_term (rv_response vr), i) \<in> votes_cast c"
    if "ev = VoteResponse vr" and "vp_vote_granted (rv_response vr)" for vr
    using that wi assms(3) by (auto simp: on_wire_def wire_inv_def)
  have counted: "(k, current_term (nodes c i), i) \<in> votes_cast c"
    if "role (nodes c i) = Candidate" and "k \<in> granted_votes (nodes c i)" for k
    using that ni by (simp add: node_inv_def)
  have me: "self_id (nodes c i) = i" using ni by (simp add: node_inv_def)
  show ?thesis
    using assms(6)
  proof
    assume cand: "role s' = Candidate"
    from handle_candidate [OF h cand assms(5)] me show ?thesis
      using arrived counted k by fastforce
  next
    assume lead: "role s' = Leader \<and> role (nodes c i) \<noteq> Leader"
    with handle_becomes_leader [OF h] show ?thesis
      using arrived counted k by fastforce
  qed
qed

lemma node_inv_delivered:
  assumes ni: "node_inv vs c i" and wi: "wire_inv vs c" and on: "on_wire i ev c"
    and h: "handle ev (nodes c i) = Done (s', r)" and clean: "\<not> newer_term_mismatch ev (nodes c i)"
    and vs: "list_all storable_id vs" and i: "i \<in> set vs"
  shows "node_inv vs (delivered i ev s' r c) i"
proof -
  have "vq_candidate_id req \<in> set vs" if "ev = RequestVote req" for req
    using that on wi by (auto simp: on_wire_def wire_inv_def)
  then have within: "votes_within vs s'"
    using handle_votes_within [OF h] ni i by (auto simp: node_inv_def)
  then have "durable (ballots_of c i \<union> ballots (ev, r)) s' (persist r (disks c i))"
    using durable_step [OF _ h clean] votes_within_storable vs ni by (auto simp: node_inv_def)
  moreover have "disk_within vs (persist r (disks c i))"
    using disk_within_persist [OF h within vs] ni by (simp add: node_inv_def)
  moreover have "(k, current_term s', i) \<in> votes_cast (delivered i ev s' r c)"
    if "role s' = Candidate" and "k \<in> granted_votes s'" for k
    using granted_were_cast [OF ni wi on h clean] that by blast
  ultimately show ?thesis
    using within handle_wf [OF h] handle_membership [OF h] ni
    unfolding node_inv_def by (simp add: ballots_of_delivered)
qed

lemma node_inv_other:
  "node_inv vs c j \<Longrightarrow> j \<noteq> i \<Longrightarrow> node_inv vs (delivered i ev s' r c) j"
  by (simp add: node_inv_def ballots_of_delivered)

lemma elected_inv_delivered:
  assumes ei: "elected_inv vs c" and ni: "node_inv vs c i" and wi: "wire_inv vs c"
    and on: "on_wire i ev c" and h: "handle ev (nodes c i) = Done (s', r)"
    and clean: "\<not> newer_term_mismatch ev (nodes c i)"
  shows "elected_inv vs (delivered i ev s' r c)"
  unfolding elected_inv_def
proof (intro allI impI)
  fix j t assume e: "(j, t) \<in> elected (delivered i ev s' r c)"
  show "\<exists>Q. majority vs Q \<and> (\<forall>k \<in> Q. (k, t, j) \<in> votes_cast (delivered i ev s' r c))"
  proof (cases "(j, t) \<in> elected c")
    case True
    with ei show ?thesis unfolding elected_inv_def by (meson delivered_simps(5))
  next
    case False
    with e have jt: "j = i" "t = current_term s'" and lead: "role s' = Leader"
      by (auto split: if_splits)
    have old: "role (nodes c i) \<noteq> Leader"
      using handle_leads [OF h lead clean] ni False jt by (auto simp: node_inv_def)
    have "length vs div 2 < card (granted_votes s')" and "granted_votes s' \<subseteq> set vs"
      using handle_becomes_leader [OF h old lead] handle_wf [OF h] handle_membership [OF h] ni
      by (auto simp: node_inv_def raft_wf_def simp flip: length_hm_keys)
    then have "majority vs (granted_votes s')" by (simp add: majority_def)
    then show ?thesis
      using granted_were_cast [OF ni wi on h clean] lead old jt by blast
  qed
qed

lemma restarted_inv:
  assumes "cluster_inv vs c" and "distinct vs" and load: "load_state (disks c i) = Done h"
    and new: "raft_new i vs n h = Done s"
  shows "cluster_inv vs (c\<lparr>nodes := (nodes c)(i := s)\<rparr>)"
proof -
  have i: "i \<in> set vs" using new by (rule raft_new_Done)
  have s: "self_id s = i" "role s = Follower" "granted_votes s = {}"
    "hard_state s = h" "voted_for s = hs_voted_for h" "hm_keys (voters s) = vs"
    using raft_new_fields [OF new] boot_voters_keys [of "[]" vs i n] assms(2) by simp_all
  have ni: "node_inv vs c i" using assms(1) i by (simp add: cluster_inv_def)
  then have "durable (ballots_of c i) s (disks c i)" "votes_within vs s"
    using s load durable_restart by (auto simp: node_inv_def disk_within_def votes_within_def)
  then have "node_inv vs (c\<lparr>nodes := (nodes c)(i := s)\<rparr>) i"
    using ni s raft_new_wf [OF new] by (simp add: node_inv_def ballots_of_def)
  then show ?thesis
    using assms(1)
    by (auto simp: cluster_inv_def node_inv_def wire_inv_def elected_inv_def ballots_of_def)
qed

lemma cluster_inv_step:
  assumes step: "clean_step vs c l c'" and inv: "cluster_inv vs c"
    and "distinct vs" and vs: "list_all storable_id vs"
  shows "cluster_inv vs c'"
proof (cases l)
  case (Deliver i ev)
  with step obtain s' r where i: "i \<in> set vs" "on_wire i ev c"
    and h: "handle ev (nodes c i) = Done (s', r)" and c': "c' = delivered i ev s' r c"
    and clean: "\<not> newer_term_mismatch ev (nodes c i)"
    by (auto simp: clean_step_def cluster_exec_Deliver simp del: cluster_exec.simps)
  have ni: "node_inv vs c i" and wi: "wire_inv vs c" and ei: "elected_inv vs c"
    using inv i by (auto simp: cluster_inv_def)
  have "node_inv vs c' j" if "j \<in> set vs" for j
    using node_inv_delivered [OF ni wi i(2) h clean vs i(1)] node_inv_other that inv c'
    by (cases "j = i") (auto simp: cluster_inv_def)
  moreover have "wire_inv vs c'"
    using wire_inv_delivered [OF wi h] ni i c' by (simp add: node_inv_def)
  ultimately show ?thesis
    using elected_inv_delivered [OF ei ni wi i(2) h clean] c' by (simp add: cluster_inv_def)
next
  case (Restart i n)
  with step obtain h s where "load_state (disks c i) = Done h" "raft_new i vs n h = Done s"
    "c' = c\<lparr>nodes := (nodes c)(i := s)\<rparr>"
    by (auto simp: clean_step_def split: outcome.splits)
  with restarted_inv [OF inv assms(3)] show ?thesis by simp
qed

interpretation clean_cluster: step_invariant "clean_step vs"
  "\<lambda>c. distinct vs \<and> list_all storable_id vs \<and> cluster_inv vs c" for vs
  by unfold_locales (auto intro: cluster_inv_step)

section \<open>Elections are safe without the mismatch branch\<close>

lemma votes_unique:
  assumes "cluster_inv vs c" and "k \<in> set vs"
    and "(k, t, a) \<in> votes_cast c" and "(k, t, b) \<in> votes_cast c"
  shows "a = b"
  using assms by (auto simp: cluster_inv_def node_inv_def durable_def ballots_of_def)

lemma elected_unique:
  assumes inv: "cluster_inv vs c" and "(i, t) \<in> elected c" and "(j, t) \<in> elected c"
  shows "i = j"
proof -
  from assms obtain A B where A: "majority vs A" "\<forall>k \<in> A. (k, t, i) \<in> votes_cast c"
    and B: "majority vs B" "\<forall>k \<in> B. (k, t, j) \<in> votes_cast c"
    unfolding cluster_inv_def elected_inv_def by meson
  show ?thesis
    by (rule voter_majority.unique_choice
          [OF A(1) B(1), where P = "\<lambda>k a. k \<in> set vs \<and> (k, t, a) \<in> votes_cast c"])
      (use A B votes_unique [OF inv] in \<open>auto simp: majority_def\<close>)
qed

end
