(* ===== verification/Raft_Election.thy ===== *)
theory Raft_Election
  imports Raft_Cluster
begin

text \<open>
  The two election properties of a cluster: what holds on every run that avoids the
  mismatch branch, restarts and lost, repeated or reordered votes included, and how that branch
  gives two leaders of one term, with a run from the start that gets there.
\<close>

section \<open>Runs by evaluation\<close>

definition cluster_step :: "node_id list \<Rightarrow> cluster \<Rightarrow> cluster_label \<Rightarrow> cluster \<Rightarrow> bool" where
  "cluster_step vs c l c' \<longleftrightarrow> cluster_exec vs l c = Some c'"

fun cluster_run :: "node_id list \<Rightarrow> cluster_label list \<Rightarrow> cluster \<Rightarrow> cluster option" where
  "cluster_run vs [] c = Some c"
| "cluster_run vs (l # ls) c = Option.bind (cluster_exec vs l c) (cluster_run vs ls)"

lemma cluster_run_steps:
  "cluster_run vs ls c = Some c' \<Longrightarrow> steps (cluster_step vs) c ls c'"
  by (induction ls arbitrary: c)
    (auto simp: steps_cons_iff cluster_step_def Option.bind_eq_Some_conv)

section \<open>A run of three nodes\<close>

abbreviation a_id :: node_id where "a_id \<equiv> NodeId ''a''"
abbreviation b_id :: node_id where "b_id \<equiv> NodeId ''b''"
abbreviation c_id :: node_id where "c_id \<equiv> NodeId ''c''"

abbreviation abc :: "node_id list" where "abc \<equiv> [a_id, b_id, c_id]"

definition bid_for :: "node_id \<Rightarrow> u64 \<Rightarrow> vote_request" where
  "bid_for n t = \<lparr>vq_term = t, vq_candidate_id = n, vq_last_log_index = 0, vq_last_log_term = 0\<rparr>"

definition vote_of :: "node_id \<Rightarrow> u64 \<Rightarrow> received_vote_response" where
  "vote_of n t = \<lparr>rv_from = n, rv_response = \<lparr>vp_term = t, vp_vote_granted = True\<rparr>\<rparr>"

definition elect_a :: "cluster_label list" where
  "elect_a = [Deliver a_id ElectionTimeout, Deliver b_id (RequestVote (bid_for a_id 1)),
              Deliver a_id (VoteResponse (vote_of b_id 1))]"

lemmas exec_simps = step_simps bid_for_def vote_of_def leader_heartbeat_def other_voters_def
  candidate_log_is_up_to_date_def on_wire_def hm_contains_def hm_keys_def hard_state_def

lemma add_w_small: "add_w 0 1 = Done (1 :: u64)" "add_w 1 1 = Done (2 :: u64)"
  by (simp_all add: add_w_def checked_add_def)

definition node_at :: "node_id \<Rightarrow> raft" where
  "node_at i = boot_raft i (map (\<lambda>v. (v, boot_progress i 0 v)) abc)
     \<lparr>hs_current_term = 0, hs_voted_for = None\<rparr>"

lemma fresh_abc: "fresh_node abc = node_at"
  by (rule ext) (simp add: fresh_node_def node_at_def hm_insert_def)

lemmas run_simps = exec_simps node_at_def boot_raft_def add_w_small

lemma elect_a_run:
  "\<exists>c. cluster_run abc elect_a (cluster_init abc) = Some c \<and> (a_id, 1) \<in> elected c"
  unfolding cluster_init_def fresh_abc
  by (simp add: elect_a_def run_simps)

text \<open>A run without append requests never takes the mismatch branch.\<close>

fun is_append :: "cluster_label \<Rightarrow> bool" where
  "is_append (Deliver i (AppendEntries rcv)) = True"
| "is_append _ = False"

lemma clean_run:
  "cluster_run vs ls c = Some c' \<Longrightarrow> list_all (\<lambda>l. \<not> is_append l) ls \<Longrightarrow>
   steps (clean_step vs) c ls c'"
proof (induction ls arbitrary: c)
  case Nil
  then show ?case by simp
next
  case (Cons l ls)
  then obtain d where d: "cluster_exec vs l c = Some d" and "cluster_run vs ls d = Some c'"
    by (auto simp: Option.bind_eq_Some_conv)
  moreover have "clean_step vs c l d"
    using d Cons.prems(2)
    by (cases l rule: is_append.cases)
      (auto simp: clean_step_def newer_term_mismatch_def simp del: cluster_exec.simps)
  ultimately show ?case
    using Cons by (auto simp: steps_cons_iff)
qed

section \<open>Properties\<close>

text \<open>
  C1. Election safety. In a cluster whose nodes start on empty files, save the hard state
  before sending and restart from their files at any time, with vote messages lost,
  repeated or reordered and every other event arbitrary, no two nodes are ever leader in
  the same term, on every run in which no append request of a newer term fails its
  previous-entry check.\<close>

theorem election_safety:
  assumes "distinct vs" and "list_all storable_id vs"
    and "steps (clean_step vs) (cluster_init vs) ls c"
    and "(i, t) \<in> elected c" and "(j, t) \<in> elected c"
  shows "i = j"
  using clean_cluster.inv_steps [OF assms(3)] assms(1,2) cluster_inv_init [OF assms(1)]
    elected_unique [OF _ assms(4,5)] by blast

theorem election_safety_witness:
  "\<exists>c. steps (clean_step abc) (cluster_init abc) elect_a c \<and> {i. (i, 1) \<in> elected c} = {a_id}"
proof -
  obtain c where run: "cluster_run abc elect_a (cluster_init abc) = Some c"
    and a: "(a_id, 1) \<in> elected c"
    using elect_a_run by blast
  have st: "steps (clean_step abc) (cluster_init abc) elect_a c"
    using run by (rule clean_run) (simp add: elect_a_def)
  have ids: "list_all storable_id abc"
    by (simp add: storable_id_def state_storable_def state_ok_def vote_bytes_def as_bytes_def)
  have dist: "distinct abc" by simp
  have "i = a_id" if "(i, 1) \<in> elected c" for i
    by (rule election_safety [OF dist ids st that a])
  with st a show ?thesis by blast
qed

section \<open>Two leaders of one term\<close>

text \<open>
  The request a leader makes of a replication target. The executor that would send it, and fill
  in the term of the previous entry, is not written in the source, so that term is left open.
\<close>

definition request_to :: "raft \<Rightarrow> replication_target \<Rightarrow> u64 \<Rightarrow> append_entries_request" where
  "request_to s tg t =
     \<lparr>aq_term = current_term s, aq_leader_id = tg_leader_id tg, aq_prev_log_index = tg_last_log_index tg,
      aq_prev_log_term = t, aq_commit_index = tg_leader_commit_index tg\<rparr>"

lemma leader_appends:
  assumes "handle (LocalEntriesAppended en) s = Done (s', Inr (Some (SendAppendEntries op tgs)))"
  shows "role s' = Leader \<and> current_term s' = current_term s"
  using assms by (auto simp: step_simps split: if_splits)

lemma mismatch_keeps_role:
  assumes "current_term s < aq_term req" and "last_log_index s < aq_prev_log_index req"
  shows "\<exists>s' r. handle (AppendEntries \<lparr>ra_operation_id = op, ra_request = req, ra_local_prev_log_term = l\<rparr>) s =
    Done (s', r) \<and> role s' = role s \<and> current_term s' = aq_term req \<and> voted_for s' = voted_for s"
  using assms by (auto simp: step_simps)

text \<open>
  C28. The branch that \<open>election_safety\<close> excludes breaks it, in any cluster and for any terms: let a
  lead an older and b a newer term, and let b, on an entry of its own, aim a request at a behind an
  entry that b has recorded for a and a's log no longer reaches. Once a has received that request
  it leads b's term beside b: it takes over the term and keeps the leader's role and its vote. (A
  log is shorter than was recorded after any restart, which does not restore the last index.)\<close>

theorem mismatched_append_gives_two_leaders:
  assumes "a \<in> set vs" and "b \<in> set vs" and "a \<noteq> b" and "role (nodes c a) = Leader"
    and "current_term (nodes c a) < current_term (nodes c b)"
    and "handle (LocalEntriesAppended en) (nodes c b) = Done (s, Inr (Some (SendAppendEntries op tgs)))"
    and "tg \<in> set tgs" and "tg_peer tg = a" and "last_log_index (nodes c a) < tg_last_log_index tg"
  shows "\<exists>c'. steps (cluster_step vs) c [Deliver b (LocalEntriesAppended en), Deliver a (AppendEntries
        \<lparr>ra_operation_id = op', ra_request = request_to s tg t, ra_local_prev_log_term = l\<rparr>)] c' \<and>
    role (nodes c' a) = Leader \<and> role (nodes c' b) = Leader \<and>
    current_term (nodes c' a) = current_term (nodes c b) \<and> current_term (nodes c' b) = current_term (nodes c b) \<and>
    voted_for (nodes c' a) = voted_for (nodes c a) \<and> {(a, current_term (nodes c b)), (b, current_term (nodes c b))} \<subseteq> elected c'"
proof -
  let ?ev = "LocalEntriesAppended en" and ?req = "request_to s tg t"
  let ?c1 = "delivered b ?ev s (Inr (Some (SendAppendEntries op tgs))) c"
  have s: "role s = Leader" "current_term s = current_term (nodes c b)" using leader_appends [OF assms(6)] by simp_all
  obtain s' r where s': "handle (AppendEntries \<lparr>ra_operation_id = op', ra_request = ?req, ra_local_prev_log_term = l\<rparr>)
      (nodes ?c1 a) = Done (s', r)" "role s' = Leader" "current_term s' = current_term (nodes c b)"
      "voted_for s' = voted_for (nodes c a)"
    using mismatch_keeps_role [of "nodes c a" ?req op' l] assms(3-5,9) s by (auto simp: request_to_def)
  have "cluster_step vs c (Deliver b ?ev) ?c1"
    using assms(2,6) unfolding cluster_step_def cluster_exec_Deliver by (auto simp: on_wire_def)
  moreover have "cluster_step vs ?c1 (Deliver a (AppendEntries
      \<lparr>ra_operation_id = op', ra_request = ?req, ra_local_prev_log_term = l\<rparr>)) (delivered a (AppendEntries
      \<lparr>ra_operation_id = op', ra_request = ?req, ra_local_prev_log_term = l\<rparr>) s' r ?c1)"
    using assms(1) s'(1) unfolding cluster_step_def cluster_exec_Deliver by (auto simp: on_wire_def)
  ultimately show ?thesis
    using s s' assms(3) by (intro exI) (auto simp: steps_cons_iff simp del: steps.simps)
qed

text \<open>
  A run from the start of three nodes into such a state. Node b leads term 1 and has an entry
  acknowledged by a; a restarts, which forgets its last index, and wins term 2 with the vote of
  c; b stands twice and wins term 3, with the vote of c again, which it gets by its longer log.
\<close>

definition bid_of :: "node_id \<Rightarrow> u64 \<Rightarrow> u64 \<Rightarrow> u64 \<Rightarrow> vote_request" where
  "bid_of n t i it = \<lparr>vq_term = t, vq_candidate_id = n, vq_last_log_index = i, vq_last_log_term = it\<rparr>"

definition entry_at :: "u64 \<Rightarrow> u64 \<Rightarrow> local_entry" where
  "entry_at i t = \<lparr>le_operation_id = OperationId i, le_index = i, le_term = t\<rparr>"

definition first_term :: "cluster_label list" where
  "first_term = [Deliver b_id ElectionTimeout, Deliver a_id (RequestVote (bid_of b_id 1 0 0)),
     Deliver b_id (VoteResponse (vote_of a_id 1)), Deliver b_id (LocalEntriesAppended (entry_at 1 1)),
     Deliver a_id (AppendEntries \<lparr>ra_operation_id = OperationId 1, ra_request = \<lparr>aq_term = 1, aq_leader_id = b_id,
       aq_prev_log_index = 0, aq_prev_log_term = 0, aq_commit_index = 0\<rparr>, ra_local_prev_log_term = None\<rparr>),
     Deliver a_id (EntriesPersisted \<lparr>pe_operation_id = OperationId 1, pe_last_log_index = 1,
       pe_last_log_term = 1, pe_leader_commit_index = 0\<rparr>),
     Deliver b_id (AppendEntriesResponse \<lparr>rr_operation_id = OperationId 1, rr_from = a_id,
       rr_response = \<lparr>ap_term = 1, ap_success = True, ap_last_log_index = 1, ap_last_log_term = 1,
         ap_leader_id = Some b_id\<rparr>\<rparr>)]"

definition later_terms :: "cluster_label list" where
  "later_terms = [Restart a_id 2, Deliver a_id ElectionTimeout, Deliver c_id (RequestVote (bid_of a_id 2 0 0)),
     Deliver a_id (VoteResponse (vote_of c_id 2)), Deliver b_id ElectionTimeout, Deliver b_id ElectionTimeout,
     Deliver c_id (RequestVote (bid_of b_id 3 1 1)), Deliver b_id (VoteResponse (vote_of c_id 3))]"

lemma persist_nothing [simp]: "to_save r = None \<Longrightarrow> persist r st = st"
  by (simp add: persist_def)

lemma load_persisted: "to_save r = Some h \<Longrightarrow> state_storable h \<Longrightarrow> load_state (persist r st) = Done h"
  by (simp add: persist_def hard_state_cell.get_put)

lemma add_w_2: "add_w 2 1 = Done (3 :: u64)"
  by (simp add: add_w_def checked_add_def)

lemma storable_abc: "state_storable \<lparr>hs_current_term = t, hs_voted_for = Some b_id\<rparr>"
  by (simp add: state_storable_def state_ok_def vote_bytes_def as_bytes_def)

lemma two_leaders_near:
  "\<exists>c s op tgs tg. cluster_run abc (first_term @ later_terms) (cluster_init abc) = Some c \<and>
     role (nodes c a_id) = Leader \<and> current_term (nodes c a_id) = 2 \<and> current_term (nodes c b_id) = 3 \<and>
     handle (LocalEntriesAppended (entry_at 2 3)) (nodes c b_id) = Done (s, Inr (Some (SendAppendEntries op tgs))) \<and>
     tg \<in> set tgs \<and> tg_peer tg = a_id \<and> last_log_index (nodes c a_id) < tg_last_log_index tg"
  unfolding cluster_init_def fresh_abc
  by (simp add: first_term_def later_terms_def entry_at_def bid_of_def run_simps add_w_2 load_persisted
      storable_abc raft_new_def hm_insert_def hm_modify_def boot_progress_def replication_targets_def caught_up_def conj_disj_distribR ex_disj_distrib)

theorem mismatched_append_gives_two_leaders_witness:
  "\<exists>ls c. steps (cluster_step abc) (cluster_init abc) (first_term @ later_terms @ ls) c \<and>
     role (nodes c a_id) = Leader \<and> role (nodes c b_id) = Leader \<and> {(a_id, 3), (b_id, 3)} \<subseteq> elected c"
proof -
  obtain c s op tgs tg where c: "cluster_run abc (first_term @ later_terms) (cluster_init abc) = Some c"
    "role (nodes c a_id) = Leader" "current_term (nodes c a_id) < current_term (nodes c b_id)"
    "handle (LocalEntriesAppended (entry_at 2 3)) (nodes c b_id) = Done (s, Inr (Some (SendAppendEntries op tgs)))"
    "tg \<in> set tgs" "tg_peer tg = a_id" "last_log_index (nodes c a_id) < tg_last_log_index tg"
    and T: "current_term (nodes c b_id) = 3"
    using two_leaders_near by (auto simp: word_less_nat_alt)
  have "a_id \<in> set abc" "b_id \<in> set abc" "a_id \<noteq> b_id" by simp_all
  from mismatched_append_gives_two_leaders [OF this c(2-7)] obtain ls c' where
    last: "steps (cluster_step abc) c ls c'" "role (nodes c' a_id) = Leader" "role (nodes c' b_id) = Leader"
      "{(a_id, 3), (b_id, 3)} \<subseteq> elected c'"
    unfolding T by blast
  from cluster_run_steps [OF c(1)] last(1) have "steps (cluster_step abc) (cluster_init abc) (first_term @ later_terms @ ls) c'"
    by (subst append_assoc [symmetric]) (auto simp only: steps_append)
  with last show ?thesis by blast
qed

end
