(* ===== verification/Log_Store.thy ===== *)
theory Log_Store
  imports Bytes
begin

text \<open>
  The record file of a segment, \<^verbatim>\<open>src/log/store.rs\<close>: length-prefixed records appended through a
  \<^verbatim>\<open>BufWriter\<close> to a file opened for appending. The state keeps the bytes the operating system
  has and the bytes still in the writer's buffer apart, since a process that stops loses the
  second. System calls are answered by an environment that may fail each of them and may
  accept only part of a direct write, which \<^verbatim>\<open>write\<close> (unlike \<^verbatim>\<open>write_all\<close>) does not repeat.
\<close>

section \<open>The environment of the log\<close>

datatype sys_call =
    OpenFile string | StatFile | CloneFile | FlushWriter | DirectWrite | SyncData
  | SetLenIndex | MapIndex | FlushMap | SyncAllIndex | ReadDir | ReadName string
  | RemoveFile string

text \<open>
  A fault is the error of a call and the number of bytes written before it. \<open>env_accept\<close>
  bounds the bytes one direct write takes; \<open>env_page\<close> is the size of a memory page.
\<close>

record log_env =
  env_fault :: "sys_call \<Rightarrow> (io_error \<times> nat) option"
  env_accept :: "nat \<Rightarrow> nat"
  env_page :: nat

text \<open>The answer of a call without data.\<close>

definition sys :: "log_env \<Rightarrow> sys_call \<Rightarrow> unit io_result" where
  "sys env c = (case env_fault env c of Some (e, k) \<Rightarrow> Inl e | None \<Rightarrow> Inr ())"

text \<open>A call that changes nothing the model keeps: its error ends the operation.\<close>

definition check_sys :: "log_env \<Rightarrow> sys_call \<Rightarrow> 's \<Rightarrow> ('s \<times> unit io_result) outcome" where
  "check_sys env c s = Done (s, sys env c)"

section \<open>The store\<close>

record store =
  so_size :: u64
  so_file :: filedata
  so_buf :: "byte list"
  so_sync :: bool

definition store_new :: "log_env \<Rightarrow> filedata \<Rightarrow> bool \<Rightarrow> io_error + store" where
  "store_new env f sync =
     (case (sys env StatFile, sys env CloneFile) of
        (Inl e, _) \<Rightarrow> Inl e
      | (_, Inl e) \<Rightarrow> Inl e
      | _ \<Rightarrow> Inr \<lparr>so_size = word_of_nat (length f), so_file = f, so_buf = [], so_sync = sync\<rparr>)"

text \<open>\<^verbatim>\<open>BufWriter\<close> with its default capacity.\<close>

definition buf_capacity :: nat where
  "buf_capacity = 8192"

definition spare :: "store \<Rightarrow> nat" where
  "spare st = buf_capacity - length (so_buf st)"

definition bw_flush :: "log_env \<Rightarrow> store \<Rightarrow> (store \<times> unit io_result) outcome" where
  "bw_flush env st =
     (if so_buf st = [] then Done (st, Inr ())
      else case env_fault env FlushWriter of
        Some (e, k) \<Rightarrow>
          Done (st\<lparr>so_file := so_file st @ take k (so_buf st), so_buf := drop k (so_buf st)\<rparr>, Inl e)
      | None \<Rightarrow> Done (st\<lparr>so_file := so_file st @ so_buf st, so_buf := []\<rparr>, Inr ()))"

definition bw_make_room :: "log_env \<Rightarrow> nat \<Rightarrow> store \<Rightarrow> (store \<times> unit io_result) outcome" where
  "bw_make_room env n st = (if n > spare st then bw_flush env st else Done (st, Inr ()))"

definition bw_copy :: "byte list \<Rightarrow> store \<Rightarrow> store" where
  "bw_copy bs st = st\<lparr>so_buf := so_buf st @ bs\<rparr>"

definition bw_write_all :: "log_env \<Rightarrow> byte list \<Rightarrow> store \<Rightarrow> (store \<times> unit io_result) outcome" where
  "bw_write_all env bs st =
     and_then (bw_make_room env (length bs) st) (\<lambda>st _.
       if length bs \<ge> buf_capacity then
         (case env_fault env DirectWrite of
            Some (e, k) \<Rightarrow> Done (st\<lparr>so_file := so_file st @ take k bs\<rparr>, Inl e)
          | None \<Rightarrow> Done (st\<lparr>so_file := so_file st @ bs\<rparr>, Inr ()))
       else Done (bw_copy bs st, Inr ()))"

definition bw_write :: "log_env \<Rightarrow> byte list \<Rightarrow> store \<Rightarrow> (store \<times> nat io_result) outcome" where
  "bw_write env bs st =
     and_then (bw_make_room env (length bs) st) (\<lambda>st _.
       if length bs \<ge> buf_capacity then
         (case env_fault env DirectWrite of
            Some (e, k) \<Rightarrow> Done (st, Inl e)
          | None \<Rightarrow>
              let n = min (env_accept env (length bs)) (length bs)
              in Done (st\<lparr>so_file := so_file st @ take n bs\<rparr>, Inr n))
       else Done (bw_copy bs st, Inr (length bs)))"

definition length_width :: nat where
  "length_width = 8"

definition store_append :: "log_env \<Rightarrow> byte list \<Rightarrow> store \<Rightarrow> (store \<times> u64 io_result) outcome" where
  "store_append env bs st =
     and_then (bw_write_all env (u64_to_be (word_of_nat (length bs))) st) (\<lambda>st _.
     and_then (bw_write env bs st) (\<lambda>st n.
       let written = word_of_nat (n + length_width)
       in obind (add_w (so_size st) written) (\<lambda>size.
            let st = st\<lparr>so_size := size\<rparr>
            in if so_sync st
               then and_then (bw_flush env st) (\<lambda>st _.
                    and_then (check_sys env SyncData st) (\<lambda>st _. Done (st, Inr written)))
               else Done (st, Inr written))))"

definition fill_error :: io_error where
  "fill_error = IoError UnexpectedEof ''failed to fill whole buffer''"

text \<open>A \<^verbatim>\<open>Vec\<close> holds at most \<^verbatim>\<open>isize::MAX\<close> bytes; asking for more panics.\<close>

definition store_read :: "log_env \<Rightarrow> u64 \<Rightarrow> store \<Rightarrow> (store \<times> byte list io_result) outcome" where
  "store_read env pos st =
     and_then (bw_flush env st) (\<lambda>st _.
       case read_exact_at (unat pos) length_width (so_file st) of
         None \<Rightarrow> Done (st, Inl fill_error)
       | Some size_bytes \<Rightarrow>
           let n = unat (u64_from_be size_bytes)
           in if n \<ge> 2 ^ 63 then Panic (ExplicitPanic ''capacity overflow'')
              else obind (add_w pos (word_of_nat length_width)) (\<lambda>start.
                case read_exact_at (unat start) n (so_file st) of
                  None \<Rightarrow> Done (st, Inl fill_error)
                | Some bs \<Rightarrow> Done (st, Inr bs)))"

definition store_len :: "store \<Rightarrow> u64" where
  "store_len st = so_size st"

definition store_close :: "log_env \<Rightarrow> store \<Rightarrow> (store \<times> unit io_result) outcome" where
  "store_close env st =
     and_then (bw_flush env st) (\<lambda>st _. check_sys env SyncData st)"

section \<open>What the store holds\<close>

definition content :: "store \<Rightarrow> byte list" where
  "content st = so_file st @ so_buf st"

lemma content_simps [simp]:
  "content (st\<lparr>so_size := n\<rparr>) = content st"
  "content (st\<lparr>so_file := f, so_buf := []\<rparr>) = f"
  "content (st\<lparr>so_size := n, so_file := f, so_buf := []\<rparr>) = f"
  by (simp_all add: content_def)

definition frame :: "byte list \<Rightarrow> byte list" where
  "frame r = u64_to_be (word_of_nat (length r)) @ r"

definition record_at :: "byte list \<Rightarrow> nat \<Rightarrow> byte list \<Rightarrow> bool" where
  "record_at bs p r \<longleftrightarrow> (\<exists>xs ys. bs = xs @ frame r @ ys \<and> length xs = p) \<and> length r < 2 ^ 63"

definition store_inv :: "store \<Rightarrow> bool" where
  "store_inv st \<longleftrightarrow> unat (so_size st) = length (content st)"

text \<open>An environment in which every call succeeds and takes all its bytes.\<close>

definition calm :: "log_env \<Rightarrow> bool" where
  "calm env \<longleftrightarrow> (\<forall>c. env_fault env c = None) \<and> (\<forall>n. n \<le> env_accept env n) \<and> 0 < env_page env"

lemma calm_simps:
  assumes "calm env"
  shows "env_fault env c = None" and "sys env c = Inr ()" and "min (env_accept env n) n = n"
    and "check_sys env c s = Done (s, Inr ())"
  using assms by (simp_all add: calm_def sys_def check_sys_def)

lemma length_frame [simp]: "length (frame r) = 8 + length r"
  by (simp add: frame_def be64.length_enc)

lemma record_at_append: "record_at bs p r \<Longrightarrow> record_at (bs @ cs) p r"
  by (force simp: record_at_def)

lemma record_at_new: "length r < 2 ^ 63 \<Longrightarrow> record_at (bs @ frame r) (length bs) r"
  by (force simp: record_at_def)

lemma record_at_bound: "record_at bs p r \<Longrightarrow> p + 8 + length r \<le> length bs"
  by (auto simp: record_at_def)

lemma bw_flush_calm:
  "calm env \<Longrightarrow> bw_flush env st = Done (st\<lparr>so_file := content st, so_buf := []\<rparr>, Inr ())"
  by (simp add: bw_flush_def calm_def content_def)

text \<open>No call ever loses or reorders bytes already handed to the store.\<close>

definition extends :: "store \<Rightarrow> store \<Rightarrow> bool" where
  "extends st st' \<longleftrightarrow> so_sync st' = so_sync st \<and>
     (\<exists>bs. content st' = content st @ bs) \<and> (\<exists>bs. so_file st' = so_file st @ bs)"

lemma extends_refl [simp]: "extends st st"
  by (simp add: extends_def)

lemma extends_trans [trans]: "extends a b \<Longrightarrow> extends b c \<Longrightarrow> extends a c"
  by (auto simp: extends_def)

lemma extends_size [simp]:
  "extends st (st'\<lparr>so_size := n\<rparr>) = extends st st'"
  "extends (st\<lparr>so_size := n\<rparr>) st' = extends st st'"
  by (simp_all add: extends_def content_def)

lemma bw_flush_extends: "bw_flush env st = Done (st', r) \<Longrightarrow> extends st st' \<and> content st' = content st"
  by (auto simp: bw_flush_def extends_def content_def split: if_splits option.splits)

lemma bw_flush_empties: "bw_flush env st = Done (st', Inr u) \<Longrightarrow> so_buf st' = []"
  by (auto simp: bw_flush_def split: if_splits option.splits)

lemma bw_copy_extends: "extends st (bw_copy bs st)"
  by (simp add: bw_copy_def extends_def content_def)

lemma bw_make_room_Err:
  "bw_make_room env n st = Done (st', Inl e) \<Longrightarrow> extends st st' \<and> content st' = content st"
  by (auto simp: bw_make_room_def dest: bw_flush_extends split: if_splits)

lemma bw_make_room_Ok:
  assumes "bw_make_room env n st = Done (st', Inr u)"
  shows "extends st st' \<and> content st' = content st \<and> so_size st' = so_size st \<and>
    (buf_capacity \<le> n \<longrightarrow> so_buf st' = [])"
proof (cases "so_buf st")
  case Nil
  with assms show ?thesis
    by (auto simp: bw_make_room_def bw_flush_def split: if_splits)
next
  case (Cons b bs)
  then have "buf_capacity \<le> n \<Longrightarrow> spare st < n" by (simp add: spare_def buf_capacity_def)
  with assms Cons show ?thesis
    by (auto simp: bw_make_room_def bw_flush_def content_def extends_def
        split: if_splits option.splits)
qed

lemma direct_extends:
  "so_buf st = [] \<Longrightarrow> extends st (st\<lparr>so_file := so_file st @ bs\<rparr>)"
  by (simp add: extends_def content_def)

lemma bw_write_all_extends: "bw_write_all env bs st = Done (st', r) \<Longrightarrow> extends st st'"
  unfolding bw_write_all_def and_then_eq_Done
  by (auto dest!: bw_make_room_Err bw_make_room_Ok split: if_splits option.splits
      intro: extends_trans direct_extends bw_copy_extends)

lemma bw_write_extends: "bw_write env bs st = Done (st', r) \<Longrightarrow> extends st st'"
  unfolding bw_write_def and_then_eq_Done
  by (auto simp: Let_def dest!: bw_make_room_Err bw_make_room_Ok
      split: if_splits option.splits intro: extends_trans direct_extends bw_copy_extends)

lemma store_append_extends:
  assumes "store_append env bs st = Done (st', r)"
  shows "extends st st'"
  using assms
  unfolding store_append_def and_then_eq_Done
  by (auto simp: Let_def obind_eq_Done check_sys_def and_then_eq_Done
      dest!: bw_write_all_extends bw_write_extends bw_flush_extends split: if_splits
      intro: extends_trans)

lemma bw_make_room_calm:
  assumes "calm env"
  shows "\<exists>st'. bw_make_room env n st = Done (st', Inr ())"
  using assms by (auto simp: bw_make_room_def bw_flush_calm)

lemma bw_write_all_calm:
  assumes "calm env"
  shows "\<exists>st'. bw_write_all env bs st = Done (st', Inr ()) \<and> content st' = content st @ bs \<and>
    so_size st' = so_size st \<and> so_sync st' = so_sync st"
proof -
  obtain s1 where s1: "bw_make_room env (length bs) st = Done (s1, Inr ())"
    using bw_make_room_calm [OF assms] by blast
  with bw_make_room_Ok [OF s1] assms show ?thesis
    by (auto simp: bw_write_all_def calm_simps bw_copy_def content_def extends_def)
qed

lemma bw_write_calm:
  assumes "calm env"
  shows "\<exists>st'. bw_write env bs st = Done (st', Inr (length bs)) \<and> content st' = content st @ bs \<and>
    so_size st' = so_size st \<and> so_sync st' = so_sync st"
proof -
  obtain s1 where s1: "bw_make_room env (length bs) st = Done (s1, Inr ())"
    using bw_make_room_calm [OF assms] by blast
  with bw_make_room_Ok [OF s1] assms show ?thesis
    by (auto simp: bw_write_def calm_simps bw_copy_def content_def extends_def)
qed

lemma store_append_calm:
  assumes calm: "calm env" and inv: "store_inv st"
    and fits: "length (content st) + 8 + length bs < 2 ^ 64"
  shows "\<exists>st'. store_append env bs st = Done (st', Inr (word_of_nat (8 + length bs))) \<and>
    content st' = content st @ frame bs \<and> store_inv st' \<and> so_sync st' = so_sync st \<and>
    (so_sync st \<longrightarrow> so_buf st' = [])"
proof -
  let ?len = "u64_to_be (word_of_nat (length bs))"
  obtain s1 where s1: "bw_write_all env ?len st = Done (s1, Inr ())" "content s1 = content st @ ?len"
    "so_size s1 = so_size st" "so_sync s1 = so_sync st"
    using bw_write_all_calm [OF calm] by blast
  obtain s2 where s2: "bw_write env bs s1 = Done (s2, Inr (length bs))" "content s2 = content s1 @ bs"
    "so_size s2 = so_size s1" "so_sync s2 = so_sync s1"
    using bw_write_calm [OF calm] by blast
  let ?w = "word_of_nat (length bs + length_width) :: u64"
  have w: "unat ?w = 8 + length bs" using fits
    by (simp add: unat_of_nat length_width_def del: of_nat_add)
  have sz: "unat (so_size st) + unat ?w < 2 ^ LENGTH(64)"
    using inv fits w by (simp add: store_inv_def)
  then have add: "add_w (so_size s2) ?w = Done (so_size st + ?w)"
    using s1 s2 by (simp add: add_w_DoneI)
  have "unat (so_size st + ?w) = length (content st) + 8 + length bs"
    using inv w unat_add_lem' [OF sz] by (simp add: store_inv_def)
  then have size: "unat (so_size st + ?w) = length (content s2)"
    using s1 s2 by (simp add: be64.length_enc)
  let ?s3 = "s2\<lparr>so_size := so_size st + ?w\<rparr>"
  let ?st' = "if so_sync st then ?s3\<lparr>so_file := content s2, so_buf := []\<rparr> else ?s3"
  have "store_append env bs st = Done (?st', Inr ?w)"
    using s1 s2 add calm by (simp add: store_append_def bw_flush_calm calm_simps Let_def)
  moreover have "content ?st' = content st @ frame bs" "store_inv ?st'"
    using s1 s2 size by (simp_all add: store_inv_def frame_def)
  moreover have "?w = word_of_nat (8 + length bs)" by (simp add: length_width_def add.commute)
  ultimately show ?thesis
    using s1 s2 by (intro exI [of _ ?st']) simp
qed

lemma store_read_flushed:
  assumes rec: "record_at (so_file st) (unat pos) r" and buf: "so_buf st = []"
    and size: "length (so_file st) < 2 ^ 64"
  shows "store_read env pos st = Done (st, Inr r)"
proof -
  obtain xs ys where f: "so_file st = xs @ frame r @ ys" and xs: "length xs = unat pos"
    and r: "length r < 2 ^ 63"
    using rec by (auto simp: record_at_def)
  have len: "unat (word_of_nat (length r) :: u64) = length r"
    using r by (simp add: unat_of_nat)
  have small: "unat pos + 8 \<le> length (so_file st)" using f xs by simp
  then have add: "add_w pos 8 = Done (pos + 8)" and start: "unat (pos + 8) = unat pos + 8"
    using size unat_add_lem' [of pos 8] by (simp_all add: add_w_DoneI)
  have "read_exact_at (unat pos) 8 (so_file st) = Some (u64_to_be (word_of_nat (length r)))"
    using xs read_exact_at_append [of xs "unat pos" _ 8 "r @ ys"]
    by (simp add: f frame_def be64.length_enc)
  moreover have "read_exact_at (unat pos + 8) (length r) (so_file st) = Some r"
    using xs read_exact_at_append [of "xs @ u64_to_be (word_of_nat (length r))" _ r _ ys]
    by (simp add: f frame_def be64.length_enc)
  ultimately show ?thesis
    using add start r len buf
    by (simp add: store_read_def bw_flush_def length_width_def be64.dec_enc Let_def)
qed

lemma store_read_calm:
  assumes "calm env" and "record_at (content st) (unat pos) r" and "length (content st) < 2 ^ 64"
  shows "store_read env pos st = Done (st\<lparr>so_file := content st, so_buf := []\<rparr>, Inr r)"
proof -
  let ?st = "st\<lparr>so_file := content st, so_buf := []\<rparr>"
  have "store_read env pos st = store_read env pos ?st"
    using assms(1) by (simp add: store_read_def bw_flush_calm content_def)
  with store_read_flushed [of ?st pos r env] assms show ?thesis by simp
qed

text \<open>A record that fits into the buffer stays there.\<close>

lemma store_append_buffered:
  assumes "\<not> so_sync st" and room: "length (so_buf st) + 8 + length bs < buf_capacity"
    and fits: "unat (so_size st) + 8 + length bs < 2 ^ 64"
  shows "store_append env bs st =
    Done (st\<lparr>so_buf := so_buf st @ frame bs, so_size := so_size st + word_of_nat (8 + length bs)\<rparr>,
      Inr (word_of_nat (8 + length bs)))"
proof -
  let ?w = "word_of_nat (8 + length bs) :: u64"
  have "unat ?w = 8 + length bs" using fits by (simp add: unat_of_nat del: of_nat_add)
  then have add: "add_w (so_size st) ?w = Done (so_size st + ?w)"
    using fits by (intro add_w_DoneI) simp
  have w: "word_of_nat (length bs + length_width) = ?w" by (simp add: length_width_def add.commute)
  let ?len = "u64_to_be (word_of_nat (length bs))"
  have "\<not> spare st < length ?len" "\<not> buf_capacity \<le> length ?len"
    using room by (simp_all add: spare_def be64.length_enc buf_capacity_def)
  then have "bw_write_all env ?len st = Done (bw_copy ?len st, Inr ())"
    by (simp add: bw_write_all_def bw_make_room_def)
  moreover have "\<not> spare (bw_copy ?len st) < length bs" "\<not> buf_capacity \<le> length bs"
    using room by (simp_all add: spare_def bw_copy_def be64.length_enc buf_capacity_def)
  then have "bw_write env bs (bw_copy ?len st) = Done (bw_copy bs (bw_copy ?len st), Inr (length bs))"
    by (simp add: bw_write_def bw_make_room_def)
  ultimately show ?thesis
    using assms(1) add w
    by (simp add: store_append_def bw_copy_def Let_def frame_def del: of_nat_add)
qed

end
