(* ===== verification/Log_Index.thy ===== *)
theory Log_Index
  imports Log_Store
begin

text \<open>
  The index of a segment, \<^verbatim>\<open>src/log/index.rs\<close>: twelve-byte slots (relative offset, position in
  the store) in a memory-mapped file of a fixed length. The mapping is shared, so the file
  always holds the mapped bytes up to its length; a slot beyond the last page of a shrunk
  file is a bus error. \<open>recover_size\<close> finds the end of the slots of a file that was not
  closed.
\<close>

section \<open>The index\<close>

definition off_width :: nat where "off_width = 4"
definition position_width :: nat where "position_width = 8"
definition entire_width :: nat where "entire_width = off_width + position_width"

lemmas width_defs = off_width_def position_width_def entire_width_def

record index =
  ix_mmap :: "byte list"
  ix_size :: u64
  ix_file_len :: nat

definition index_file :: "index \<Rightarrow> filedata" where
  "index_file ix = set_len (ix_file_len ix) (ix_mmap ix)"

function recover_loop :: "byte list \<Rightarrow> nat \<Rightarrow> u32 \<Rightarrow> nat outcome" where
  "recover_loop mmap n expected =
     (if n + entire_width \<le> length mmap then
        let off = u32_from_be (take off_width (drop n mmap))
        in if off \<noteq> expected then Done n
           else case add_w expected 1 of
             Panic p \<Rightarrow> Panic p
           | Done e \<Rightarrow> recover_loop mmap (n + entire_width) e
      else Done n)"
  by pat_completeness auto
termination
  by (relation "measure (\<lambda>(mmap, n, expected). length mmap - n)")
    (auto simp: width_defs)

declare recover_loop.simps [simp del]

definition recover_size :: "byte list \<Rightarrow> u64 outcome" where
  "recover_size mmap = omap word_of_nat (recover_loop mmap 0 0)"

definition index_new :: "log_env \<Rightarrow> filedata \<Rightarrow> u64 \<Rightarrow> (io_error + index) outcome" where
  "index_new env f max_size_bytes =
     (case (sys env StatFile, sys env SetLenIndex) of
        (Inl e, _) \<Rightarrow> Done (Inl e)
      | (_, Inl e) \<Rightarrow> Done (Inl e)
      | _ \<Rightarrow>
          let size = word_of_nat (length f);
              is_new = (size = (0 :: u64));
              mapped = set_len (unat max_size_bytes) f
          in case sys env MapIndex of
               Inl e \<Rightarrow> Panic (ExpectFailed ''called `Result::unwrap()` on an `Err` value'')
             | Inr _ \<Rightarrow>
                 if is_new then
                   Done (Inr \<lparr>ix_mmap = map (\<lambda>_. 0xFF) mapped, ix_size = size,
                              ix_file_len = length mapped\<rparr>)
                 else if size = max_size_bytes then
                   omap (\<lambda>n. Inr \<lparr>ix_mmap = mapped, ix_size = n, ix_file_len = length mapped\<rparr>)
                     (recover_size mapped)
                 else
                   Done (Inr \<lparr>ix_mmap = mapped, ix_size = size, ix_file_len = length mapped\<rparr>))"

text \<open>The first address past the last page that still belongs to the file.\<close>

definition page_end :: "log_env \<Rightarrow> index \<Rightarrow> nat" where
  "page_end env ix =
     (ix_file_len ix + env_page env - 1) div env_page env * env_page env"

definition index_write ::
  "log_env \<Rightarrow> u32 \<Rightarrow> u64 \<Rightarrow> index \<Rightarrow> (index \<times> unit io_result) outcome" where
  "index_write env off pos ix =
     obind (add_w (ix_size ix) (word_of_nat entire_width)) (\<lambda>size.
       if unat size > length (ix_mmap ix)
       then Done (ix, Inl (IoError UnexpectedEof ''index is full''))
       else if unat size > page_end env ix then Panic BusError
       else
         let start = unat (ix_size ix);
             m1 = write_at start (u32_to_be off) (ix_mmap ix);
             m2 = write_at (start + off_width) (u64_to_be pos) m1
         in Done (ix\<lparr>ix_mmap := m2, ix_size := size\<rparr>, Inr ()))"

definition index_read :: "log_env \<Rightarrow> u32 \<Rightarrow> index \<Rightarrow> (u32 \<times> u64) io_result outcome" where
  "index_read env off ix =
     (let start = unat off * entire_width
      in if start + entire_width > unat (ix_size ix)
         then Done (Inl (IoError UnexpectedEof ''offset bigger than index size''))
         else if start + entire_width > length (ix_mmap ix) then Panic IndexOutOfBounds
         else if start + entire_width > page_end env ix then Panic BusError
         else
           let off_bytes = take off_width (drop start (ix_mmap ix));
               pos_start = start + off_width;
               pos_bytes = take position_width (drop pos_start (ix_mmap ix))
           in Done (Inr (u32_from_be off_bytes, u64_from_be pos_bytes)))"

definition index_len :: "index \<Rightarrow> u64" where
  "index_len ix = ix_size ix"

definition current_offset :: "index \<Rightarrow> u64" where
  "current_offset ix = ix_size ix div word_of_nat entire_width"

definition index_close :: "log_env \<Rightarrow> index \<Rightarrow> (index \<times> unit io_result) outcome" where
  "index_close env ix =
     and_then (check_sys env FlushMap ix) (\<lambda>ix _.
     and_then (check_sys env SetLenIndex ix) (\<lambda>ix _.
       check_sys env SyncAllIndex (ix\<lparr>ix_file_len := unat (ix_size ix)\<rparr>)))"

section \<open>The slots\<close>

definition slot :: "nat \<Rightarrow> u64 \<Rightarrow> byte list" where
  "slot i p = u32_to_be (word_of_nat i) @ u64_to_be p"

fun slots :: "nat \<Rightarrow> u64 list \<Rightarrow> byte list" where
  "slots k [] = []"
| "slots k (p # ps) = slot k p @ slots (Suc k) ps"

lemma length_slot [simp]: "length (slot i p) = 12"
  by (simp add: slot_def be32.length_enc be64.length_enc)

lemma length_slots [simp]: "length (slots k ps) = 12 * length ps"
  by (induction ps arbitrary: k) simp_all

lemma slots_append: "slots k (ps @ qs) = slots k ps @ slots (k + length ps) qs"
  by (induction ps arbitrary: k) simp_all

text \<open>Unwritten bytes: the fill of a new file, or the zeros behind the slots of a reopened one.\<close>

definition padding :: "nat \<Rightarrow> byte list \<Rightarrow> bool" where
  "padding n rest \<longleftrightarrow> set rest \<subseteq> {0xFF} \<or> 0 < n \<and> set rest \<subseteq> {0}"

definition slot_limit :: nat where
  "slot_limit = 2 ^ 32 - 1"

definition index_holds :: "u64 list \<Rightarrow> index \<Rightarrow> bool" where
  "index_holds ps ix \<longleftrightarrow>
     unat (ix_size ix) = 12 * length ps \<and> length (ix_mmap ix) < 12 * slot_limit \<and>
     (\<exists>rest. ix_mmap ix = slots 0 ps @ rest \<and> padding (length ps) rest)"

lemma replicate_4: "replicate 4 x = [x, x, x, x]"
  by (simp add: numeral_eq_Suc)

lemma replicate_be_bytes:
  "be_val 0 (replicate 4 (0xFF :: byte)) = 2 ^ 32 - 1" "be_val 0 (replicate 4 (0 :: byte)) = 0"
  by (simp_all add: replicate_4)

lemma padding_take:
  assumes "padding n rest" and "4 \<le> length rest"
  shows "take 4 rest = replicate 4 0xFF \<or> 0 < n \<and> take 4 rest = replicate 4 0"
proof -
  have "set (take 4 rest) \<subseteq> set rest" by (rule set_take_subset)
  with assms show ?thesis
    by (auto simp: padding_def list_eq_iff_nth_eq subset_iff dest: nth_mem)
qed

lemma padding_not_slot:
  assumes "padding n rest" and "4 \<le> length rest" and "n < slot_limit"
  shows "u32_from_be (take 4 rest) \<noteq> word_of_nat n"
proof
  assume "u32_from_be (take 4 rest) = word_of_nat n"
  then have "unat (u32_from_be (take 4 rest)) = n"
    using assms(3) by (simp add: unat_of_nat slot_limit_def)
  with padding_take [OF assms(1,2)] assms(3) show False
    by (auto simp: u32_from_be_def replicate_be_bytes slot_limit_def unat_of_nat)
qed

lemma recover_slots:
  assumes "length pre = 12 * k" and "padding (k + length ps) rest" and "k + length ps < slot_limit"
  shows "recover_loop (pre @ slots k ps @ rest) (12 * k) (word_of_nat k) = Done (12 * (k + length ps))"
  using assms
proof (induction ps arbitrary: k pre)
  case Nil
  show ?case
  proof (cases "12 \<le> length rest")
    case True
    then have "u32_from_be (take 4 rest) \<noteq> word_of_nat k"
      using padding_not_slot [of k rest] Nil.prems by simp
    with True Nil.prems(1) show ?thesis
      by (subst recover_loop.simps) (simp add: width_defs)
  next
    case False
    with Nil.prems(1) show ?thesis
      by (subst recover_loop.simps) (simp add: width_defs)
  qed
next
  case (Cons p ps)
  let ?m = "pre @ slots k (p # ps) @ rest"
  have off: "u32_from_be (take 4 (drop (12 * k) ?m)) = word_of_nat k"
    using Cons.prems(1) by (simp add: slot_def be32.length_enc be32.dec_enc)
  have "unat (word_of_nat k :: u32) = k" "unat (word_of_nat (Suc k) :: u32) = Suc k"
    using Cons.prems(3) by (simp_all add: unat_of_nat slot_limit_def del: of_nat_Suc)
  then have add: "add_w (word_of_nat k :: u32) 1 = Done (word_of_nat (Suc k))"
    by (simp add: add_w_eq_Done del: of_nat_Suc)
  have "recover_loop ?m (12 * k) (word_of_nat k) = recover_loop ?m (12 * Suc k) (word_of_nat (Suc k))"
    using Cons.prems(1) off add
    by (subst recover_loop.simps) (simp add: width_defs add.commute [of "12 * k"] del: of_nat_Suc)
  also have "\<dots> = Done (12 * (k + length (p # ps)))"
    using Cons.IH [of "pre @ slot k p" "Suc k"] Cons.prems by simp
  finally show ?case .
qed

lemma recover_size_slots:
  assumes "padding (length ps) rest" and "length ps < slot_limit"
  shows "recover_size (slots 0 ps @ rest) = Done (word_of_nat (12 * length ps))"
  using recover_slots [of "[]" 0 ps rest] assms by (simp add: recover_size_def)

section \<open>Operations on the slots\<close>

lemma index_holds_count: "index_holds ps ix \<Longrightarrow> length ps < slot_limit"
  by (auto simp: index_holds_def)

lemma page_end_covers:
  assumes "0 < env_page env"
  shows "ix_file_len ix \<le> page_end env ix"
proof -
  let ?n = "ix_file_len ix + env_page env - 1"
  have "?n = page_end env ix + ?n mod env_page env"
    by (simp add: page_end_def)
  moreover have "?n mod env_page env < env_page env"
    using assms by simp
  ultimately show ?thesis using assms by linarith
qed

text \<open>A live index: open, so its file is as long as its mapping.\<close>

definition index_live :: "index \<Rightarrow> bool" where
  "index_live ix \<longleftrightarrow> ix_file_len ix = length (ix_mmap ix)"

lemma index_read_holds:
  assumes "calm env" and "index_holds ps ix" and "index_live ix" and "i < length ps"
  shows "index_read env (word_of_nat i) ix = Done (Inr (word_of_nat i, ps ! i))"
proof -
  obtain rest where m: "ix_mmap ix = slots 0 ps @ rest" and sz: "unat (ix_size ix) = 12 * length ps"
    using assms(2) by (auto simp: index_holds_def)
  have i: "unat (word_of_nat i :: u32) = i"
    using index_holds_count [OF assms(2)] assms(4) by (simp add: unat_of_nat slot_limit_def)
  have "length (ix_mmap ix) \<le> page_end env ix"
    using page_end_covers [of env ix] assms(1,3) by (simp add: calm_def index_live_def)
  moreover have split: "ix_mmap ix = slots 0 (take i ps) @ slot i (ps ! i) @ slots (Suc i) (drop (Suc i) ps) @ rest"
    using m assms(4) slots_append [of 0 "take i ps" "ps ! i # drop (Suc i) ps"]
    by (simp flip: id_take_nth_drop)
  moreover have "length (slots 0 (take i ps)) = 12 * i" using assms(4) by simp
  ultimately show ?thesis
    using assms(4) sz i
    by (simp add: index_read_def width_defs slot_def be32.length_enc be64.length_enc be32.dec_enc
        be64.dec_enc Let_def mult.commute)
qed

lemma index_read_outside:
  assumes "index_holds ps ix" and "length ps \<le> unat off"
  shows "index_read env off ix = Done (Inl (IoError UnexpectedEof ''offset bigger than index size''))"
  using assms by (simp add: index_read_def index_holds_def width_defs Let_def)

lemma index_write_full:
  assumes "index_holds ps ix" and "length (ix_mmap ix) < 12 * length ps + 12"
  shows "index_write env off pos ix = Done (ix, Inl (IoError UnexpectedEof ''index is full''))"
proof -
  have sz: "unat (ix_size ix) = 12 * length ps" and "12 * length ps < 12 * slot_limit"
    using assms(1) by (auto simp: index_holds_def)
  then have "add_w (ix_size ix) 12 = Done (ix_size ix + 12)" "unat (ix_size ix + 12) = 12 * length ps + 12"
    using unat_add_lem' [of "ix_size ix" 12] by (simp_all add: add_w_DoneI slot_limit_def)
  with assms(2) show ?thesis by (simp add: index_write_def width_defs)
qed

lemma index_write_holds:
  assumes "calm env" and holds: "index_holds ps ix" and "index_live ix"
    and room: "12 * length ps + 12 \<le> length (ix_mmap ix)"
  shows "\<exists>ix'. index_write env (word_of_nat (length ps)) pos ix = Done (ix', Inr ()) \<and>
    index_holds (ps @ [pos]) ix' \<and> index_live ix' \<and> length (ix_mmap ix') = length (ix_mmap ix)"
proof -
  obtain rest where m: "ix_mmap ix = slots 0 ps @ rest" and pad: "padding (length ps) rest"
    and sz: "unat (ix_size ix) = 12 * length ps" and lim: "length (ix_mmap ix) < 12 * slot_limit"
    using holds by (auto simp: index_holds_def)
  have add: "add_w (ix_size ix) 12 = Done (ix_size ix + 12)"
    and sum: "unat (ix_size ix + 12) = 12 * length ps + 12"
    using unat_add_lem' [of "ix_size ix" 12] sz lim room by (simp_all add: add_w_DoneI slot_limit_def)
  have page: "length (ix_mmap ix) \<le> page_end env ix"
    using page_end_covers [of env ix] assms(1,3) by (simp add: calm_def index_live_def)
  let ?new = "slots 0 (ps @ [pos]) @ drop 12 rest"
  let ?i = "u32_to_be (word_of_nat (length ps))"
  have "write_at (12 * length ps) ?i (ix_mmap ix) = (slots 0 ps @ ?i) @ drop 4 rest"
    using write_at_append [of "slots 0 ps" _ ?i rest] m by (simp add: be32.length_enc)
  then have new: "write_at (12 * length ps + 4) (u64_to_be pos) (write_at (12 * length ps) ?i (ix_mmap ix)) = ?new"
    using write_at_append [of "slots 0 ps @ ?i" _ "u64_to_be pos" "drop 4 rest"]
    by (simp add: be32.length_enc be64.length_enc slots_append slot_def)
  let ?ix = "ix\<lparr>ix_mmap := ?new, ix_size := ix_size ix + 12\<rparr>"
  have "index_write env (word_of_nat (length ps)) pos ix = Done (?ix, Inr ())"
    using add sum sz room page new by (simp add: index_write_def width_defs Let_def)
  moreover have "padding (length (ps @ [pos])) (drop 12 rest)"
    using pad set_drop_subset [of 12 rest] by (auto simp: padding_def)
  moreover have len: "length ?new = length (ix_mmap ix)" using m room by simp
  ultimately show ?thesis
    using assms(3) sum lim m room
    by (intro exI [of _ ?ix]) (auto simp: index_holds_def index_live_def)
qed

section \<open>Opening and closing\<close>

lemma index_new_on:
  assumes calm: "calm env" and lim: "unat max_size < 12 * slot_limit"
    and pad: "padding (length ps) rest" and len: "12 * length ps + length rest \<le> unat max_size"
    and full: "rest = [] \<or> 12 * length ps + length rest = unat max_size"
  shows "\<exists>ix. index_new env (slots 0 ps @ rest) max_size = Done (Inr ix) \<and>
    index_holds ps ix \<and> index_live ix \<and> length (ix_mmap ix) = unat max_size"
proof -
  let ?f = "slots 0 ps @ rest"
  have sz: "unat (word_of_nat (length ?f) :: u64) = length ?f" (is "unat ?sz = _")
    using len lim by (simp add: unat_of_nat slot_limit_def del: of_nat_add)
  have zero: "?sz = 0 \<longleftrightarrow> ?f = []" and max_iff: "?sz = max_size \<longleftrightarrow> length ?f = unat max_size"
    by (metis sz unat_eq_zero length_0_conv) (metis sz word_unat_eq_iff)
  consider "?f = []" | "?f \<noteq> []" "length ?f = unat max_size" | "?f \<noteq> []" "rest = []" "length ?f < unat max_size"
    using full len by fastforce
  then show ?thesis
  proof cases
    case 1
    then have "ps = []" using length_slots [of 0 ps] by auto
    with 1 calm lim show ?thesis
      by (auto simp: index_new_def calm_simps index_holds_def index_live_def padding_def Let_def)
  next
    case 2
    have "length ps < slot_limit" using len lim by simp
    then have "recover_size ?f = Done (word_of_nat (12 * length ps))"
      using pad by (intro recover_size_slots)
    moreover have "set_len (unat max_size) ?f = ?f" using 2 by (simp add: set_len_def)
    moreover have "unat (word_of_nat (12 * length ps) :: u64) = 12 * length ps"
      using len lim by (simp add: unat_of_nat slot_limit_def del: of_nat_mult)
    ultimately show ?thesis
      using 2 calm lim pad zero max_iff
      by (auto simp: index_new_def calm_simps index_holds_def index_live_def Let_def
          simp del: of_nat_mult of_nat_add length_append)
  next
    case 3
    then have ps: "0 < length ps" by (cases ps) auto
    let ?m = "slots 0 ps @ replicate (unat max_size - 12 * length ps) 0"
    have "set_len (unat max_size) ?f = ?m" using 3 by (simp add: set_len_def)
    moreover have "padding (length ps) (replicate (unat max_size - 12 * length ps) 0)"
      using ps by (auto simp: padding_def)
    ultimately show ?thesis
      using 3 calm lim zero max_iff sz
      by (auto simp: index_new_def calm_simps index_holds_def index_live_def Let_def
          simp del: of_nat_mult of_nat_add)
  qed
qed

lemma index_close_calm:
  "calm env \<Longrightarrow> index_close env ix = Done (ix\<lparr>ix_file_len := unat (ix_size ix)\<rparr>, Inr ())"
  by (simp add: index_close_def calm_simps)

lemma index_file_closed:
  assumes "index_holds ps ix"
  shows "index_file (ix\<lparr>ix_file_len := unat (ix_size ix)\<rparr>) = slots 0 ps"
  using assms by (auto simp: index_holds_def index_file_def set_len_append)

text \<open>
  Whether it was closed or its process just stopped, an index opens again with the same
  slots.
\<close>

lemma index_reopen:
  assumes "calm env" and holds: "index_holds ps ix" and max: "length (ix_mmap ix) = unat max_size"
    and len: "ix_file_len ix = length (ix_mmap ix) \<or> ix_file_len ix = unat (ix_size ix)"
  shows "\<exists>ix'. index_new env (index_file ix) max_size = Done (Inr ix') \<and>
    index_holds ps ix' \<and> index_live ix' \<and> length (ix_mmap ix') = unat max_size"
proof -
  obtain rest where m: "ix_mmap ix = slots 0 ps @ rest" and pad: "padding (length ps) rest"
    and sz: "unat (ix_size ix) = 12 * length ps" and lim: "unat max_size < 12 * slot_limit"
    using holds max by (auto simp: index_holds_def)
  show ?thesis
    using len
  proof
    assume "ix_file_len ix = length (ix_mmap ix)"
    then have "index_file ix = slots 0 ps @ rest"
      using m by (simp add: index_file_def set_len_def)
    with index_new_on [OF assms(1) lim pad] m max show ?thesis by simp
  next
    assume "ix_file_len ix = unat (ix_size ix)"
    then have "index_file ix = slots 0 ps @ []"
      using m sz by (simp add: index_file_def set_len_append)
    with index_new_on [OF assms(1) lim, of ps "[]"] m max show ?thesis
      by (simp add: padding_def)
  qed
qed

end
