(* ===== verification/Decimal.thy ===== *)
theory Decimal
  imports Prelude
begin

text \<open>
  Decimal numerals as file names carry them: \<^verbatim>\<open>Display\<close> of a \<^verbatim>\<open>u64\<close> and \<^verbatim>\<open>str::parse::<u64>\<close>,
  which accepts a leading plus sign and leading zeros and refuses an empty numeral, any other
  character and a value that does not fit. Parsing inverts printing.
\<close>

definition digit_char :: "nat \<Rightarrow> char" where
  "digit_char d = char_of (48 + d)"

function dec_string :: "nat \<Rightarrow> string" where
  "dec_string n = (if n < 10 then [digit_char n] else dec_string (n div 10) @ [digit_char (n mod 10)])"
  by pat_completeness auto
termination
  by (relation "measure id") auto

declare dec_string.simps [simp del]

definition u64_display :: "u64 \<Rightarrow> string" where
  "u64_display w = dec_string (unat w)"

definition digit_of :: "char \<Rightarrow> nat option" where
  "digit_of c = (let n = of_char c :: nat in if 48 \<le> n \<and> n \<le> 57 then Some (n - 48) else None)"

fun parse_digits :: "nat \<Rightarrow> string \<Rightarrow> nat option" where
  "parse_digits acc [] = Some acc"
| "parse_digits acc (c # cs) =
     (case digit_of c of
        None \<Rightarrow> None
      | Some d \<Rightarrow>
          if acc * 10 + d < 2 ^ 64 then parse_digits (acc * 10 + d) cs else None)"

definition parse_u64 :: "string \<Rightarrow> u64 option" where
  "parse_u64 s =
     (let ds = (case s of c # cs \<Rightarrow> if c = CHR ''+'' \<and> cs \<noteq> [] then cs else s | [] \<Rightarrow> [])
      in if ds = [] then None else map_option word_of_nat (parse_digits 0 ds))"

lemma digit_of_digit_char [simp]: "d < 10 \<Longrightarrow> digit_of (digit_char d) = Some d"
  by (simp add: digit_of_def digit_char_def Let_def)

lemma parse_digits_snoc:
  "parse_digits acc (cs @ [c]) =
     (case parse_digits acc cs of
        None \<Rightarrow> None
      | Some n \<Rightarrow> (case digit_of c of
            None \<Rightarrow> None
          | Some d \<Rightarrow> if n * 10 + d < 2 ^ 64 then Some (n * 10 + d) else None))"
  by (induction cs arbitrary: acc) (auto split: option.splits)

lemma parse_dec_string: "n < 2 ^ 64 \<Longrightarrow> parse_digits 0 (dec_string n) = Some n"
proof (induction n rule: dec_string.induct)
  case (1 n)
  show ?case
  proof (cases "n < 10")
    case True
    then show ?thesis by (simp add: dec_string.simps [of n])
  next
    case False
    then have "parse_digits 0 (dec_string (n div 10)) = Some (n div 10)"
      using 1 by simp
    moreover have "n div 10 * 10 + n mod 10 = n" by simp
    ultimately show ?thesis
      using False 1 by (simp add: dec_string.simps [of n] parse_digits_snoc)
  qed
qed

lemma digit_char_plus: "d < 10 \<Longrightarrow> digit_char d \<noteq> CHR ''+''"
proof
  assume "d < 10" "digit_char d = CHR ''+''"
  then have "digit_of (CHR ''+'') = Some d" by (metis digit_of_digit_char)
  then show False by (simp add: digit_of_def Let_def split: if_splits)
qed

lemma dec_string_hd: "dec_string n \<noteq> [] \<and> hd (dec_string n) \<noteq> CHR ''+''"
proof (induction n rule: dec_string.induct)
  case (1 n)
  then show ?case
    by (cases "n < 10") (simp_all add: dec_string.simps [of n] digit_char_plus hd_append)
qed

lemma parse_u64_display: "parse_u64 (u64_display w) = Some w"
proof -
  have "parse_digits 0 (u64_display w) = Some (unat w)"
    using parse_dec_string [of "unat w"] unsigned_less [of w] by (simp add: u64_display_def)
  moreover have "u64_display w \<noteq> []" "hd (u64_display w) \<noteq> CHR ''+''"
    using dec_string_hd by (simp_all add: u64_display_def)
  ultimately show ?thesis
    by (cases "u64_display w") (simp_all add: parse_u64_def)
qed

lemma u64_display_inj: "u64_display a = u64_display b \<longleftrightarrow> a = b"
  by (metis parse_u64_display option.inject)

end
