(* ===== verification/Log_Segment.thy ===== *)
theory Log_Segment
  imports Log_Index Decimal
begin

text \<open>
  A segment of the log, \<^verbatim>\<open>src/log/segment.rs\<close>: a store and an index over the files
  \<^verbatim>\<open><base>.store\<close> and \<^verbatim>\<open><base>.index\<close> of a directory. The directory is its entries by name;
  the bytes of an open segment's files are in the segment, and \<open>segment_image\<close> is what a
  process that stops leaves of them. A failed opening leaves the directory as it was: files
  it had already created, which are empty, are not tracked.
\<close>

section \<open>Directories\<close>

datatype dir_entry = FileEntry filedata | DirEntry

type_synonym directory = "(string, dir_entry) hash_map"

definition store_name :: "u64 \<Rightarrow> string" where
  "store_name base = u64_display base @ ''.store''"

definition index_name :: "u64 \<Rightarrow> string" where
  "index_name base = u64_display base @ ''.index''"

definition open_file :: "log_env \<Rightarrow> string \<Rightarrow> directory \<Rightarrow> filedata io_result" where
  "open_file env name d =
     (case sys env (OpenFile name) of
        Inl e \<Rightarrow> Inl e
      | Inr _ \<Rightarrow> (case map_of d name of
            None \<Rightarrow> Inr []
          | Some (FileEntry f) \<Rightarrow> Inr f
          | Some DirEntry \<Rightarrow> Inl (IoError OtherKind ''Is a directory'')))"

section \<open>The segment\<close>

record seg_config =
  max_index_bytes :: u64
  max_store_bytes :: u64
  sync_writes :: bool

record segment =
  sg_cfg :: seg_config
  sg_index :: index
  sg_store :: store
  sg_next :: u64
  sg_base :: u64

definition segment_new ::
  "log_env \<Rightarrow> seg_config \<Rightarrow> u64 \<Rightarrow> directory \<Rightarrow> (io_error + segment) outcome" where
  "segment_new env cfg base d =
     (case open_file env (store_name base) d of
        Inl e \<Rightarrow> Done (Inl e)
      | Inr sof \<Rightarrow>
     (case open_file env (index_name base) d of
        Inl e \<Rightarrow> Done (Inl e)
      | Inr ixf \<Rightarrow>
     (case store_new env sof (sync_writes cfg) of
        Inl e \<Rightarrow> Done (Inl e)
      | Inr st \<Rightarrow>
          obind (index_new env ixf (max_index_bytes cfg)) (\<lambda>r.
            case r of
              Inl e \<Rightarrow> Done (Inl e)
            | Inr ix \<Rightarrow>
                obind (if index_len ix > 0 then add_w base (current_offset ix) else Done base)
                  (\<lambda>next. Done (Inr \<lparr>sg_cfg = cfg, sg_index = ix, sg_store = st,
                                     sg_next = next, sg_base = base\<rparr>))))))"

text \<open>A call on the segment's store or index, with the segment around it.\<close>

definition on_store ::
  "(store \<Rightarrow> (store \<times> 'a io_result) outcome) \<Rightarrow> segment \<Rightarrow> (segment \<times> 'a io_result) outcome" where
  "on_store f sg = omap (\<lambda>(st, r). (sg\<lparr>sg_store := st\<rparr>, r)) (f (sg_store sg))"

definition on_index ::
  "(index \<Rightarrow> (index \<times> 'a io_result) outcome) \<Rightarrow> segment \<Rightarrow> (segment \<times> 'a io_result) outcome" where
  "on_index f sg = omap (\<lambda>(ix, r). (sg\<lparr>sg_index := ix\<rparr>, r)) (f (sg_index sg))"

definition segment_append ::
  "log_env \<Rightarrow> byte list \<Rightarrow> segment \<Rightarrow> (segment \<times> u64 io_result) outcome" where
  "segment_append env r sg =
     (let cur = sg_next sg;
          pos = store_len (sg_store sg)
      in and_then (on_store (store_append env r) sg) (\<lambda>sg _.
           obind (sub_w (sg_next sg) (sg_base sg)) (\<lambda>rel.
             and_then (on_index (index_write env (ucast rel) pos) sg) (\<lambda>sg _.
               obind (add_w (sg_next sg) 1) (\<lambda>next.
                 Done (sg\<lparr>sg_next := next\<rparr>, Inr cur))))))"

definition segment_read ::
  "log_env \<Rightarrow> u64 \<Rightarrow> segment \<Rightarrow> (segment \<times> byte list io_result) outcome" where
  "segment_read env off sg =
     (if off < sg_base sg \<or> off \<ge> sg_next sg
      then Done (sg, Inl (IoError InvalidInput ''offset out of range''))
      else obind (sub_w off (sg_base sg)) (\<lambda>rel.
        obind (index_read env (ucast rel) (sg_index sg)) (\<lambda>r.
          case r of
            Inl e \<Rightarrow> Done (sg, Inl e)
          | Inr (_, pos) \<Rightarrow> on_store (store_read env pos) sg)))"

definition is_maxed :: "segment \<Rightarrow> bool" where
  "is_maxed sg \<longleftrightarrow>
     index_len (sg_index sg) \<ge> max_index_bytes (sg_cfg sg) \<or>
     store_len (sg_store sg) \<ge> max_store_bytes (sg_cfg sg)"

definition is_in_range :: "segment \<Rightarrow> u64 \<Rightarrow> bool" where
  "is_in_range sg off \<longleftrightarrow> sg_base sg \<le> off \<and> sg_next sg > off"

definition is_greater_than_range :: "segment \<Rightarrow> u64 \<Rightarrow> bool" where
  "is_greater_than_range sg off \<longleftrightarrow> off \<ge> sg_next sg"

definition is_lesser_than_range :: "segment \<Rightarrow> u64 \<Rightarrow> bool" where
  "is_lesser_than_range sg off \<longleftrightarrow> off < sg_base sg"

definition segment_close :: "log_env \<Rightarrow> segment \<Rightarrow> (segment \<times> unit io_result) outcome" where
  "segment_close env sg =
     and_then (on_store (store_close env) sg) (\<lambda>sg _.
       on_index (index_close env) sg)"

text \<open>The files as the operating system has them.\<close>

definition segment_image :: "segment \<Rightarrow> directory \<Rightarrow> directory" where
  "segment_image sg d =
     hm_insert (index_name (sg_base sg)) (FileEntry (index_file (sg_index sg)))
       (hm_insert (store_name (sg_base sg)) (FileEntry (so_file (sg_store sg))) d)"

text \<open>
  \<^verbatim>\<open>remove\<close> closes both files and unlinks them by the names their descriptors have. The
  segment is dropped by the caller, so only the directory comes back.
\<close>

definition segment_remove ::
  "log_env \<Rightarrow> segment \<Rightarrow> directory \<Rightarrow> (directory \<times> unit io_result) outcome" where
  "segment_remove env sg d =
     obind (segment_close env sg) (\<lambda>(sg, r).
       let d = segment_image sg d; sn = store_name (sg_base sg); ixn = index_name (sg_base sg)
       in and_then (Done (d, r)) (\<lambda>d _.
          and_then (check_sys env (ReadName sn) d) (\<lambda>d _.
          and_then (check_sys env (RemoveFile sn) d) (\<lambda>d _.
          let d = hm_delete sn d in
          and_then (check_sys env (ReadName ixn) d) (\<lambda>d _.
          and_then (check_sys env (RemoveFile ixn) d) (\<lambda>d _.
            Done (hm_delete ixn d, Inr ())))))))"

section \<open>What a segment holds\<close>

definition seg_holds :: "byte list list \<Rightarrow> segment \<Rightarrow> bool" where
  "seg_holds rs sg \<longleftrightarrow>
     unat (sg_next sg) = unat (sg_base sg) + length rs \<and>
     length (ix_mmap (sg_index sg)) = unat (max_index_bytes (sg_cfg sg)) \<and>
     length (content (sg_store sg)) < 2 ^ 64 \<and>
     so_sync (sg_store sg) = sync_writes (sg_cfg sg) \<and>
     (\<exists>ps. index_holds ps (sg_index sg) \<and>
        list_all2 (\<lambda>p r. record_at (content (sg_store sg)) (unat p) r) ps rs)"

text \<open>Open, with a size that agrees with the bytes.\<close>

definition seg_ready :: "segment \<Rightarrow> bool" where
  "seg_ready sg \<longleftrightarrow> index_live (sg_index sg) \<and> store_inv (sg_store sg)"

text \<open>Room for one more record: a slot of the index, and counters that do not overflow.\<close>

definition seg_room :: "byte list \<Rightarrow> segment \<Rightarrow> bool" where
  "seg_room r sg \<longleftrightarrow>
     unat (ix_size (sg_index sg)) + 12 \<le> unat (max_index_bytes (sg_cfg sg)) \<and>
     length r < 2 ^ 63 \<and> unat (so_size (sg_store sg)) + 8 + length r < 2 ^ 64 \<and>
     sg_next sg < - 1"

lemma seg_holds_count: "seg_holds rs sg \<Longrightarrow> length rs < slot_limit"
  unfolding seg_holds_def by (metis index_holds_count list_all2_lengthD)

lemma seg_holds_size: "seg_holds rs sg \<Longrightarrow> unat (ix_size (sg_index sg)) = 12 * length rs"
  unfolding seg_holds_def index_holds_def by (metis list_all2_lengthD)

lemma rel_offset:
  fixes off base :: u64
  assumes "i < slot_limit" and "unat off = unat base + i"
  shows "sub_w off base = Done (word_of_nat i)"
    and "ucast (word_of_nat i :: u64) = (word_of_nat i :: u32)"
proof -
  have i: "unat (word_of_nat i :: u64) = i" using assms(1) by (simp add: unat_of_nat slot_limit_def)
  with assms(2) show "sub_w off base = Done (word_of_nat i)" by (simp add: sub_w_eq_Done)
  show "ucast (word_of_nat i :: u64) = (word_of_nat i :: u32)"
    using assms(1) by (simp add: unsigned_of_nat take_bit_nat_eq_self slot_limit_def)
qed

lemma seg_rel:
  assumes "seg_holds rs sg" and "i \<le> length rs" and "unat off = unat (sg_base sg) + i"
  shows "sub_w off (sg_base sg) = Done (word_of_nat i)"
    and "ucast (word_of_nat i :: u64) = (word_of_nat i :: u32)"
  using rel_offset [of i off "sg_base sg"] seg_holds_count [OF assms(1)] assms(2,3) by simp_all

text \<open>Once the store has taken the record, a free slot takes its position.\<close>

lemma segment_append_slot:
  assumes calm: "calm env" and ps: "index_holds ps (sg_index sg)" and live: "index_live (sg_index sg)"
    and room: "12 * length ps + 12 \<le> length (ix_mmap (sg_index sg))"
    and nxt: "unat (sg_next sg) = unat (sg_base sg) + length ps" and small: "sg_next sg < - 1"
    and st: "store_append env r (sg_store sg) = Done (st, Inr n)"
  shows "\<exists>ix. segment_append env r sg =
      Done (sg\<lparr>sg_store := st, sg_index := ix, sg_next := sg_next sg + 1\<rparr>, Inr (sg_next sg)) \<and>
    index_holds (ps @ [so_size (sg_store sg)]) ix \<and> index_live ix \<and>
    length (ix_mmap ix) = length (ix_mmap (sg_index sg)) \<and> unat (sg_next sg + 1) = unat (sg_next sg) + 1"
proof -
  obtain ix where ix: "index_write env (word_of_nat (length ps)) (so_size (sg_store sg)) (sg_index sg) =
      Done (ix, Inr ())" "index_holds (ps @ [so_size (sg_store sg)]) ix" "index_live ix"
    "length (ix_mmap ix) = length (ix_mmap (sg_index sg))"
    using index_write_holds [OF calm ps live room] by blast
  have "add_w (sg_next sg) 1 = Done (sg_next sg + 1)" "unat (sg_next sg + 1) = unat (sg_next sg) + 1"
    using small unat_add_lem' [of "sg_next sg" 1] unat_max_word [where 'a = 64]
    by (simp_all add: add_w_DoneI word_less_nat_alt)
  with ix st rel_offset [OF index_holds_count [OF ps] nxt] show ?thesis
    by (intro exI [of _ ix])
      (simp add: segment_append_def on_store_def on_index_def store_len_def Let_def)
qed

lemma segment_append_calm:
  assumes calm: "calm env" and holds: "seg_holds rs sg" and ready: "seg_ready sg"
    and room: "seg_room r sg"
  shows "\<exists>sg'. segment_append env r sg = Done (sg', Inr (sg_next sg)) \<and>
    seg_holds (rs @ [r]) sg' \<and> seg_ready sg' \<and> sg_base sg' = sg_base sg \<and> sg_cfg sg' = sg_cfg sg \<and>
    (sync_writes (sg_cfg sg) \<longrightarrow> so_buf (sg_store sg') = []) \<and>
    content (sg_store sg') = content (sg_store sg) @ frame r"
proof -
  let ?st = "sg_store sg" and ?ix = "sg_index sg"
  have inv: "store_inv ?st" and live: "index_live ?ix" using ready by (simp_all add: seg_ready_def)
  then have size: "unat (so_size ?st) = length (content ?st)" by (simp add: store_inv_def)
  obtain ps where ps: "index_holds ps ?ix" and
    recs: "list_all2 (\<lambda>p r. record_at (content ?st) (unat p) r) ps rs"
    using holds by (auto simp: seg_holds_def)
  have n: "length ps = length rs" using recs by (rule list_all2_lengthD)
  obtain st where st: "store_append env r ?st = Done (st, Inr (word_of_nat (8 + length r)))"
    "content st = content ?st @ frame r" "store_inv st" "so_sync st = so_sync ?st"
    "so_sync ?st \<longrightarrow> so_buf st = []"
    using store_append_calm [OF calm inv, of r] room size by (auto simp: seg_room_def)
  have nxt: "unat (sg_next sg) = unat (sg_base sg) + length ps" using holds n by (simp add: seg_holds_def)
  have slots: "12 * length ps + 12 \<le> length (ix_mmap ?ix)" and small: "sg_next sg < - 1"
    using ps room holds by (auto simp: index_holds_def seg_room_def seg_holds_def)
  obtain ix where ix: "segment_append env r sg =
      Done (sg\<lparr>sg_store := st, sg_index := ix, sg_next := sg_next sg + 1\<rparr>, Inr (sg_next sg))"
    (is "_ = Done (?sg, _)")
    "index_holds (ps @ [so_size ?st]) ix" "index_live ix" "length (ix_mmap ix) = length (ix_mmap ?ix)"
    "unat (sg_next sg + 1) = unat (sg_next sg) + 1"
    using segment_append_slot [OF calm ps live slots nxt small st(1)] by blast
  have "list_all2 (\<lambda>p r. record_at (content st) (unat p) r) ps rs"
    using recs by (rule list_all2_mono) (simp add: st(2) record_at_append)
  then have "list_all2 (\<lambda>p r. record_at (content st) (unat p) r) (ps @ [so_size ?st]) (rs @ [r])"
    using st(2) size room record_at_new [of r "content ?st"]
    by (intro list_all2_appendI) (simp_all add: seg_room_def)
  moreover have "length (content st) < 2 ^ 64" using st(2) room size by (simp add: seg_room_def)
  ultimately show ?thesis
    using st ix nxt n holds by (intro exI [of _ ?sg]) (auto simp: seg_holds_def seg_ready_def)
qed

lemma segment_read_calm:
  assumes calm: "calm env" and holds: "seg_holds rs sg" and live: "index_live (sg_index sg)"
    and i: "i < length rs" and off: "unat off = unat (sg_base sg) + i"
  shows "segment_read env off sg = Done (sg\<lparr>sg_store := (sg_store sg)
    \<lparr>so_file := content (sg_store sg), so_buf := []\<rparr>\<rparr>, Inr (rs ! i))"
proof -
  obtain ps where ps: "index_holds ps (sg_index sg)" and
    recs: "list_all2 (\<lambda>p r. record_at (content (sg_store sg)) (unat p) r) ps rs"
    and len: "length (content (sg_store sg)) < 2 ^ 64"
    and nxt: "unat (sg_next sg) = unat (sg_base sg) + length rs"
    using holds by (auto simp: seg_holds_def)
  have n: "length ps = length rs" using recs by (rule list_all2_lengthD)
  have "record_at (content (sg_store sg)) (unat (ps ! i)) (rs ! i)"
    using list_all2_nthD [OF recs] i n by simp
  note rd = store_read_calm [OF calm this len]
  have "\<not> (off < sg_base sg \<or> sg_next sg \<le> off)"
    using i off nxt by (simp add: word_less_nat_alt word_le_nat_alt)
  then show ?thesis
    using seg_rel [OF holds _ off] index_read_holds [OF calm ps live] i n rd
    by (simp add: segment_read_def on_store_def)
qed

lemma seg_holds_flush [simp]:
  "seg_holds rs (sg\<lparr>sg_store := (sg_store sg)\<lparr>so_file := content (sg_store sg), so_buf := []\<rparr>\<rparr>)
   = seg_holds rs sg"
  "seg_ready (sg\<lparr>sg_store := (sg_store sg)\<lparr>so_file := content (sg_store sg), so_buf := []\<rparr>\<rparr>)
   = seg_ready sg"
  by (simp_all add: seg_holds_def seg_ready_def store_inv_def)

lemma segment_close_calm:
  assumes "calm env"
  shows "segment_close env sg = Done (sg
    \<lparr>sg_store := (sg_store sg)\<lparr>so_file := content (sg_store sg), so_buf := []\<rparr>,
     sg_index := (sg_index sg)\<lparr>ix_file_len := unat (ix_size (sg_index sg))\<rparr>\<rparr>, Inr ())"
  using assms
  by (simp add: segment_close_def on_store_def on_index_def store_close_def bw_flush_calm
      index_close_calm calm_simps)

section \<open>Failures and restarts\<close>

text \<open>The records already acknowledged stay where they are, whatever a later append meets.\<close>

lemma records_kept:
  "list_all2 (\<lambda>p r. record_at (content st) (unat p) r) ps rs \<Longrightarrow> extends st st' \<Longrightarrow>
   list_all2 (\<lambda>p r. record_at (content st') (unat p) r) ps rs"
  by (erule list_all2_mono) (auto simp: extends_def record_at_append)

lemma segment_append_fails:
  assumes "segment_append env r sg = Done (sg', Inl e)" and holds: "seg_holds rs sg"
    and "length (content (sg_store sg')) < 2 ^ 64"
  shows "seg_holds rs sg' \<and> sg_base sg' = sg_base sg \<and> sg_next sg' = sg_next sg \<and>
    sg_index sg' = sg_index sg"
proof -
  obtain st where ext: "extends (sg_store sg) st" and sg': "sg' = sg\<lparr>sg_store := st\<rparr>"
    using assms(1)
    by (auto simp: segment_append_def Let_def and_then_eq_Done obind_eq_Done omap_eq_Done
        on_store_def on_index_def index_write_def split: if_splits dest!: store_append_extends)
  with holds assms(3) records_kept [OF _ ext] show ?thesis
    by (auto simp: seg_holds_def extends_def)
qed

lemma store_index_names: "store_name a \<noteq> index_name b"
  by (simp add: store_name_def index_name_def)

lemma segment_image_files:
  "map_of (segment_image sg d) (store_name (sg_base sg)) = Some (FileEntry (so_file (sg_store sg)))"
  "map_of (segment_image sg d) (index_name (sg_base sg)) = Some (FileEntry (index_file (sg_index sg)))"
  using store_index_names by (simp_all add: segment_image_def)

lemma segment_reopen:
  assumes calm: "calm env" and holds: "seg_holds rs sg" and flushed: "so_buf (sg_store sg) = []"
    and len: "index_live (sg_index sg) \<or> ix_file_len (sg_index sg) = unat (ix_size (sg_index sg))"
    and files: "map_of d (store_name (sg_base sg)) = Some (FileEntry (so_file (sg_store sg)))"
      "map_of d (index_name (sg_base sg)) = Some (FileEntry (index_file (sg_index sg)))"
  shows "\<exists>sg'. segment_new env (sg_cfg sg) (sg_base sg) d = Done (Inr sg') \<and>
    seg_holds rs sg' \<and> seg_ready sg' \<and> sg_base sg' = sg_base sg \<and> sg_next sg' = sg_next sg \<and>
    sg_cfg sg' = sg_cfg sg \<and> so_buf (sg_store sg') = [] \<and> so_size (sg_store sg') = word_of_nat (length (content (sg_store sg)))"
proof -
  obtain ps where ps: "index_holds ps (sg_index sg)" and
    recs: "list_all2 (\<lambda>p r. record_at (content (sg_store sg)) (unat p) r) ps rs"
    and clen: "length (content (sg_store sg)) < 2 ^ 64"
    and nxt: "unat (sg_next sg) = unat (sg_base sg) + length rs"
    and mm: "length (ix_mmap (sg_index sg)) = unat (max_index_bytes (sg_cfg sg))"
    using holds by (auto simp: seg_holds_def)
  have n: "length ps = length rs" using recs by (rule list_all2_lengthD)
  obtain ix where ix: "index_new env (index_file (sg_index sg)) (max_index_bytes (sg_cfg sg)) = Done (Inr ix)"
    "index_holds ps ix" "index_live ix" "length (ix_mmap ix) = unat (max_index_bytes (sg_cfg sg))"
    using index_reopen [OF calm ps mm] len by (auto simp: index_live_def)
  have sz: "unat (ix_size ix) = 12 * length rs" using ix n by (simp add: index_holds_def)
  have cur: "unat (current_offset ix) = length rs"
    by (simp add: current_offset_def width_defs unat_div sz)
  have "0 < index_len ix \<longleftrightarrow> 0 < length rs"
    using sz by (simp add: index_len_def word_less_nat_alt)
  then have next_off: "(if 0 < index_len ix then add_w (sg_base sg) (current_offset ix)
      else Done (sg_base sg)) = Done (sg_next sg)"
    using cur nxt by (auto simp: add_w_eq_Done word_unat_eq_iff)
  let ?st = "\<lparr>so_size = word_of_nat (length (so_file (sg_store sg))), so_file = so_file (sg_store sg),
    so_buf = [], so_sync = sync_writes (sg_cfg sg)\<rparr>"
  let ?sg = "\<lparr>sg_cfg = sg_cfg sg, sg_index = ix, sg_store = ?st, sg_next = sg_next sg,
    sg_base = sg_base sg\<rparr>"
  have cont: "content ?st = content (sg_store sg)" using flushed by (simp add: content_def)
  have "segment_new env (sg_cfg sg) (sg_base sg) d = Done (Inr ?sg)"
    using files ix(1) next_off calm
    by (simp add: segment_new_def open_file_def store_new_def calm_simps)
  moreover have "seg_holds rs ?sg"
    using ix recs clen nxt cont by (auto simp: seg_holds_def)
  moreover have "seg_ready ?sg"
    using ix clen flushed by (simp add: seg_ready_def store_inv_def content_def unat_of_nat)
  ultimately show ?thesis
    using flushed by (intro exI [of _ ?sg]) (simp add: content_def)
qed

lemma segment_new_empty:
  assumes "calm env" and "unat (max_index_bytes cfg) < 12 * slot_limit"
    and "map_of d (store_name base) = None" and "map_of d (index_name base) = None"
  shows "\<exists>sg. segment_new env cfg base d = Done (Inr sg) \<and> seg_holds [] sg \<and> seg_ready sg \<and>
    sg_base sg = base \<and> sg_next sg = base \<and> sg_cfg sg = cfg \<and> so_size (sg_store sg) = 0 \<and>
    so_buf (sg_store sg) = []"
proof -
  obtain ix where "index_new env [] (max_index_bytes cfg) = Done (Inr ix)" "index_holds [] ix"
    "index_live ix" "length (ix_mmap ix) = unat (max_index_bytes cfg)"
    using index_new_on [OF assms(1,2), of "[]" "[]"] by (auto simp: padding_def)
  moreover from this have "index_len ix = 0" by (simp add: index_holds_def index_len_def unat_eq_zero)
  ultimately show ?thesis
    using assms
    by (auto simp: segment_new_def open_file_def store_new_def calm_simps seg_holds_def seg_ready_def
        store_inv_def content_def)
qed

lemma segment_append_full:
  assumes calm: "calm env" and holds: "seg_holds rs sg" and ready: "seg_ready sg"
    and full: "unat (max_index_bytes (sg_cfg sg)) < 12 * length rs + 12"
    and fits: "unat (so_size (sg_store sg)) + 8 + length r < 2 ^ 64"
  shows "\<exists>sg'. segment_append env r sg = Done (sg', Inl (IoError UnexpectedEof ''index is full'')) \<and>
    seg_holds rs sg' \<and> seg_ready sg' \<and> sg_base sg' = sg_base sg \<and> sg_next sg' = sg_next sg \<and>
    sg_cfg sg' = sg_cfg sg \<and> content (sg_store sg') = content (sg_store sg) @ frame r"
proof -
  let ?st = "sg_store sg"
  have inv: "store_inv ?st" and live: "index_live (sg_index sg)" using ready by (simp_all add: seg_ready_def)
  then have size: "unat (so_size ?st) = length (content ?st)" by (simp add: store_inv_def)
  obtain ps where ps: "index_holds ps (sg_index sg)" and
    recs: "list_all2 (\<lambda>p r. record_at (content ?st) (unat p) r) ps rs"
    using holds by (auto simp: seg_holds_def)
  have n: "length ps = length rs" using recs by (rule list_all2_lengthD)
  obtain st where st: "store_append env r ?st = Done (st, Inr (word_of_nat (8 + length r)))"
    "content st = content ?st @ frame r" "store_inv st" "so_sync st = so_sync ?st"
    using store_append_calm [OF calm inv, of r] fits size by auto
  have nxt: "unat (sg_next sg) = unat (sg_base sg) + length rs" using holds by (simp add: seg_holds_def)
  have "length (ix_mmap (sg_index sg)) < 12 * length ps + 12"
    using full n holds by (simp add: seg_holds_def)
  note wr = index_write_full [OF ps this]
  have "segment_append env r sg =
      Done (sg\<lparr>sg_store := st\<rparr>, Inl (IoError UnexpectedEof ''index is full''))"
    using st wr seg_rel [OF holds order_refl nxt]
    by (simp add: segment_append_def on_store_def on_index_def Let_def)
  moreover have "list_all2 (\<lambda>p r. record_at (content st) (unat p) r) ps rs"
    using recs by (rule list_all2_mono) (simp add: st(2) record_at_append)
  moreover have "length (content st) < 2 ^ 64" using st(2) fits size by simp
  ultimately show ?thesis
    using st ps live holds by (intro exI [of _ "sg\<lparr>sg_store := st\<rparr>"]) (auto simp: seg_holds_def seg_ready_def)
qed

text \<open>Removing a segment takes its two names out of the directory and leaves every other entry.\<close>

definition segment_files :: "segment \<Rightarrow> string set" where
  "segment_files sg = {store_name (sg_base sg), index_name (sg_base sg)}"

definition without_files :: "segment \<Rightarrow> directory \<Rightarrow> directory" where
  "without_files sg d = filter (\<lambda>(n, e). n \<notin> segment_files sg) d"

lemma hm_delete_insert_other: "k \<noteq> k' \<Longrightarrow> hm_delete k (hm_insert k' v m) = hm_insert k' v (hm_delete k m)"
  by (induction m) (auto simp: hm_delete_def hm_insert_def)

lemma segment_remove_calm:
  assumes "calm env"
  shows "segment_remove env sg d = Done (without_files sg d, Inr ())"
proof -
  have "hm_delete (index_name b) (hm_delete (store_name b)
      (hm_insert (index_name b) v (hm_insert (store_name b) w d))) = hm_delete (index_name b) (hm_delete (store_name b) d)"
    for b v w using store_index_names [of b b] by (simp add: hm_delete_insert_other hm_delete_insert)
  moreover have "hm_delete (index_name (sg_base sg)) (hm_delete (store_name (sg_base sg)) d) = without_files sg d"
    by (auto simp: hm_delete_def without_files_def segment_files_def intro: filter_cong)
  ultimately show ?thesis
    using assms by (simp add: segment_remove_def segment_close_calm calm_simps segment_image_def Let_def)
qed

end
