(* ===== verification/Segmented_Log.thy ===== *)
theory Segmented_Log
  imports Log_Segment "HOL-Library.Sublist"
begin

text \<open>
  The log, \<^verbatim>\<open>src/log.rs\<close>: a list of segments in one directory, of which the last takes the
  appends and is followed by a new one as soon as it is full. \<open>log_image\<close> is the directory
  that a stopped process leaves. The locale \<open>record_log\<close> is what the users of a log rely on;
  a single segment and the whole log are its two instances.
\<close>

section \<open>The log\<close>

record log_config =
  initial_offset :: u64
  log_sync_writes :: bool
  max_size_bytes :: u64
  log_max_store_bytes :: u64

record log =
  lg_active :: nat
  lg_dir :: string
  lg_cfg :: log_config
  lg_segments :: "segment list"
  lg_files :: directory

definition seg_config_of :: "log_config \<Rightarrow> seg_config" where
  "seg_config_of cfg =
     \<lparr>max_index_bytes = max_size_bytes cfg, max_store_bytes = log_max_store_bytes cfg,
      sync_writes = log_sync_writes cfg\<rparr>"

definition new_segment ::
  "log_env \<Rightarrow> log_config \<Rightarrow> u64 \<Rightarrow> directory \<Rightarrow> (io_error + segment) outcome" where
  "new_segment env cfg off d = segment_new env (seg_config_of cfg) off d"

definition strip_suffix :: "string \<Rightarrow> string \<Rightarrow> string option" where
  "strip_suffix s suf =
     (if suffix suf s then Some (take (length s - length suf) s) else None)"

text \<open>The offset in a file name, where it has one.\<close>

definition name_offset :: "string \<Rightarrow> u64 option" where
  "name_offset name =
     (case strip_suffix name ''.store'' of
        Some stem \<Rightarrow> parse_u64 stem
      | None \<Rightarrow> (case strip_suffix name ''.index'' of
            Some stem \<Rightarrow> parse_u64 stem
          | None \<Rightarrow> None))"

fun scan_dir :: "directory \<Rightarrow> u64 list \<Rightarrow> u64 list" where
  "scan_dir [] offsets = offsets"
| "scan_dir ((name, DirEntry) # es) offsets = scan_dir es offsets"
| "scan_dir ((name, FileEntry f) # es) offsets =
     (case name_offset name of
        None \<Rightarrow> scan_dir es offsets
      | Some off \<Rightarrow> scan_dir es (if off \<in> set offsets then offsets else offsets @ [off]))"

fun open_segments :: "log_env \<Rightarrow> log_config \<Rightarrow> directory \<Rightarrow> u64 list \<Rightarrow> segment list \<Rightarrow>
    (io_error + segment list) outcome" where
  "open_segments env cfg d [] sgs = Done (Inr sgs)"
| "open_segments env cfg d (off # offs) sgs =
     obind (new_segment env cfg off d) (\<lambda>r.
       case r of
         Inl e \<Rightarrow> Done (Inl e)
       | Inr sg \<Rightarrow> open_segments env cfg d offs (sgs @ [sg]))"

text \<open>The directory is \<open>None\<close> when the path does not name one.\<close>

definition log_new ::
  "log_env \<Rightarrow> log_config \<Rightarrow> string \<Rightarrow> directory option \<Rightarrow> (io_error + log) outcome" where
  "log_new env cfg dir listing =
     (case listing of
        None \<Rightarrow> Done (Inl (IoError NotADirectory ''path is not a valid directory''))
      | Some d \<Rightarrow>
     (case sys env ReadDir of
        Inl e \<Rightarrow> Done (Inl e)
      | Inr _ \<Rightarrow>
          let offsets = sort (scan_dir d [])
          in obind (open_segments env cfg d offsets []) (\<lambda>r.
             case r of
               Inl e \<Rightarrow> Done (Inl e)
             | Inr sgs \<Rightarrow>
                 if sgs = [] then
                   obind (new_segment env cfg (initial_offset cfg) d) (\<lambda>r.
                     case r of
                       Inl e \<Rightarrow> Done (Inl e)
                     | Inr sg \<Rightarrow> Done (Inr \<lparr>lg_active = 0, lg_dir = dir, lg_cfg = cfg,
                                            lg_segments = [sg], lg_files = d\<rparr>))
                 else Done (Inr \<lparr>lg_active = length sgs - 1, lg_dir = dir, lg_cfg = cfg,
                                 lg_segments = sgs, lg_files = d\<rparr>))))"

definition log_append :: "log_env \<Rightarrow> byte list \<Rightarrow> log \<Rightarrow> (log \<times> u64 io_result) outcome" where
  "log_append env buf lg =
     (let a = lg_active lg in
      if a \<ge> length (lg_segments lg) then Panic IndexOutOfBounds
      else obind (segment_append env buf (lg_segments lg ! a)) (\<lambda>(sg, r).
        and_then (Done (lg\<lparr>lg_segments := (lg_segments lg)[a := sg]\<rparr>, r)) (\<lambda>lg off.
          if is_maxed (lg_segments lg ! a) then
            obind (add_w off 1) (\<lambda>base.
            obind (new_segment env (lg_cfg lg) base (lg_files lg)) (\<lambda>r.
              case r of
                Inl e \<Rightarrow> Done (lg, Inl e)
              | Inr sg' \<Rightarrow> Done (lg\<lparr>lg_segments := lg_segments lg @ [sg'], lg_active := a + 1\<rparr>,
                                 Inr off)))
          else Done (lg, Inr off))))"

text \<open>The \<^verbatim>\<open>while\<close> of \<^verbatim>\<open>read\<close>: the number of the first segment with the offset.\<close>

fun find_segment :: "segment list \<Rightarrow> u64 \<Rightarrow> nat" where
  "find_segment [] off = 0"
| "find_segment (sg # sgs) off =
     (if is_in_range sg off then 0 else Suc (find_segment sgs off))"

definition log_read :: "log_env \<Rightarrow> u64 \<Rightarrow> log \<Rightarrow> (log \<times> byte list io_result) outcome" where
  "log_read env off lg =
     (let cur = find_segment (lg_segments lg) off in
      if cur \<ge> length (lg_segments lg)
      then Done (lg, Inl (IoError UnexpectedEof ''offset out of range''))
      else obind (segment_read env off (lg_segments lg ! cur)) (\<lambda>(sg, r).
        Done (lg\<lparr>lg_segments := (lg_segments lg)[cur := sg]\<rparr>, r)))"

text \<open>\<^verbatim>\<open>for i in 0..=self.active_index\<close>, from \<open>i\<close> with \<open>n\<close> rounds to go.\<close>

fun close_from :: "log_env \<Rightarrow> nat \<Rightarrow> nat \<Rightarrow> log \<Rightarrow> (log \<times> unit io_result) outcome" where
  "close_from env i 0 lg = Done (lg, Inr ())"
| "close_from env i (Suc n) lg =
     (if i \<ge> length (lg_segments lg) then Panic IndexOutOfBounds
      else obind (segment_close env (lg_segments lg ! i)) (\<lambda>(sg, r).
        and_then (Done (lg\<lparr>lg_segments := (lg_segments lg)[i := sg]\<rparr>, r)) (\<lambda>lg _.
          close_from env (Suc i) n lg)))"

definition log_close :: "log_env \<Rightarrow> log \<Rightarrow> (log \<times> unit io_result) outcome" where
  "log_close env lg = close_from env 0 (lg_active lg + 1) lg"

function log_truncate :: "log_env \<Rightarrow> u64 \<Rightarrow> log \<Rightarrow> (log \<times> unit io_result) outcome" where
  "log_truncate env off lg =
     (if lg_segments lg = [] then Done (lg, Inr ())
      else if is_lesser_than_range (last (lg_segments lg)) off then
        (case segment_remove env (last (lg_segments lg)) (lg_files lg) of
           Panic p \<Rightarrow> Panic p
         | Done (d, r) \<Rightarrow>
             let lg1 = lg\<lparr>lg_segments := butlast (lg_segments lg), lg_files := d\<rparr>
             in case r of
                  Inl e \<Rightarrow> Done (lg1, Inl e)
                | Inr _ \<Rightarrow> log_truncate env off (lg1\<lparr>lg_active := lg_active lg1 - 1\<rparr>))
      else Done (lg, Inr ()))"
  by pat_completeness auto
termination
  by (relation "measure (\<lambda>(env, off, lg). length (lg_segments lg))") auto

declare log_truncate.simps [simp del]

definition log_next_offset :: "log \<Rightarrow> u64 outcome" where
  "log_next_offset lg =
     (if lg_active lg \<ge> length (lg_segments lg) then Panic IndexOutOfBounds
      else Done (sg_next (lg_segments lg ! lg_active lg)))"

definition log_directory :: "log \<Rightarrow> string" where
  "log_directory lg = lg_dir lg"

definition log_image :: "log \<Rightarrow> directory" where
  "log_image lg = fold segment_image (lg_segments lg) (lg_files lg)"

section \<open>What a log holds\<close>

primrec seg_chain :: "u64 \<Rightarrow> segment list \<Rightarrow> byte list list \<Rightarrow> bool" where
  "seg_chain start [] rs \<longleftrightarrow> rs = []"
| "seg_chain start (sg # sgs) rs \<longleftrightarrow>
     sg_base sg = start \<and>
     (\<exists>r1 r2. rs = r1 @ r2 \<and> seg_holds r1 sg \<and> seg_chain (sg_next sg) sgs r2)"

definition chain_end :: "u64 \<Rightarrow> segment list \<Rightarrow> u64" where
  "chain_end start sgs = (if sgs = [] then start else sg_next (last sgs))"

lemma seg_chain_append:
  "seg_chain start (sgs @ ts) rs \<longleftrightarrow>
     (\<exists>r1 r2. rs = r1 @ r2 \<and> seg_chain start sgs r1 \<and> seg_chain (chain_end start sgs) ts r2)"
proof (induction sgs arbitrary: start rs)
  case Nil
  show ?case by (simp add: chain_end_def)
next
  case (Cons sg sgs)
  have "chain_end start (sg # sgs) = chain_end (sg_next sg) sgs"
    by (simp add: chain_end_def)
  with Cons.IH show ?case
    by (auto) (metis append.assoc)+
qed

lemma seg_chain_length: "seg_chain start sgs rs \<Longrightarrow> unat (chain_end start sgs) = unat start + length rs"
proof (induction sgs arbitrary: start rs)
  case Nil
  then show ?case by (simp add: chain_end_def)
next
  case (Cons sg sgs)
  then obtain r1 r2 where "rs = r1 @ r2" "seg_holds r1 sg" "seg_chain (sg_next sg) sgs r2"
    "sg_base sg = start" by auto
  with Cons.IH [of "sg_next sg" r2] show ?case
    by (simp add: chain_end_def seg_holds_def split: if_splits)
qed

text \<open>
  Configurations with which the log can run forever: the index limit is a positive multiple
  of the slot width below the number of slots 32 bits can count, and the store limit is
  positive.
\<close>

definition cfg_ok :: "log_config \<Rightarrow> bool" where
  "cfg_ok cfg \<longleftrightarrow> 12 dvd unat (max_size_bytes cfg) \<and> 0 < unat (max_size_bytes cfg) \<and>
     unat (max_size_bytes cfg) < 12 * slot_limit \<and> 0 < unat (log_max_store_bytes cfg)"

text \<open>Every file of the directory that names an offset is a file of one of the segments.\<close>

definition tidy :: "u64 set \<Rightarrow> directory \<Rightarrow> bool" where
  "tidy B d \<longleftrightarrow> (\<forall>name e off. (name, e) \<in> set d \<longrightarrow> name_offset name = Some off \<longrightarrow>
     off \<in> B \<and> (\<exists>f. e = FileEntry f))"

definition seg_state :: "log_config \<Rightarrow> segment \<Rightarrow> bool" where
  "seg_state cfg sg \<longleftrightarrow> seg_ready sg \<and> sg_cfg sg = seg_config_of cfg \<and>
     (log_sync_writes cfg \<longrightarrow> so_buf (sg_store sg) = [])"

definition log_holds :: "u64 \<Rightarrow> byte list list \<Rightarrow> log \<Rightarrow> bool" where
  "log_holds start rs lg \<longleftrightarrow>
     lg_segments lg \<noteq> [] \<and> lg_active lg = length (lg_segments lg) - 1 \<and>
     cfg_ok (lg_cfg lg) \<and> seg_chain start (lg_segments lg) rs \<and>
     list_all (seg_state (lg_cfg lg)) (lg_segments lg) \<and>
     sorted_wrt (<) (map sg_base (lg_segments lg)) \<and>
     tidy (set (map sg_base (lg_segments lg))) (lg_files lg) \<and>
     \<not> is_maxed (last (lg_segments lg))"

definition active_segment :: "log \<Rightarrow> segment" where
  "active_segment lg = lg_segments lg ! lg_active lg"

definition log_room :: "byte list \<Rightarrow> log \<Rightarrow> bool" where
  "log_room r lg \<longleftrightarrow>
     length r < 2 ^ 63 \<and> unat (so_size (sg_store (active_segment lg))) + 8 + length r < 2 ^ 64 \<and>
     sg_next (active_segment lg) < - 1"

section \<open>Names\<close>

lemma name_offset_names [simp]:
  "name_offset (store_name b) = Some b" "name_offset (index_name b) = Some b"
proof -
  have no: "\<not> suffix ''.store'' (u64_display b @ ''.index'')"
    by (simp add: suffix_def)
  show "name_offset (store_name b) = Some b"
    by (simp add: name_offset_def strip_suffix_def store_name_def suffix_def parse_u64_display)
  show "name_offset (index_name b) = Some b"
    using no by (simp add: name_offset_def strip_suffix_def index_name_def suffix_def parse_u64_display)
qed

lemma names_inj [simp]:
  "store_name a = store_name b \<longleftrightarrow> a = b" "index_name a = index_name b \<longleftrightarrow> a = b"
  by (simp_all add: store_name_def index_name_def u64_display_inj)

lemma names_distinct [simp]: "store_name a \<noteq> index_name b" "index_name a \<noteq> store_name b"
  using store_index_names by metis+

lemma tidy_mono: "tidy A d \<Longrightarrow> A \<subseteq> B \<Longrightarrow> tidy B d"
  unfolding tidy_def by blast

lemma tidy_absent:
  assumes "tidy B d" and "b \<notin> B"
  shows "map_of d (store_name b) = None" "map_of d (index_name b) = None"
proof -
  have "(n, e) \<notin> set d" if "name_offset n = Some b" for n e
    using assms that by (auto simp: tidy_def)
  then show "map_of d (store_name b) = None" "map_of d (index_name b) = None"
    by (auto simp: map_of_eq_None_iff)
qed

section \<open>Appending\<close>

lemma not_maxed_room:
  assumes "seg_holds rs sg" and "\<not> is_maxed sg" and "sg_cfg sg = seg_config_of cfg" and "cfg_ok cfg"
  shows "unat (ix_size (sg_index sg)) + 12 \<le> unat (max_index_bytes (sg_cfg sg))"
proof -
  have "unat (ix_size (sg_index sg)) = 12 * length rs"
    using assms(1) by (rule seg_holds_size)
  moreover have "unat (ix_size (sg_index sg)) < unat (max_size_bytes cfg)"
    using assms(2,3) by (simp add: is_maxed_def index_len_def seg_config_of_def word_less_nat_alt not_le)
  moreover obtain k where "unat (max_size_bytes cfg) = 12 * k"
    using assms(4) by (auto simp: cfg_ok_def)
  ultimately show ?thesis
    using assms(3) by (simp add: seg_config_of_def)
qed

lemma new_segment_fresh:
  assumes calm: "calm env" and cfg: "cfg_ok cfg" and "tidy B d" and "b \<notin> B"
  shows "\<exists>sg. new_segment env cfg b d = Done (Inr sg) \<and> seg_holds [] sg \<and> seg_state cfg sg \<and>
    sg_base sg = b \<and> sg_next sg = b \<and> \<not> is_maxed sg"
proof -
  have "unat (max_index_bytes (seg_config_of cfg)) < 12 * slot_limit"
    using cfg by (simp add: cfg_ok_def seg_config_of_def)
  from segment_new_empty [OF calm this tidy_absent [OF assms(3,4)]] obtain sg where
    sg: "new_segment env cfg b d = Done (Inr sg)" "seg_holds [] sg" "seg_ready sg" "sg_base sg = b"
      "sg_next sg = b" "sg_cfg sg = seg_config_of cfg" "so_size (sg_store sg) = 0" "so_buf (sg_store sg) = []"
    by (auto simp: new_segment_def)
  moreover have "\<not> is_maxed sg"
    using sg cfg by (auto simp: is_maxed_def index_len_def store_len_def seg_holds_def index_holds_def
        cfg_ok_def seg_config_of_def word_le_nat_alt)
  ultimately show ?thesis by (auto simp: seg_state_def)
qed

text \<open>A log is its older segments and the active one.\<close>

lemma log_holdsE:
  assumes "log_holds start rs lg"
  obtains ss sg r1 r2 where "lg_segments lg = ss @ [sg]" "lg_active lg = length ss"
    "active_segment lg = sg" "rs = r1 @ r2" "seg_chain start ss r1" "chain_end start ss = sg_base sg"
    "seg_holds r2 sg"
proof -
  obtain ss sg where segs: "lg_segments lg = ss @ [sg]"
    using assms by (metis log_holds_def rev_exhaust)
  with assms obtain r1 r2 where "rs = r1 @ r2" "seg_chain start ss r1" "chain_end start ss = sg_base sg"
    "seg_holds r2 sg"
    by (auto simp: log_holds_def seg_chain_append)
  with segs assms that show ?thesis by (simp add: log_holds_def active_segment_def)
qed

lemma seg_chain_snoc:
  "seg_chain start ss r1 \<Longrightarrow> chain_end start ss = sg_base sg \<Longrightarrow> seg_holds r2 sg \<Longrightarrow>
   seg_chain start (ss @ [sg]) (r1 @ r2)"
  by (auto simp: seg_chain_append)

lemma log_append_calm:
  assumes calm: "calm env" and holds: "log_holds start rs lg" and room: "log_room r lg"
  shows "\<exists>lg'. log_append env r lg = Done (lg', Inr (sg_next (active_segment lg))) \<and>
    log_holds start (rs @ [r]) lg' \<and> lg_cfg lg' = lg_cfg lg \<and> lg_dir lg' = lg_dir lg \<and> lg_files lg' = lg_files lg"
proof -
  obtain ss sg r1 r2 where segs: "lg_segments lg = ss @ [sg]" "lg_active lg = length ss"
    "active_segment lg = sg" and rs: "rs = r1 @ r2" and ch: "seg_chain start ss r1"
    "chain_end start ss = sg_base sg" and sgh: "seg_holds r2 sg"
    using holds by (rule log_holdsE)
  note h = holds [unfolded log_holds_def segs]
  have st: "seg_state (lg_cfg lg) sg" "list_all (seg_state (lg_cfg lg)) ss" and cfg: "cfg_ok (lg_cfg lg)"
    and sorted: "sorted_wrt (<) (map sg_base ss @ [sg_base sg])"
    and files: "tidy (insert (sg_base sg) (sg_base ` set ss)) (lg_files lg)" using h by simp_all
  have "unat (ix_size (sg_index sg)) + 12 \<le> unat (max_index_bytes (sg_cfg sg))"
    using not_maxed_room [OF sgh _ _ cfg] h st by (simp add: seg_state_def)
  then have "seg_room r sg" using room segs by (simp add: seg_room_def log_room_def)
  then obtain sg1 where sg1: "segment_append env r sg = Done (sg1, Inr (sg_next sg))"
    "seg_holds (r2 @ [r]) sg1" "seg_ready sg1" "sg_base sg1 = sg_base sg" "sg_cfg sg1 = sg_cfg sg"
    "sync_writes (sg_cfg sg) \<longrightarrow> so_buf (sg_store sg1) = []"
    using segment_append_calm [OF calm sgh] st by (auto simp: seg_state_def)
  have st1: "seg_state (lg_cfg lg) sg1" using sg1 st by (auto simp: seg_state_def seg_config_of_def)
  have nxt: "unat (sg_next sg1) = unat (sg_next sg) + 1"
    using sg1(2,4) sgh by (simp add: seg_holds_def)
  have chain1: "seg_chain start (ss @ [sg1]) (rs @ [r])"
    using seg_chain_snoc [OF ch(1) _ sg1(2)] ch(2) sg1(4) rs by simp
  let ?lg1 = "lg\<lparr>lg_segments := ss @ [sg1]\<rparr>"
  show ?thesis
  proof (cases "is_maxed sg1")
    case False
    then have "log_append env r lg = Done (?lg1, Inr (sg_next sg))"
      using sg1(1) segs by (simp add: log_append_def Let_def)
    moreover have "log_holds start (rs @ [r]) ?lg1"
      using h False chain1 st1 sg1(4) segs(2) by (simp add: log_holds_def)
    ultimately show ?thesis using segs by auto
  next
    case True
    have "unat (sg_base sg) < unat (sg_next sg1)" using sg1(2,4) by (simp add: seg_holds_def)
    then have new: "sg_base sg < sg_next sg1" by (simp add: word_less_nat_alt)
    then have above: "b < sg_next sg1" if "b \<in> set (map sg_base ss)" for b
      using sorted that by (auto simp: sorted_wrt_append)
    then have "sg_next sg1 \<notin> set (map sg_base (ss @ [sg]))" using new by auto
    from new_segment_fresh [OF calm cfg _ this] h obtain sg2 where
      sg2: "new_segment env (lg_cfg lg) (sg_next sg1) (lg_files lg) = Done (Inr sg2)" "seg_holds [] sg2"
      "seg_state (lg_cfg lg) sg2" "sg_base sg2 = sg_next sg1" "\<not> is_maxed sg2"
      by auto
    have add: "add_w (sg_next sg) 1 = Done (sg_next sg1)" using nxt by (simp add: add_w_eq_Done)
    let ?lg2 = "lg\<lparr>lg_segments := (ss @ [sg1]) @ [sg2], lg_active := length ss + 1\<rparr>"
    have "log_append env r lg = Done (?lg2, Inr (sg_next sg))"
      using sg1(1) segs True sg2(1) add by (simp add: log_append_def Let_def)
    moreover have chain2: "seg_chain start ((ss @ [sg1]) @ [sg2]) (rs @ [r])"
      using seg_chain_snoc [OF chain1 _ sg2(2)] sg2(4) by (simp add: chain_end_def)
    moreover have sorted2: "sorted_wrt (<) (map sg_base ((ss @ [sg1]) @ [sg2]))"
      using sorted above new sg1(4) sg2(4) by (simp add: sorted_wrt_append)
    moreover have files2: "tidy (set (map sg_base ((ss @ [sg1]) @ [sg2]))) (lg_files lg)"
      using sg1(4) by (intro tidy_mono [OF files]) auto
    moreover have "log_holds start (rs @ [r]) ?lg2"
      unfolding log_holds_def using chain2 sorted2 files2 cfg st(2) st1 sg2(3,5)
      by (simp del: seg_chain.simps)
    ultimately show ?thesis
      using segs(3) by (intro exI [of _ ?lg2]) simp
  qed
qed

lemma log_next_holds:
  assumes "log_holds start rs lg"
  shows "log_next_offset lg = Done (sg_next (active_segment lg))"
    and "unat (sg_next (active_segment lg)) = unat start + length rs"
proof -
  obtain ss sg r1 r2 where "lg_segments lg = ss @ [sg]" "lg_active lg = length ss"
    "active_segment lg = sg" "rs = r1 @ r2" "seg_chain start ss r1"
    "chain_end start ss = sg_base sg" "seg_holds r2 sg"
    using assms by (rule log_holdsE)
  with seg_chain_length [of start ss r1] show "log_next_offset lg = Done (sg_next (active_segment lg))"
    and "unat (sg_next (active_segment lg)) = unat start + length rs"
    by (simp_all add: log_next_offset_def active_segment_def seg_holds_def)
qed

section \<open>Reading\<close>

lemma find_segment_chain:
  assumes "seg_chain start sgs rs" and "i < length rs" and "unat off = unat start + i"
  shows "\<exists>ss sg ts r2 j. sgs = ss @ sg # ts \<and> find_segment sgs off = length ss \<and>
    seg_holds r2 sg \<and> j < length r2 \<and> unat off = unat (sg_base sg) + j \<and> r2 ! j = rs ! i"
  using assms
proof (induction sgs arbitrary: start rs i)
  case Nil
  then show ?case by simp
next
  case (Cons sg sgs)
  then obtain r1 r2 where rs: "rs = r1 @ r2" and sg: "seg_holds r1 sg" "sg_base sg = start"
    and ch: "seg_chain (sg_next sg) sgs r2" by auto
  have nxt: "unat (sg_next sg) = unat start + length r1" using sg by (simp add: seg_holds_def)
  show ?case
  proof (cases "i < length r1")
    case True
    then have "is_in_range sg off"
      using Cons.prems(3) sg nxt by (simp add: is_in_range_def word_less_nat_alt word_le_nat_alt)
    with True sg rs Cons.prems(3) show ?thesis
      by (intro exI [of _ "[]"] exI [of _ sg] exI [of _ sgs] exI [of _ r1] exI [of _ i])
        (simp add: nth_append)
  next
    case False
    then have out: "\<not> is_in_range sg off"
      using Cons.prems(3) nxt by (simp add: is_in_range_def word_less_nat_alt)
    have "i - length r1 < length r2" "unat off = unat (sg_next sg) + (i - length r1)"
      using False Cons.prems rs nxt by auto
    from Cons.IH [OF ch this] obtain ss sg' ts r2' j where
      "sgs = ss @ sg' # ts" "find_segment sgs off = length ss" "seg_holds r2' sg'" "j < length r2'"
      "unat off = unat (sg_base sg') + j" "r2' ! j = r2 ! (i - length r1)"
      by blast
    with out False rs show ?thesis
      by (intro exI [of _ "sg # ss"] exI [of _ sg'] exI [of _ ts] exI [of _ r2'] exI [of _ j])
        (simp add: nth_append)
  qed
qed

lemma find_segment_none:
  assumes "seg_chain start sgs rs" and "unat off < unat start \<or> unat start + length rs \<le> unat off"
  shows "find_segment sgs off = length sgs"
  using assms
proof (induction sgs arbitrary: start rs)
  case Nil
  then show ?case by simp
next
  case (Cons sg sgs)
  then obtain r1 r2 where rs: "rs = r1 @ r2" and sg: "seg_holds r1 sg" "sg_base sg = start"
    and ch: "seg_chain (sg_next sg) sgs r2" by auto
  have nxt: "unat (sg_next sg) = unat start + length r1" using sg by (simp add: seg_holds_def)
  then have "\<not> is_in_range sg off"
    using Cons.prems(2) sg rs by (auto simp: is_in_range_def word_less_nat_alt word_le_nat_alt)
  moreover have "unat off < unat (sg_next sg) \<or> unat (sg_next sg) + length r2 \<le> unat off"
    using Cons.prems(2) rs nxt by auto
  ultimately show ?case using Cons.IH [OF ch] by simp
qed

text \<open>A change of one segment that keeps its records, its range and its readiness.\<close>

definition same_segment :: "segment \<Rightarrow> segment \<Rightarrow> bool" where
  "same_segment sg sg' \<longleftrightarrow> (\<forall>rs. seg_holds rs sg \<longrightarrow> seg_holds rs sg') \<and>
     sg_base sg' = sg_base sg \<and> sg_next sg' = sg_next sg \<and> sg_cfg sg' = sg_cfg sg"

lemma seg_chain_map:
  "seg_chain start sgs rs \<Longrightarrow> list_all2 same_segment sgs ts \<Longrightarrow> seg_chain start ts rs"
proof (induction sgs arbitrary: start rs ts)
  case Nil
  then show ?case by simp
next
  case (Cons sg sgs)
  then obtain t ts' where ts: "ts = t # ts'" and "same_segment sg t" "list_all2 same_segment sgs ts'"
    by (auto simp: list_all2_Cons1)
  with Cons show ?case
    by (auto simp: same_segment_def) blast
qed

lemma list_all2_same_base: "list_all2 same_segment sgs ts \<Longrightarrow> map sg_base ts = map sg_base sgs"
  by (induction rule: list_all2_induct) (auto simp: same_segment_def)

definition flushed_segment :: "segment \<Rightarrow> segment" where
  "flushed_segment sg =
     sg\<lparr>sg_store := (sg_store sg)\<lparr>so_file := content (sg_store sg), so_buf := []\<rparr>\<rparr>"

lemma log_read_chain:
  assumes calm: "calm env" and ch: "seg_chain start (lg_segments lg) rs"
    and live: "\<forall>sg \<in> set (lg_segments lg). index_live (sg_index sg)"
    and i: "i < length rs" "unat off = unat start + i"
  shows "\<exists>ts. log_read env off lg = Done (lg\<lparr>lg_segments := ts\<rparr>, Inr (rs ! i)) \<and>
    list_all2 (\<lambda>sg t. t \<in> {sg, flushed_segment sg}) (lg_segments lg) ts"
proof -
  obtain ss sg us r2 j where segs: "lg_segments lg = ss @ sg # us"
    "find_segment (lg_segments lg) off = length ss"
    and sg: "seg_holds r2 sg" "j < length r2" "unat off = unat (sg_base sg) + j" "r2 ! j = rs ! i"
    using find_segment_chain [OF ch i] by (elim exE conjE) (rule that)
  have "index_live (sg_index sg)" using live segs by simp
  from segment_read_calm [OF calm sg(1) this sg(2,3)]
  have "log_read env off lg = Done (lg\<lparr>lg_segments := ss @ flushed_segment sg # us\<rparr>, Inr (rs ! i))"
    using segs sg(4) by (simp add: log_read_def Let_def list_update_append flushed_segment_def)
  moreover have "list_all2 (\<lambda>sg t. t \<in> {sg, flushed_segment sg}) (lg_segments lg) (ss @ flushed_segment sg # us)"
    using segs by (simp add: list_all2_appendI list_all2_same)
  ultimately show ?thesis by blast
qed

lemma flushed_segment_same: "same_segment sg (flushed_segment sg)"
  by (simp add: same_segment_def flushed_segment_def)

lemma flushed_segment_state:
  "seg_state cfg sg \<Longrightarrow> seg_state cfg (flushed_segment sg)"
  "is_maxed (flushed_segment sg) = is_maxed sg"
  by (simp_all add: seg_state_def flushed_segment_def is_maxed_def store_len_def)

lemma log_holds_flushed:
  assumes holds: "log_holds start rs lg"
    and fl: "list_all2 (\<lambda>sg t. t \<in> {sg, flushed_segment sg}) (lg_segments lg) ts"
  shows "log_holds start rs (lg\<lparr>lg_segments := ts\<rparr>)"
proof -
  have same: "list_all2 same_segment (lg_segments lg) ts"
    using fl by (rule list_all2_mono) (auto simp: flushed_segment_same, simp add: same_segment_def)
  have "ts \<noteq> []" "length ts = length (lg_segments lg)"
    using holds fl by (auto simp: log_holds_def dest: list_all2_lengthD)
  moreover from this have "last ts \<in> {last (lg_segments lg), flushed_segment (last (lg_segments lg))}"
    using fl holds by (auto simp: last_conv_nth list_all2_conv_all_nth log_holds_def)
  then have "is_maxed (last ts) = is_maxed (last (lg_segments lg))"
    by (auto simp: flushed_segment_state)
  moreover have "list_all (seg_state (lg_cfg lg)) ts"
    using fl holds flushed_segment_state(1)
    by (fastforce simp: log_holds_def list_all_length list_all2_conv_all_nth)
  ultimately show ?thesis
    using holds seg_chain_map [OF _ same] list_all2_same_base [OF same]
    by (simp add: log_holds_def del: set_map)
qed

lemma log_read_calm:
  assumes "calm env" and holds: "log_holds start rs lg"
    and "i < length rs" and "unat off = unat start + i"
  shows "\<exists>lg'. log_read env off lg = Done (lg', Inr (rs ! i)) \<and> log_holds start rs lg'"
proof -
  have "seg_chain start (lg_segments lg) rs" "\<forall>sg \<in> set (lg_segments lg). index_live (sg_index sg)"
    using holds by (auto simp: log_holds_def list_all_iff seg_state_def seg_ready_def)
  from log_read_chain [OF assms(1) this assms(3,4)] log_holds_flushed [OF holds] show ?thesis by blast
qed

lemma log_read_miss:
  assumes "log_holds start rs lg"
    and "unat off < unat start \<or> unat start + length rs \<le> unat off"
  shows "log_read env off lg = Done (lg, Inl (IoError UnexpectedEof ''offset out of range''))"
  using assms find_segment_none [of start "lg_segments lg" rs off]
  by (simp add: log_read_def log_holds_def)

section \<open>The interface of a log\<close>

text \<open>
  \<open>holds b rs s\<close> says that the log \<open>s\<close> starts at offset \<open>b\<close> and contains the records \<open>rs\<close>. The
  laws are those of an append-only sequence with addresses.
\<close>

definition offset_at :: "u64 \<Rightarrow> nat \<Rightarrow> u64" where
  "offset_at b i = b + word_of_nat i"

definition append_step :: "('s \<Rightarrow> byte list \<Rightarrow> ('s \<times> u64 io_result) outcome) \<Rightarrow>
    (byte list \<Rightarrow> 's \<Rightarrow> bool) \<Rightarrow> 's \<Rightarrow> byte list \<times> u64 \<Rightarrow> 's \<Rightarrow> bool" where
  "append_step append_op room s l s' \<longleftrightarrow>
     room (fst l) s \<and> append_op s (fst l) = Done (s', Inr (snd l))"

locale record_log =
  fixes append_op :: "'s \<Rightarrow> byte list \<Rightarrow> ('s \<times> u64 io_result) outcome"
    and read_op :: "'s \<Rightarrow> u64 \<Rightarrow> ('s \<times> byte list io_result) outcome"
    and holds :: "u64 \<Rightarrow> byte list list \<Rightarrow> 's \<Rightarrow> bool"
    and room :: "byte list \<Rightarrow> 's \<Rightarrow> bool"
  assumes append_law: "holds b rs s \<Longrightarrow> room r s \<Longrightarrow>
      \<exists>s'. append_op s r = Done (s', Inr (offset_at b (length rs))) \<and> holds b (rs @ [r]) s'"
    and read_law: "holds b rs s \<Longrightarrow> i < length rs \<Longrightarrow>
      \<exists>s'. read_op s (offset_at b i) = Done (s', Inr (rs ! i)) \<and> holds b rs s'"
    and miss_law: "holds b rs s \<Longrightarrow> unat off < unat b \<or> unat b + length rs \<le> unat off \<Longrightarrow>
      \<exists>e. read_op s off = Done (s, Inl e)"
begin

lemma append_then_read:
  assumes "holds b rs s" and "room r s"
  shows "\<exists>s' s''. append_op s r = Done (s', Inr (offset_at b (length rs))) \<and>
    read_op s' (offset_at b (length rs)) = Done (s'', Inr r) \<and> holds b (rs @ [r]) s''"
proof -
  obtain s' where s': "append_op s r = Done (s', Inr (offset_at b (length rs)))" "holds b (rs @ [r]) s'"
    using append_law [OF assms] by blast
  moreover obtain s'' where "read_op s' (offset_at b (length rs)) = Done (s'', Inr r)"
    "holds b (rs @ [r]) s''"
    using read_law [OF s'(2), of "length rs"] by auto
  ultimately show ?thesis by blast
qed

lemma append_steps:
  assumes "steps (append_step append_op room) s ls s'" and "holds b rs s"
  shows "holds b (rs @ map fst ls) s' \<and>
    map snd ls = map (offset_at b) [length rs..<length rs + length ls]"
  using assms
proof (induction arbitrary: rs rule: steps.induct)
  case (steps_nil s)
  then show ?case by simp
next
  case (steps_cons s l t ls u)
  then obtain r off where l: "l = (r, off)" and "room r s" "append_op s r = Done (t, Inr off)"
    by (cases l) (auto simp: append_step_def)
  with append_law [OF steps_cons.prems, of r] have off: "off = offset_at b (length rs)"
    and "holds b (rs @ [r]) t" by auto
  from steps_cons.IH [OF this(2)] have "holds b ((rs @ [r]) @ map fst ls) u"
    "map snd ls = map (offset_at b) [Suc (length rs)..<Suc (length rs) + length ls]" by simp_all
  with l off show ?case by (simp add: upt_conv_Cons del: upt_Suc)
qed

lemma read_after_steps:
  assumes "steps (append_step append_op room) s ls s'" and "holds b rs s" and "(r, off) \<in> set ls"
  shows "\<exists>s''. read_op s' off = Done (s'', Inr r)"
proof -
  obtain i where i: "i < length ls" "ls ! i = (r, off)"
    using assms(3) by (auto simp: in_set_conv_nth)
  note run = append_steps [OF assms(1,2)]
  have "map snd ls ! i = offset_at b (length rs + i)" using run i(1) by simp
  then have off: "off = offset_at b (length rs + i)" using i by simp
  from run i obtain s'' where "read_op s' (offset_at b (length rs + i)) =
      Done (s'', Inr ((rs @ map fst ls) ! (length rs + i)))"
    using read_law [of b "rs @ map fst ls" s' "length rs + i"] by auto
  with i off show ?thesis by (simp add: nth_append)
qed

end

lemma unat_offset_at: "unat b + i < 2 ^ 64 \<Longrightarrow> unat (offset_at b i) = unat b + i"
  for b :: u64
  using unat_add_lem' [of b "word_of_nat i"] by (simp add: offset_at_def unat_of_nat)

lemma seg_holds_bound: "seg_holds rs sg \<Longrightarrow> unat (sg_base sg) + length rs < 2 ^ 64"
  using unsigned_less [of "sg_next sg", where 'a = nat] by (simp add: seg_holds_def)

lemma log_holds_bound: "log_holds b rs lg \<Longrightarrow> unat b + length rs < 2 ^ 64"
  using log_next_holds(2) [of b rs lg] unsigned_less [of "sg_next (active_segment lg)", where 'a = nat]
  by simp

lemma segment_read_miss:
  "seg_holds rs sg \<Longrightarrow> unat off < unat (sg_base sg) \<or> unat (sg_base sg) + length rs \<le> unat off \<Longrightarrow>
   segment_read env off sg = Done (sg, Inl (IoError InvalidInput ''offset out of range''))"
  by (auto simp: segment_read_def seg_holds_def word_less_nat_alt word_le_nat_alt)

interpretation one_segment: record_log "\<lambda>sg r. segment_append env r sg" "\<lambda>sg off. segment_read env off sg"
  "\<lambda>b rs sg. calm env \<and> seg_holds rs sg \<and> seg_ready sg \<and> sg_base sg = b" seg_room for env
proof
  fix b rs sg r
  assume h: "calm env \<and> seg_holds rs sg \<and> seg_ready sg \<and> sg_base sg = b" and "seg_room r sg"
  moreover have "sg_next sg = offset_at b (length rs)"
    using h seg_holds_bound [of rs sg] by (simp add: word_unat_eq_iff unat_offset_at seg_holds_def)
  ultimately show "\<exists>s'. segment_append env r sg = Done (s', Inr (offset_at b (length rs))) \<and>
      calm env \<and> seg_holds (rs @ [r]) s' \<and> seg_ready s' \<and> sg_base s' = b"
    using segment_append_calm [of env rs sg r] by auto
next
  fix b rs sg i
  assume h: "calm env \<and> seg_holds rs sg \<and> seg_ready sg \<and> sg_base sg = b" and "i < length rs"
  then show "\<exists>s'. segment_read env (offset_at b i) sg = Done (s', Inr (rs ! i)) \<and>
      calm env \<and> seg_holds rs s' \<and> seg_ready s' \<and> sg_base s' = b"
    using segment_read_calm [of env rs sg i "offset_at b i"] seg_holds_bound [of rs sg]
    by (simp add: unat_offset_at seg_ready_def [of sg])
next
  fix b rs sg and off :: u64
  assume "calm env \<and> seg_holds rs sg \<and> seg_ready sg \<and> sg_base sg = b"
    and "unat off < unat b \<or> unat b + length rs \<le> unat off"
  then show "\<exists>e. segment_read env off sg = Done (sg, Inl e)"
    using segment_read_miss [of rs sg off env] by blast
qed

interpretation whole_log: record_log "\<lambda>lg r. log_append env r lg" "\<lambda>lg off. log_read env off lg"
  "\<lambda>b rs lg. calm env \<and> log_holds b rs lg" log_room for env
proof
  fix b rs lg r
  assume h: "calm env \<and> log_holds b rs lg" and "log_room r lg"
  moreover have "sg_next (active_segment lg) = offset_at b (length rs)"
    using h log_next_holds(2) [of b rs lg] log_holds_bound [of b rs lg]
    by (simp add: word_unat_eq_iff unat_offset_at)
  ultimately show "\<exists>s'. log_append env r lg = Done (s', Inr (offset_at b (length rs))) \<and>
      calm env \<and> log_holds b (rs @ [r]) s'"
    using log_append_calm [of env b rs lg r] by auto
next
  fix b rs lg i
  assume "calm env \<and> log_holds b rs lg" and "i < length rs"
  then show "\<exists>s'. log_read env (offset_at b i) lg = Done (s', Inr (rs ! i)) \<and> calm env \<and> log_holds b rs s'"
    using log_read_calm [of env b rs lg i "offset_at b i"] log_holds_bound [of b rs lg]
    by (auto simp: unat_offset_at)
next
  fix b rs lg and off :: u64
  assume "calm env \<and> log_holds b rs lg" and "unat off < unat b \<or> unat b + length rs \<le> unat off"
  then show "\<exists>e. log_read env off lg = Done (lg, Inl e)"
    using log_read_miss [of b rs lg off env] by blast
qed

end
