(* ===== verification/Log_Recovery.thy ===== *)
theory Log_Recovery
  imports Segmented_Log
begin

text \<open>
  Opening a log again: the scan of the directory finds exactly the segments, whatever order
  the directory lists its entries in, and every segment that was closed, or flushed before
  the process stopped, comes back with its records.
\<close>

section \<open>The scan of the directory\<close>

definition named_offsets :: "directory \<Rightarrow> u64 set" where
  "named_offsets d = {off. \<exists>name f. (name, FileEntry f) \<in> set d \<and> name_offset name = Some off}"

lemma scan_dir_set: "set (scan_dir d offs) = set offs \<union> named_offsets d"
proof (induction d offs rule: scan_dir.induct)
  case (1 offs)
  show ?case by (simp add: named_offsets_def)
next
  case (2 name es offs)
  then show ?case by (auto simp: named_offsets_def)
next
  case (3 name f es offs)
  then show ?case by (auto simp: named_offsets_def split: option.splits)
qed

lemma scan_dir_distinct: "distinct offs \<Longrightarrow> distinct (scan_dir d offs)"
  by (induction d offs rule: scan_dir.induct) (auto split: option.splits)

lemma scan_dir_sorted: "sort (scan_dir d []) = sorted_list_of_set (named_offsets d)"
proof -
  have "sorted (sort (scan_dir d []))" "distinct (sort (scan_dir d []))"
    "set (sort (scan_dir d [])) = named_offsets d"
    using scan_dir_distinct [of "[]" d] scan_dir_set [of d "[]"] by simp_all
  then show ?thesis
    by (metis sorted_list_of_set.idem_if_sorted_distinct)
qed

lemma tidy_named: "tidy B d \<Longrightarrow> named_offsets d \<subseteq> B"
  by (auto simp: tidy_def named_offsets_def)

lemma log_new_fresh:
  assumes calm: "calm env" and cfg: "cfg_ok cfg" and tidy: "tidy {} d"
  shows "\<exists>lg. log_new env cfg dir (Some d) = Done (Inr lg) \<and> log_holds (initial_offset cfg) [] lg \<and>
    lg_cfg lg = cfg \<and> lg_files lg = d"
proof -
  have "scan_dir d [] = []"
    using tidy_named [OF tidy] scan_dir_set [of d "[]"] by simp
  moreover obtain sg where "new_segment env cfg (initial_offset cfg) d = Done (Inr sg)"
    "seg_holds [] sg" "seg_state cfg sg" "sg_base sg = initial_offset cfg" "\<not> is_maxed sg"
    using new_segment_fresh [OF calm cfg tidy, of "initial_offset cfg"] by auto
  ultimately show ?thesis
    using calm cfg tidy_mono [OF tidy]
    by (simp add: log_new_def calm_simps log_holds_def)
qed

section \<open>The directory a stopped log leaves\<close>

lemma hm_insert_set: "set (hm_insert k v d) \<subseteq> insert (k, v) (set d)"
  by (induction d) (auto simp: hm_insert_def)

lemma tidy_insert:
  assumes "tidy B d" and "\<And>off. name_offset name = Some off \<Longrightarrow> off \<in> B"
  shows "tidy B (hm_insert name (FileEntry f) d)"
  using assms hm_insert_set [of name "FileEntry f" d] unfolding tidy_def by blast

lemma tidy_segment_image: "tidy B d \<Longrightarrow> sg_base sg \<in> B \<Longrightarrow> tidy B (segment_image sg d)"
  by (auto simp: segment_image_def intro!: tidy_insert)

lemma tidy_images: "tidy B d \<Longrightarrow> sg_base ` set sgs \<subseteq> B \<Longrightarrow> tidy B (fold segment_image sgs d)"
  by (induction sgs arbitrary: d) (auto simp: tidy_segment_image)

lemma segment_image_other:
  "sg_base sg \<noteq> b \<Longrightarrow> map_of (segment_image sg d) (store_name b) = map_of d (store_name b)"
  "sg_base sg \<noteq> b \<Longrightarrow> map_of (segment_image sg d) (index_name b) = map_of d (index_name b)"
  by (simp_all add: segment_image_def)

lemma images_other:
  assumes "b \<notin> sg_base ` set sgs"
  shows "map_of (fold segment_image sgs d) (store_name b) = map_of d (store_name b)"
    and "map_of (fold segment_image sgs d) (index_name b) = map_of d (index_name b)"
  using assms by (induction sgs arbitrary: d) (auto simp: segment_image_other)

lemma images_files:
  assumes "distinct (map sg_base sgs)" and "sg \<in> set sgs"
  shows "map_of (fold segment_image sgs d) (store_name (sg_base sg)) = Some (FileEntry (so_file (sg_store sg)))"
    and "map_of (fold segment_image sgs d) (index_name (sg_base sg)) = Some (FileEntry (index_file (sg_index sg)))"
proof -
  obtain xs ys where sgs: "sgs = xs @ sg # ys" using assms(2) by (meson split_list)
  then have "sg_base sg \<notin> sg_base ` set ys" using assms(1) by auto
  then show "map_of (fold segment_image sgs d) (store_name (sg_base sg)) = Some (FileEntry (so_file (sg_store sg)))"
    and "map_of (fold segment_image sgs d) (index_name (sg_base sg)) = Some (FileEntry (index_file (sg_index sg)))"
    by (simp_all add: sgs images_other segment_image_files)
qed

text \<open>A log whose process has stopped with nothing left in a writer's buffer.\<close>

definition seg_stopped :: "log_config \<Rightarrow> segment \<Rightarrow> bool" where
  "seg_stopped cfg sg \<longleftrightarrow> sg_cfg sg = seg_config_of cfg \<and> store_inv (sg_store sg) \<and>
     so_buf (sg_store sg) = [] \<and>
     (index_live (sg_index sg) \<or> ix_file_len (sg_index sg) = unat (ix_size (sg_index sg)))"

definition log_stopped :: "u64 \<Rightarrow> byte list list \<Rightarrow> log \<Rightarrow> bool" where
  "log_stopped start rs lg \<longleftrightarrow>
     lg_segments lg \<noteq> [] \<and> cfg_ok (lg_cfg lg) \<and> seg_chain start (lg_segments lg) rs \<and>
     list_all (seg_stopped (lg_cfg lg)) (lg_segments lg) \<and>
     sorted_wrt (<) (map sg_base (lg_segments lg)) \<and>
     tidy (set (map sg_base (lg_segments lg))) (lg_files lg) \<and>
     \<not> is_maxed (last (lg_segments lg))"

lemma sync_log_stopped:
  assumes "log_holds start rs lg" and "log_sync_writes (lg_cfg lg)"
  shows "log_stopped start rs lg"
  using assms
  by (auto simp: log_holds_def log_stopped_def seg_state_def seg_stopped_def seg_ready_def list_all_iff)

section \<open>Opening again\<close>

lemma list_all2_exists: "\<forall>x \<in> set xs. \<exists>y. P x y \<Longrightarrow> \<exists>ys. list_all2 P xs ys"
  by (induction xs) (auto simp: list_all2_Cons1)

lemma seg_chain_each: "seg_chain start sgs rs \<Longrightarrow> sg \<in> set sgs \<Longrightarrow> \<exists>r. seg_holds r sg"
  by (induction sgs arbitrary: start rs) auto

definition reopened :: "segment \<Rightarrow> segment \<Rightarrow> bool" where
  "reopened sg sg' \<longleftrightarrow> same_segment sg sg' \<and> seg_ready sg' \<and> so_buf (sg_store sg') = [] \<and>
     (is_maxed sg' \<longleftrightarrow> is_maxed sg)"

lemma new_segment_reopens:
  assumes calm: "calm env" and st: "seg_stopped cfg sg" and "seg_holds r sg"
    and files: "map_of d (store_name (sg_base sg)) = Some (FileEntry (so_file (sg_store sg)))"
      "map_of d (index_name (sg_base sg)) = Some (FileEntry (index_file (sg_index sg)))"
  shows "\<exists>sg'. new_segment env cfg (sg_base sg) d = Done (Inr sg') \<and> reopened sg sg'"
proof -
  have again: "\<exists>sg'. new_segment env cfg (sg_base sg) d = Done (Inr sg') \<and>
    seg_holds rs sg' \<and> seg_ready sg' \<and> sg_base sg' = sg_base sg \<and> sg_next sg' = sg_next sg \<and>
    sg_cfg sg' = sg_cfg sg \<and> so_buf (sg_store sg') = [] \<and>
    so_size (sg_store sg') = word_of_nat (length (content (sg_store sg)))" if "seg_holds rs sg" for rs
    using segment_reopen [OF calm that _ _ files] st by (simp add: seg_stopped_def new_segment_def)
  obtain sg' where sg': "new_segment env cfg (sg_base sg) d = Done (Inr sg')" "seg_holds r sg'"
    "seg_ready sg'" "so_buf (sg_store sg') = []" "sg_cfg sg' = sg_cfg sg"
    and sz: "so_size (sg_store sg') = word_of_nat (length (content (sg_store sg)))"
    and same: "sg_base sg' = sg_base sg" "sg_next sg' = sg_next sg"
    using again [OF assms(3)] by blast
  have "seg_holds rs sg'" if "seg_holds rs sg" for rs using again [OF that] sg'(1) by auto
  moreover have "ix_size (sg_index sg') = ix_size (sg_index sg)"
    using seg_holds_size [OF assms(3)] seg_holds_size [OF sg'(2)] by (simp add: word_unat_eq_iff)
  moreover have "length (content (sg_store sg)) = unat (so_size (sg_store sg))"
    using st by (simp add: seg_stopped_def store_inv_def)
  then have "so_size (sg_store sg') = so_size (sg_store sg)" using sz by simp
  ultimately show ?thesis
    using sg' same by (auto simp: reopened_def same_segment_def is_maxed_def index_len_def store_len_def)
qed

lemma open_segments_all:
  "list_all2 (\<lambda>b sg. new_segment env cfg b d = Done (Inr sg)) bs sgs \<Longrightarrow>
   open_segments env cfg d bs acc = Done (Inr (acc @ sgs))"
  by (induction bs sgs arbitrary: acc rule: list_all2_induct) simp_all

lemma image_offsets:
  assumes "distinct (map sg_base (lg_segments lg))"
    and "tidy (set (map sg_base (lg_segments lg))) (lg_files lg)"
  shows "named_offsets (log_image lg) = set (map sg_base (lg_segments lg))"
proof
  show "named_offsets (log_image lg) \<subseteq> set (map sg_base (lg_segments lg))"
    unfolding log_image_def using tidy_named [OF tidy_images [OF assms(2)]] by simp
  show "set (map sg_base (lg_segments lg)) \<subseteq> named_offsets (log_image lg)"
  proof
    fix b assume "b \<in> set (map sg_base (lg_segments lg))"
    then obtain sg where "sg \<in> set (lg_segments lg)" "b = sg_base sg" by auto
    with images_files(1) [OF assms(1)] show "b \<in> named_offsets (log_image lg)"
      unfolding named_offsets_def log_image_def by (metis (mono_tags, lifting) map_of_SomeD
          mem_Collect_eq name_offset_names(1))
  qed
qed

lemma strictly_sorted:
  "sorted_wrt (<) (xs :: 'a::linorder list) \<Longrightarrow> sorted xs \<and> distinct xs"
  by (simp add: strict_sorted_iff)

lemma log_reopen:
  assumes calm: "calm env" and stop: "log_stopped start rs lg"
  shows "\<exists>lg'. log_new env (lg_cfg lg) dir (Some (log_image lg)) = Done (Inr lg') \<and>
    log_holds start rs lg' \<and> lg_cfg lg' = lg_cfg lg"
proof -
  let ?cfg = "lg_cfg lg" and ?sgs = "lg_segments lg" and ?d = "log_image lg"
  have sorted: "sorted (map sg_base ?sgs)" "distinct (map sg_base ?sgs)" and ne: "?sgs \<noteq> []"
    and chain: "seg_chain start ?sgs rs" and cfg: "cfg_ok ?cfg" and last: "\<not> is_maxed (last ?sgs)"
    and tidy: "tidy (set (map sg_base ?sgs)) (lg_files lg)" and st: "list_all (seg_stopped ?cfg) ?sgs"
    and strict: "sorted_wrt (<) (map sg_base ?sgs)"
    using stop strictly_sorted by (auto simp: log_stopped_def)
  have scan: "sort (scan_dir ?d []) = map sg_base ?sgs"
    using sorted image_offsets [OF sorted(2) tidy]
    by (simp add: scan_dir_sorted sorted_list_of_set.idem_if_sorted_distinct del: set_map)
  let ?R = "\<lambda>sg sg'. new_segment env ?cfg (sg_base sg) ?d = Done (Inr sg') \<and> reopened sg sg'"
  have each: "\<exists>sg'. ?R sg sg'"
    if "sg \<in> set ?sgs" for sg
    using new_segment_reopens [OF calm] st seg_chain_each [OF chain that]
      images_files [OF sorted(2) that] that
    by (auto simp: list_all_iff log_image_def)
  have "\<exists>ts. list_all2 ?R ?sgs ts" by (rule list_all2_exists) (use each in simp)
  then obtain ts where ts: "list_all2 ?R ?sgs ts" ..
  have "list_all2 (\<lambda>b sg. new_segment env ?cfg b ?d = Done (Inr sg)) (map sg_base ?sgs) ts"
    using ts by (auto simp: list_all2_conv_all_nth)
  then have opened: "open_segments env ?cfg ?d (map sg_base ?sgs) [] = Done (Inr ts)"
    by (simp add: open_segments_all)
  have re: "list_all2 reopened ?sgs ts" using ts by (auto elim: list_all2_mono)
  then have same: "list_all2 same_segment ?sgs ts" and ts_ne: "ts \<noteq> []"
    using ne by (auto simp: reopened_def elim: list_all2_mono)
  have "seg_state ?cfg t" if "t \<in> set ts" for t
  proof -
    from that re obtain sg where "sg \<in> set ?sgs" "reopened sg t"
      by (metis in_set_conv_nth list_all2_conv_all_nth)
    with st show ?thesis by (auto simp: list_all_iff seg_state_def seg_stopped_def reopened_def same_segment_def)
  qed
  moreover have "\<not> is_maxed (List.last ts)"
    using re last ne ts_ne by (auto simp: last_conv_nth list_all2_conv_all_nth reopened_def)
  moreover have "tidy (set (map sg_base ?sgs)) ?d"
    unfolding log_image_def using tidy by (intro tidy_images) auto
  ultimately show ?thesis
    using opened scan ts_ne cfg seg_chain_map [OF chain same] list_all2_same_base [OF same] strict calm
    by (simp add: log_new_def calm_simps log_holds_def list_all_iff del: set_map)
qed

section \<open>Closing\<close>

definition closed_segment :: "segment \<Rightarrow> segment" where
  "closed_segment sg = sg
    \<lparr>sg_store := (sg_store sg)\<lparr>so_file := content (sg_store sg), so_buf := []\<rparr>,
     sg_index := (sg_index sg)\<lparr>ix_file_len := unat (ix_size (sg_index sg))\<rparr>\<rparr>"

lemma index_holds_file_len [simp]: "index_holds ps (ix\<lparr>ix_file_len := n\<rparr>) = index_holds ps ix"
  by (simp add: index_holds_def)

lemma closed_segment_same: "same_segment sg (closed_segment sg)"
  by (simp add: same_segment_def closed_segment_def seg_holds_def)

lemma close_from_calm:
  assumes "calm env"
  shows "length (lg_segments lg) = i + n \<Longrightarrow> close_from env i n lg = Done (lg
    \<lparr>lg_segments := take i (lg_segments lg) @ map closed_segment (drop i (lg_segments lg))\<rparr>, Inr ())"
proof (induction n arbitrary: i lg)
  case 0
  then show ?case by simp
next
  case (Suc n)
  let ?lg = "lg\<lparr>lg_segments := (lg_segments lg)[i := closed_segment (lg_segments lg ! i)]\<rparr>"
  have i: "i < length (lg_segments lg)" using Suc.prems by simp
  have "close_from env i (Suc n) lg = close_from env (Suc i) n ?lg"
    using i assms by (simp add: segment_close_calm closed_segment_def)
  also have "\<dots> = Done (?lg\<lparr>lg_segments := take (Suc i) (lg_segments ?lg) @
      map closed_segment (drop (Suc i) (lg_segments ?lg))\<rparr>, Inr ())"
    using Suc by simp
  also have "take (Suc i) (lg_segments ?lg) @ map closed_segment (drop (Suc i) (lg_segments ?lg))
      = take i (lg_segments lg) @ map closed_segment (drop i (lg_segments lg))"
    using i by (simp add: take_Suc_conv_app_nth drop_update_cancel flip: Cons_nth_drop_Suc)
  finally show ?case by simp
qed

lemma log_close_calm:
  assumes calm: "calm env" and holds: "log_holds start rs lg"
  shows "\<exists>lg'. log_close env lg = Done (lg', Inr ()) \<and> log_stopped start rs lg' \<and> lg_cfg lg' = lg_cfg lg"
proof -
  let ?sgs = "map closed_segment (lg_segments lg)"
  have ne: "lg_segments lg \<noteq> []" and act: "lg_active lg + 1 = length (lg_segments lg)"
    using holds by (simp_all add: log_holds_def)
  have "log_close env lg = Done (lg\<lparr>lg_segments := ?sgs\<rparr>, Inr ())"
    using close_from_calm [OF calm, of lg 0] act by (simp add: log_close_def)
  moreover have same: "list_all2 same_segment (lg_segments lg) ?sgs"
    by (simp add: list_all2_conv_all_nth closed_segment_same)
  have "log_stopped start rs (lg\<lparr>lg_segments := ?sgs\<rparr>)"
    using holds seg_chain_map [OF _ same] list_all2_same_base [OF same] ne
    by (auto simp: log_stopped_def log_holds_def list_all_iff seg_state_def seg_stopped_def seg_ready_def
        store_inv_def closed_segment_def last_map is_maxed_def index_len_def store_len_def o_def)
  ultimately show ?thesis by auto
qed

end
