(* ===== verification/Log_Theorems.thy ===== *)
theory Log_Theorems
  imports Log_Recovery
begin

text \<open>
  The properties of the log: records read back at the offsets their appends returned, in one
  process and over a restart, and the ways in which the code loses or blocks them.
\<close>

section \<open>Concrete logs\<close>

definition calm_env :: log_env where
  "calm_env = \<lparr>env_fault = (\<lambda>_. None), env_accept = (\<lambda>n. n), env_page = 4096\<rparr>"

definition small_cfg :: "bool \<Rightarrow> log_config" where
  "small_cfg sync = \<lparr>initial_offset = 1, log_sync_writes = sync, max_size_bytes = 24,
                     log_max_store_bytes = 1024\<rparr>"

lemma calm_calm_env: "calm calm_env"
  by (simp add: calm_def calm_env_def)

lemma small_cfg_ok: "cfg_ok (small_cfg sync)"
  by (simp add: cfg_ok_def small_cfg_def slot_limit_def)

lemma tidy_Nil: "tidy B []"
  by (simp add: tidy_def)

text \<open>The active segment is below the store's limit, so room follows from the configuration.\<close>

lemma log_room_cfg:
  assumes "log_holds b rs lg" and "length r < 2 ^ 63"
    and "unat (log_max_store_bytes (lg_cfg lg)) + 8 + length r \<le> 2 ^ 64"
    and "unat b + length rs < 2 ^ 64 - 1"
  shows "log_room r lg"
proof -
  obtain ss sg r1 r2 where segs: "lg_segments lg = ss @ [sg]" and act: "active_segment lg = sg"
    using assms(1) by (rule log_holdsE)
  have "\<not> is_maxed sg" "sg_cfg sg = seg_config_of (lg_cfg lg)"
    using assms(1) segs by (auto simp: log_holds_def seg_state_def)
  then have "unat (so_size (sg_store sg)) < unat (log_max_store_bytes (lg_cfg lg))"
    by (simp add: is_maxed_def store_len_def seg_config_of_def not_le word_less_nat_alt)
  moreover have "sg_next sg < - 1"
    using log_next_holds(2) [OF assms(1)] assms(4) act unat_max_word [where 'a = 64]
    by (simp add: word_less_nat_alt)
  ultimately show ?thesis using assms(2,3) act by (simp add: log_room_def)
qed

lemma small_log:
  "\<exists>lg. log_new calm_env (small_cfg sync) dir (Some []) = Done (Inr lg) \<and> log_holds 1 [] lg \<and>
     lg_cfg lg = small_cfg sync \<and> log_room [7] lg"
proof -
  obtain lg where "log_new calm_env (small_cfg sync) dir (Some []) = Done (Inr lg)"
    and lg: "log_holds 1 [] lg" "lg_cfg lg = small_cfg sync"
    using log_new_fresh [OF calm_calm_env small_cfg_ok tidy_Nil, of sync dir]
    by (auto simp: small_cfg_def)
  moreover have "log_room [7] lg" using lg(2) by (intro log_room_cfg [OF lg(1)]) (simp_all add: small_cfg_def)
  ultimately show ?thesis by blast
qed

abbreviation log_steps :: "log_env \<Rightarrow> log \<Rightarrow> (byte list \<times> u64) list \<Rightarrow> log \<Rightarrow> bool" where
  "log_steps env \<equiv> steps (append_step (\<lambda>lg r. log_append env r lg) log_room)"

lemma one_append:
  assumes "log_append env r lg = Done (lg', Inr off)" and "log_room r lg"
  shows "log_steps env lg [(r, off)] lg'"
  using assms by (simp add: steps_cons_iff append_step_def)

text \<open>A segment whose index has room for one record and holds it.\<close>

lemma one_slot_segment:
  assumes "12 \<le> unat (max_index_bytes cfg)" and "unat (max_index_bytes cfg) < 12 * slot_limit"
  shows "\<exists>sg sg'. segment_new calm_env cfg 1 [] = Done (Inr sg) \<and>
    segment_append calm_env [7] sg = Done (sg', Inr 1) \<and> seg_holds [[7]] sg' \<and> seg_ready sg' \<and>
    sg_base sg' = 1 \<and> sg_cfg sg' = cfg \<and> unat (so_size (sg_store sg')) = 9"
proof -
  obtain sg where sg: "segment_new calm_env cfg 1 [] = Done (Inr sg)" "seg_holds [] sg" "seg_ready sg"
    "sg_base sg = 1" "sg_next sg = 1" "sg_cfg sg = cfg" "so_size (sg_store sg) = 0"
    using segment_new_empty [OF calm_calm_env assms(2), of "[]" 1] by auto
  have empty: "content (sg_store sg) = []" using sg(3,7) by (simp add: seg_ready_def store_inv_def)
  have "seg_room [7] sg" using sg assms(1) seg_holds_size [OF sg(2)]
    by (simp add: seg_room_def word_less_nat_alt unat_max_word)
  from segment_append_calm [OF calm_calm_env sg(2,3) this] obtain sg' where
    "segment_append calm_env [7] sg = Done (sg', Inr 1)" "seg_holds [[7]] sg'" "seg_ready sg'"
    "sg_base sg' = 1" "sg_cfg sg' = cfg" "content (sg_store sg') = frame [7]"
    using sg empty by auto
  moreover from this have "unat (so_size (sg_store sg')) = 9" by (simp add: seg_ready_def store_inv_def)
  ultimately show ?thesis using sg(1) by blast
qed

text \<open>The active segment has no slot left, and nothing will make a new segment.\<close>

definition index_stuck :: "log \<Rightarrow> bool" where
  "index_stuck lg \<longleftrightarrow> lg_active lg < length (lg_segments lg) \<and> seg_ready (active_segment lg) \<and>
     (\<exists>rs. seg_holds rs (active_segment lg) \<and>
        unat (max_index_bytes (sg_cfg (active_segment lg))) < 12 * length rs + 12)"

lemma stuck_append:
  assumes "calm env" and "index_stuck lg"
    and "unat (so_size (sg_store (active_segment lg))) + 8 + length r < 2 ^ 64"
  shows "\<exists>lg'. log_append env r lg = Done (lg', Inl (IoError UnexpectedEof ''index is full'')) \<and>
    index_stuck lg' \<and> length (lg_segments lg') = length (lg_segments lg) \<and>
    log_next_offset lg' = log_next_offset lg \<and>
    content (sg_store (active_segment lg')) = content (sg_store (active_segment lg)) @ frame r"
proof -
  obtain rs where h: "seg_holds rs (active_segment lg)" "seg_ready (active_segment lg)"
    "unat (max_index_bytes (sg_cfg (active_segment lg))) < 12 * length rs + 12"
    and a: "lg_active lg < length (lg_segments lg)"
    using assms(2) by (auto simp: index_stuck_def)
  from segment_append_full [OF assms(1) h assms(3)] obtain sg' where
    "segment_append env r (active_segment lg) = Done (sg', Inl (IoError UnexpectedEof ''index is full''))"
    "seg_holds rs sg'" "seg_ready sg'" "sg_next sg' = sg_next (active_segment lg)"
    "sg_cfg sg' = sg_cfg (active_segment lg)" "content (sg_store sg') = content (sg_store (active_segment lg)) @ frame r"
    by blast
  with a h(3) show ?thesis
    by (auto simp: log_append_def Let_def active_segment_def index_stuck_def log_next_offset_def)
qed

lemma log_append_cfg: "log_append env r lg = Done (lg', x) \<Longrightarrow> lg_cfg lg' = lg_cfg lg"
  apply (auto simp: log_append_def Let_def obind_eq_Done and_then_eq_Done split: if_splits)
  subgoal for sg off base res by (cases res) auto
  done

lemma log_read_cfg: "log_read env off lg = Done (lg', r) \<Longrightarrow> lg_cfg lg' = lg_cfg lg"
  by (auto simp: log_read_def Let_def obind_eq_Done split: if_splits)

lemma log_steps_cfg: "log_steps env lg ls lg' \<Longrightarrow> lg_cfg lg' = lg_cfg lg"
  by (induction rule: steps.induct) (auto simp: append_step_def dest: log_append_cfg)

text \<open>Another log with the records of a run gives the run's reads.\<close>

lemma reads_of_run:
  assumes "log_steps env lg ls lg'" and h: "calm env \<and> log_holds b [] lg"
    and lo: "log_holds b (map fst ls) lo" and "(r, off) \<in> set ls"
  shows "\<exists>l. log_read env off lo = Done (l, Inr r)"
proof -
  obtain i where i: "i < length ls" "ls ! i = (r, off)"
    using assms(4) by (auto simp: in_set_conv_nth)
  have "map snd ls ! i = offset_at b i"
    using whole_log.append_steps [OF assms(1) h] i(1) by simp
  then have "off = offset_at b i" using i by simp
  with whole_log.read_law [of env b "map fst ls" lo i] h lo i show ?thesis by auto
qed

lemma small_run:
  "\<exists>lg lg'. log_new calm_env (small_cfg sync) dir (Some []) = Done (Inr lg) \<and>
     log_append calm_env [7] lg = Done (lg', Inr 1) \<and> log_steps calm_env lg [([7], 1)] lg'"
proof -
  obtain lg where lg: "log_new calm_env (small_cfg sync) dir (Some []) = Done (Inr lg)"
    "log_holds 1 [] lg" "log_room [7] lg"
    using small_log by blast
  then obtain lg' where "log_append calm_env [7] lg = Done (lg', Inr 1)"
    using whole_log.append_law [of calm_env 1 "[]" lg] calm_calm_env by (auto simp: offset_at_def)
  with lg(1,3) one_append show ?thesis by blast
qed

section \<open>Properties\<close>

text \<open>
  C19. On a log with room for a record, \<^verbatim>\<open>append\<close> succeeds and returns the next offset, the
  record reads back at that offset, and every earlier record still reads back at its own.\<close>

theorem log_append_reads_back:
  assumes "calm env" and "log_holds b rs lg" and "log_room r lg"
  shows "\<exists>lg'. log_append env r lg = Done (lg', Inr (offset_at b (length rs))) \<and>
    log_next_offset lg = Done (offset_at b (length rs)) \<and>
    (\<exists>lg''. log_read env (offset_at b (length rs)) lg' = Done (lg'', Inr r)) \<and>
    (\<forall>i < length rs. \<exists>lg''. log_read env (offset_at b i) lg' = Done (lg'', Inr (rs ! i)))"
proof -
  obtain lg' where lg': "log_append env r lg = Done (lg', Inr (offset_at b (length rs)))"
    "calm env \<and> log_holds b (rs @ [r]) lg'"
    using whole_log.append_law assms by blast
  have rd: "\<exists>lg''. log_read env (offset_at b i) lg' = Done (lg'', Inr ((rs @ [r]) ! i))"
    if "i \<le> length rs" for i
    using whole_log.read_law [OF lg'(2), of i] that by auto
  have "log_next_offset lg = Done (offset_at b (length rs))"
    using log_next_holds [OF assms(2)] log_holds_bound [OF assms(2)]
    by (simp add: word_unat_eq_iff unat_offset_at)
  moreover have "\<exists>lg''. log_read env (offset_at b i) lg' = Done (lg'', Inr (rs ! i))" if "i < length rs" for i
    using rd [of i] that by (simp add: nth_append)
  ultimately show ?thesis using lg'(1) rd [of "length rs"] by auto
qed

theorem log_append_reads_back_witness:
  "\<exists>lg lg' lg''. log_new calm_env (small_cfg False) ''data'' (Some []) = Done (Inr lg) \<and>
     log_append calm_env [7] lg = Done (lg', Inr 1) \<and> log_read calm_env 1 lg' = Done (lg'', Inr [7])"
proof -
  obtain lg where lg: "log_new calm_env (small_cfg False) ''data'' (Some []) = Done (Inr lg)"
    "log_holds 1 [] lg" "log_room [7] lg"
    using small_log by blast
  from log_append_reads_back [OF calm_calm_env lg(2,3)] lg(1) show ?thesis
    by (auto simp: offset_at_def)
qed

text \<open>
  A whole run of appends on a new log returns consecutive offsets from the configured
  first one, over any number of segment rotations, and afterwards every record of the run
  reads back at its offset, while reading any other offset is an error that changes nothing.\<close>

theorem log_run_reads_back:
  assumes "calm env" and "cfg_ok cfg" and "tidy {} d"
    and "log_new env cfg dir (Some d) = Done (Inr lg)" and "log_steps env lg ls lg'"
  shows "map snd ls = map (offset_at (initial_offset cfg)) [0..<length ls] \<and>
    (\<forall>(r, off) \<in> set ls. \<exists>lg''. log_read env off lg' = Done (lg'', Inr r)) \<and>
    (\<forall>off. off \<notin> snd ` set ls \<longrightarrow>
      log_read env off lg' = Done (lg', Inl (IoError UnexpectedEof ''offset out of range'')))"
proof -
  let ?b = "initial_offset cfg"
  have h: "calm env \<and> log_holds ?b [] lg"
    using log_new_fresh [OF assms(1-3), of dir] assms(1,4) by auto
  note run = whole_log.append_steps [OF assms(5) h]
  then have offs: "map snd ls = map (offset_at ?b) [0..<length ls]"
    and holds: "log_holds ?b (map fst ls) lg'" by simp_all
  have "log_read env off lg' = Done (lg', Inl (IoError UnexpectedEof ''offset out of range''))"
    if "off \<notin> snd ` set ls" for off
  proof -
    have "set (map snd ls) = offset_at ?b ` {0..<length ls}" unfolding offs by simp
    with that have "off \<noteq> offset_at ?b i" if "i < length ls" for i using that by auto
    then have "unat off \<noteq> unat ?b + i" if "i < length ls" for i
      using that log_holds_bound [OF holds] unat_offset_at [of ?b i] by (fastforce simp: word_unat_eq_iff)
    then have "unat off < unat ?b \<or> unat ?b + length ls \<le> unat off"
      by (metis add.commute le_Suc_ex less_diff_conv2 linorder_not_less nat_add_left_cancel_less)
    then show ?thesis using log_read_miss [OF holds] by simp
  qed
  then show ?thesis
    using offs whole_log.read_after_steps [OF assms(5) h] by auto
qed

theorem log_run_reads_back_witness:
  "\<exists>lg lg'. log_steps calm_env lg [([7], 1)] lg' \<and>
     (\<exists>lg''. log_read calm_env 1 lg' = Done (lg'', Inr [7])) \<and>
     log_read calm_env 2 lg' = Done (lg', Inl (IoError UnexpectedEof ''offset out of range''))"
proof -
  obtain lg lg' where lg: "log_new calm_env (small_cfg False) ''data'' (Some []) = Done (Inr lg)"
    and run: "log_steps calm_env lg [([7], 1)] lg'"
    using small_run by blast
  from log_run_reads_back [OF calm_calm_env small_cfg_ok tidy_Nil lg run] run show ?thesis
    by (intro exI [of _ lg] exI [of _ lg']) simp
qed

text \<open>
  C13. When no system call fails and the index limit is a positive multiple of twelve (\<open>cfg_ok\<close>):
  after any run of appends on a new log in a directory without offset names, closing it and opening
  the directory again gives a log with the same next offset in which every record of the run
  reads back.\<close>

theorem log_survives_close:
  assumes "calm env" and "cfg_ok cfg" and "tidy {} d"
    and "log_new env cfg dir (Some d) = Done (Inr lg)" and "log_steps env lg ls lg'"
  shows "\<exists>lc lo. log_close env lg' = Done (lc, Inr ()) \<and>
    log_new env cfg dir (Some (log_image lc)) = Done (Inr lo) \<and>
    log_next_offset lo = log_next_offset lg' \<and>
    (\<forall>(r, off) \<in> set ls. \<exists>l. log_read env off lo = Done (l, Inr r))"
proof -
  let ?b = "initial_offset cfg"
  have h: "calm env \<and> log_holds ?b [] lg" and "lg_cfg lg = cfg"
    using log_new_fresh [OF assms(1-3), of dir] assms(1,4) by auto
  then have holds: "log_holds ?b (map fst ls) lg'" and "lg_cfg lg' = cfg"
    using whole_log.append_steps [OF assms(5) h] log_steps_cfg [OF assms(5)] by simp_all
  then obtain lc lo where "log_close env lg' = Done (lc, Inr ())"
    "log_new env cfg dir (Some (log_image lc)) = Done (Inr lo)" and lo: "log_holds ?b (map fst ls) lo"
    using log_close_calm [OF assms(1) holds] log_reopen [OF assms(1)] by metis
  moreover have "log_next_offset lo = log_next_offset lg'"
    using log_next_holds [OF lo] log_next_holds [OF holds] by (simp add: word_unat_eq_iff)
  ultimately show ?thesis
    using reads_of_run [OF assms(5) h lo] by auto
qed

theorem log_survives_close_witness:
  "\<exists>lg lg' lc lo. log_new calm_env (small_cfg False) ''data'' (Some []) = Done (Inr lg) \<and>
     log_append calm_env [7] lg = Done (lg', Inr 1) \<and> log_close calm_env lg' = Done (lc, Inr ()) \<and>
     log_new calm_env (small_cfg False) ''data'' (Some (log_image lc)) = Done (Inr lo) \<and>
     (\<exists>l. log_read calm_env 1 lo = Done (l, Inr [7]))"
proof -
  obtain lg lg' where lg: "log_new calm_env (small_cfg False) ''data'' (Some []) = Done (Inr lg)"
    and app: "log_append calm_env [7] lg = Done (lg', Inr 1)" and run: "log_steps calm_env lg [([7], 1)] lg'"
    using small_run by blast
  from log_survives_close [OF calm_calm_env small_cfg_ok tidy_Nil lg run] lg app show ?thesis
    by auto
qed

text \<open>
  C14. When no system call fails and the index limit is a positive multiple of twelve (\<open>cfg_ok\<close>):
  with \<^verbatim>\<open>sync_writes\<close>, a process that stops without closing the log, after any run of appends on
  a new log in a directory without offset names, loses none of them: the directory as the operating system has it
  opens again with the same next offset, and every record of the run reads back.\<close>

theorem synced_log_survives_crash:
  assumes "calm env" and "cfg_ok cfg" and "log_sync_writes cfg" and "tidy {} d"
    and "log_new env cfg dir (Some d) = Done (Inr lg)" and "log_steps env lg ls lg'"
  shows "\<exists>lo. log_new env cfg dir (Some (log_image lg')) = Done (Inr lo) \<and>
    log_next_offset lo = log_next_offset lg' \<and>
    (\<forall>(r, off) \<in> set ls. \<exists>l. log_read env off lo = Done (l, Inr r))"
proof -
  let ?b = "initial_offset cfg"
  have h: "calm env \<and> log_holds ?b [] lg" and "lg_cfg lg = cfg"
    using log_new_fresh [OF assms(1,2,4), of dir] assms(1,5) by auto
  then have holds: "log_holds ?b (map fst ls) lg'" and cfg: "lg_cfg lg' = cfg"
    using whole_log.append_steps [OF assms(6) h] log_steps_cfg [OF assms(6)] by simp_all
  then obtain lo where "log_new env cfg dir (Some (log_image lg')) = Done (Inr lo)"
    and lo: "log_holds ?b (map fst ls) lo"
    using log_reopen [OF assms(1) sync_log_stopped [OF holds]] assms(3) by metis
  moreover have "log_next_offset lo = log_next_offset lg'"
    using log_next_holds [OF lo] log_next_holds [OF holds] by (simp add: word_unat_eq_iff)
  ultimately show ?thesis
    using reads_of_run [OF assms(6) h lo] by auto
qed

theorem synced_log_survives_crash_witness:
  "\<exists>lg lg' lo. log_new calm_env (small_cfg True) ''data'' (Some []) = Done (Inr lg) \<and>
     log_append calm_env [7] lg = Done (lg', Inr 1) \<and>
     log_new calm_env (small_cfg True) ''data'' (Some (log_image lg')) = Done (Inr lo) \<and>
     (\<exists>l. log_read calm_env 1 lo = Done (l, Inr [7]))"
proof -
  obtain lg lg' where lg: "log_new calm_env (small_cfg True) ''data'' (Some []) = Done (Inr lg)"
    and app: "log_append calm_env [7] lg = Done (lg', Inr 1)" and run: "log_steps calm_env lg [([7], 1)] lg'"
    using small_run by blast
  have "log_sync_writes (small_cfg True)" by (simp add: small_cfg_def)
  from synced_log_survives_crash [OF calm_calm_env small_cfg_ok this tidy_Nil lg run] lg app show ?thesis
    by auto
qed

text \<open>Two small configurations of a segment, for examples.\<close>

definition slot_cfg :: "u64 \<Rightarrow> seg_config" where
  "slot_cfg n = \<lparr>max_index_bytes = n, max_store_bytes = 1024, sync_writes = False\<rparr>"

definition odd_cfg :: log_config where
  "odd_cfg = \<lparr>initial_offset = 1, log_sync_writes = False, max_size_bytes = 20,
              log_max_store_bytes = 1024\<rparr>"

lemma odd_log:
  "\<exists>lg lg1. log_new calm_env odd_cfg ''data'' (Some []) = Done (Inr lg) \<and>
     log_append calm_env [7] lg = Done (lg1, Inr 1) \<and> index_stuck lg1 \<and> lg_dir lg1 = ''data'' \<and>
     unat (so_size (sg_store (active_segment lg1))) = 9 \<and> (\<exists>n. log_next_offset lg1 = Done n)"
proof -
  have cfg: "seg_config_of odd_cfg = slot_cfg 20" by (simp add: seg_config_of_def odd_cfg_def slot_cfg_def)
  obtain sg sg' where sg: "segment_new calm_env (slot_cfg 20) 1 [] = Done (Inr sg)"
    "segment_append calm_env [7] sg = Done (sg', Inr 1)" "seg_holds [[7]] sg'" "seg_ready sg'"
    "sg_cfg sg' = slot_cfg 20" "unat (so_size (sg_store sg')) = 9"
    using one_slot_segment [of "slot_cfg 20"] by (auto simp: slot_cfg_def slot_limit_def)
  let ?lg = "\<lambda>sg. \<lparr>lg_active = 0, lg_dir = ''data'', lg_cfg = odd_cfg, lg_segments = [sg], lg_files = []\<rparr>"
  have new: "log_new calm_env odd_cfg ''data'' (Some []) = Done (Inr (?lg sg))"
    using sg(1) cfg by (simp add: log_new_def calm_simps [OF calm_calm_env] new_segment_def odd_cfg_def)
  have "\<not> is_maxed sg'"
    using sg seg_holds_size [OF sg(3)]
    by (simp add: is_maxed_def index_len_def store_len_def slot_cfg_def word_le_nat_alt)
  then have app: "log_append calm_env [7] (?lg sg) = Done (?lg sg', Inr 1)"
    using sg(2) by (simp add: log_append_def)
  have "index_stuck (?lg sg')" using sg by (auto simp: index_stuck_def active_segment_def slot_cfg_def)
  then show ?thesis
    using new app sg(6) by (intro exI [of _ "?lg sg"] exI [of _ "?lg sg'"]) (simp add: active_segment_def log_next_offset_def)
qed

end
