(* ===== verification/Log_Faults.thy ===== *)
theory Log_Faults
  imports Log_Theorems
begin

text \<open>
  Truncation, and the behaviours of the log that lose or block records: truncation down to a
  full or to no segment, a write the system takes only in part, a write that fails half-way,
  a process that stops with records still in the writer's buffer, and an append after close.
\<close>

section \<open>Truncation\<close>

lemma log_truncate_done:
  assumes "lg_segments lg = [] \<or> \<not> is_lesser_than_range (last (lg_segments lg)) off"
  shows "log_truncate env off lg = Done (lg, Inr ())"
  using assms by (subst log_truncate.simps) auto

lemma log_truncate_pop:
  assumes "calm env" and "lg_segments lg = ss @ [sg]" and "off < sg_base sg"
  shows "log_truncate env off lg = log_truncate env off
    (lg\<lparr>lg_segments := ss, lg_files := without_files sg (lg_files lg), lg_active := lg_active lg - 1\<rparr>)"
  using segment_remove_calm [OF assms(1)] assms(2,3)
  by (subst log_truncate.simps) (auto simp: is_lesser_than_range_def)

text \<open>The trailing segments above the offset go with their files, and the active number follows.\<close>

definition truncated :: "segment list \<Rightarrow> segment list \<Rightarrow> log \<Rightarrow> log" where
  "truncated ss ts lg = lg\<lparr>lg_segments := ss, lg_files := foldr without_files ts (lg_files lg),
     lg_active := lg_active lg - length ts\<rparr>"

lemma log_truncate_calm:
  assumes calm: "calm env"
  shows "lg_segments lg = ss @ ts \<Longrightarrow> \<forall>sg \<in> set ts. off < sg_base sg \<Longrightarrow>
    ss = [] \<or> sg_base (last ss) \<le> off \<Longrightarrow> log_truncate env off lg = Done (truncated ss ts lg, Inr ())"
proof (induction ts arbitrary: lg rule: rev_induct)
  case Nil
  then have "log_truncate env off lg = Done (lg, Inr ())"
    by (intro log_truncate_done) (auto simp: is_lesser_than_range_def not_less)
  with Nil show ?case by (simp add: truncated_def)
next
  case (snoc t ts)
  let ?lg = "lg\<lparr>lg_segments := ss @ ts, lg_files := without_files t (lg_files lg), lg_active := lg_active lg - 1\<rparr>"
  have "lg_segments lg = (ss @ ts) @ [t]" "off < sg_base t" using snoc.prems by simp_all
  from log_truncate_pop [OF calm this] snoc.IH [of ?lg] snoc.prems show ?case
    by (simp add: truncated_def)
qed

text \<open>The entries of the directory that are not files of the removed segments, in their order.\<close>

lemma without_all_files:
  "foldr without_files ts d = filter (\<lambda>(n, e). n \<notin> (\<Union>sg \<in> set ts. segment_files sg)) d"
  by (induction ts) (auto simp: without_files_def case_prod_unfold intro!: filter_cong)

text \<open>
  Where every file that names an offset has one of the two canonical names of it, a truncated
  log leaves a directory that names the offsets of its own segments only.
\<close>

definition canonical :: "directory \<Rightarrow> bool" where
  "canonical d \<longleftrightarrow> (\<forall>(n, e) \<in> set d. \<forall>off. name_offset n = Some off \<longrightarrow> n \<in> {store_name off, index_name off})"

lemma truncated_offsets:
  assumes "log_holds b rs lg" and "lg_segments lg = ss @ ts" and "canonical (lg_files lg)"
  shows "named_offsets (log_image (truncated ss ts lg)) = sg_base ` set ss"
proof -
  have sorted: "sorted_wrt (<) (map sg_base ss @ map sg_base ts)"
    and tidy: "tidy (set (map sg_base (ss @ ts))) (lg_files lg)"
    using assms(1,2) by (simp_all add: log_holds_def)
  have dist: "distinct (map sg_base ss)" using sorted strictly_sorted by (auto simp: sorted_wrt_append)
  have "off \<in> sg_base ` set ss"
    if e: "(n, e) \<in> set (foldr without_files ts (lg_files lg))" "name_offset n = Some off" for n e off
  proof (rule ccontr)
    assume "off \<notin> sg_base ` set ss"
    moreover have "off \<in> sg_base ` set (ss @ ts)" using tidy e by (auto simp: tidy_def without_all_files image_Un)
    ultimately obtain t where "t \<in> set ts" "off = sg_base t" by auto
    moreover have "n \<in> {store_name off, index_name off}"
      using assms(3) e by (auto simp: canonical_def without_all_files)
    ultimately show False using e(1) by (auto simp: without_all_files segment_files_def)
  qed
  then have "tidy (set (map sg_base ss)) (foldr without_files ts (lg_files lg))"
    using tidy unfolding tidy_def without_all_files by auto
  from image_offsets [of "truncated ss ts lg"] dist this show ?thesis by (simp add: truncated_def)
qed

lemma split_at_offset:
  assumes "sorted_wrt (<) (map sg_base sgs)"
  shows "\<exists>ss ts. sgs = ss @ ts \<and> (\<forall>sg \<in> set ss. sg_base sg \<le> off) \<and> (\<forall>sg \<in> set ts. off < sg_base sg)"
  using assms
proof (induction sgs)
  case Nil
  then show ?case by simp
next
  case (Cons sg sgs)
  then obtain ss ts where sp: "sgs = ss @ ts" "\<forall>s \<in> set ss. sg_base s \<le> off" "\<forall>s \<in> set ts. off < sg_base s"
    by auto
  show ?case
  proof (cases "sg_base sg \<le> off")
    case True
    with sp show ?thesis by (intro exI [of _ "sg # ss"] exI [of _ ts]) auto
  next
    case False
    with Cons.prems have "\<forall>s \<in> set (sg # sgs). off < sg_base s" by fastforce
    then show ?thesis by (intro exI [of _ "[]"] exI [of _ "sg # sgs"]) auto
  qed
qed

lemma small_log1: "\<exists>lg. log_holds 1 [[7]] lg \<and> lg_cfg lg = small_cfg sync"
proof -
  obtain lg where lg: "log_holds 1 [] lg" "lg_cfg lg = small_cfg sync" "log_room [7] lg"
    using small_log by blast
  from log_append_calm [OF calm_calm_env lg(1,3)] lg(2) show ?thesis by auto
qed

definition one_slot_log_cfg :: log_config where
  "one_slot_log_cfg = \<lparr>initial_offset = 1, log_sync_writes = False, max_size_bytes = 12,
                       log_max_store_bytes = 1024\<rparr>"

text \<open>One record fills the first segment, so a second, empty one stands behind it.\<close>

lemma one_slot_log:
  "\<exists>lg sg t. log_holds 1 [[7]] lg \<and> lg_cfg lg = one_slot_log_cfg \<and> lg_segments lg = [sg, t] \<and>
     sg_base sg = 1 \<and> sg_base t = 2 \<and> unat (ix_size (sg_index sg)) = 12 \<and>
     unat (so_size (sg_store sg)) = 9"
proof -
  have cfg: "seg_config_of one_slot_log_cfg = slot_cfg 12" "cfg_ok one_slot_log_cfg"
    by (simp_all add: seg_config_of_def one_slot_log_cfg_def slot_cfg_def cfg_ok_def slot_limit_def)
  obtain sg sg' where sg: "segment_new calm_env (slot_cfg 12) 1 [] = Done (Inr sg)"
    "segment_append calm_env [7] sg = Done (sg', Inr 1)" "seg_holds [[7]] sg'" "sg_base sg' = 1"
    "sg_cfg sg' = slot_cfg 12" "unat (so_size (sg_store sg')) = 9"
    using one_slot_segment [of "slot_cfg 12"] by (auto simp: slot_cfg_def slot_limit_def)
  obtain t where t: "new_segment calm_env one_slot_log_cfg 2 [] = Done (Inr t)" "sg_base t = 2"
    using new_segment_fresh [OF calm_calm_env cfg(2) tidy_Nil, of 2] by blast
  let ?lg = "\<lambda>a sgs. \<lparr>lg_active = a, lg_dir = ''data'', lg_cfg = one_slot_log_cfg, lg_segments = sgs,
    lg_files = []\<rparr>"
  have new: "log_new calm_env one_slot_log_cfg ''data'' (Some []) = Done (Inr (?lg 0 [sg]))"
    using sg(1) cfg by (simp add: log_new_def calm_simps [OF calm_calm_env] new_segment_def one_slot_log_cfg_def)
  then have h: "log_holds 1 [] (?lg 0 [sg])"
    using log_new_fresh [OF calm_calm_env cfg(2) tidy_Nil, of "''data''"] by (auto simp: one_slot_log_cfg_def)
  have size: "unat (ix_size (sg_index sg')) = 12" using seg_holds_size [OF sg(3)] by simp
  then have "is_maxed sg'"
    using sg(5) by (simp add: is_maxed_def index_len_def slot_cfg_def word_le_nat_alt)
  moreover have "add_w 1 1 = Done (2 :: u64)" by (simp add: add_w_eq_Done)
  ultimately have app: "log_append calm_env [7] (?lg 0 [sg]) = Done (?lg 1 [sg', t], Inr 1)"
    using sg(2) t(1) by (simp add: log_append_def)
  have room: "log_room [7] (?lg 0 [sg])"
    by (rule log_room_cfg [OF h]) (simp_all add: one_slot_log_cfg_def)
  from log_append_calm [OF calm_calm_env h room] app have "log_holds 1 [[7]] (?lg 1 [sg', t])" by auto
  with sg t size show ?thesis by auto
qed

text \<open>
  C30. \<^verbatim>\<open>truncate(off)\<close>, no system call failing, on a log that holds its records and starts at or
  below the offset removes
  exactly the segments that start above it, and with them exactly their files: every other entry
  of the directory stays, in its place, and where all names are canonical the directory that the
  log leaves names only the offsets of the segments that are left, so none comes back when it is
  opened again. Every record up to the offset still reads back, and the records after it that
  share its segment stay as well.\<close>

theorem truncate_drops_later_segments:
  assumes "calm env" and "log_holds b rs lg" and "b \<le> off"
  shows "\<exists>lg' ts. log_truncate env off lg = Done (lg', Inr ()) \<and>
    lg_segments lg = lg_segments lg' @ ts \<and> lg_segments lg' \<noteq> [] \<and>
    (\<forall>sg \<in> set (lg_segments lg'). sg_base sg \<le> off) \<and> (\<forall>sg \<in> set ts. off < sg_base sg) \<and>
    lg_active lg' = length (lg_segments lg') - 1 \<and>
    lg_files lg' = filter (\<lambda>(n, e). n \<notin> (\<Union>sg \<in> set ts. {store_name (sg_base sg), index_name (sg_base sg)})) (lg_files lg) \<and>
    (canonical (lg_files lg) \<longrightarrow> named_offsets (log_image lg') = sg_base ` set (lg_segments lg')) \<and>
    (\<forall>i < length rs. unat b + i \<le> unat off \<longrightarrow>
       (\<exists>l. log_read env (offset_at b i) lg' = Done (l, Inr (rs ! i))))"
proof -
  have sorted: "sorted_wrt (<) (map sg_base (lg_segments lg))" and ch: "seg_chain b (lg_segments lg) rs"
    and st: "list_all (seg_state (lg_cfg lg)) (lg_segments lg)" and ne: "lg_segments lg \<noteq> []"
    and act: "lg_active lg = length (lg_segments lg) - 1"
    using assms(2) by (simp_all add: log_holds_def)
  obtain ss ts where sp: "lg_segments lg = ss @ ts" "\<forall>sg \<in> set ss. sg_base sg \<le> off"
    "\<forall>sg \<in> set ts. off < sg_base sg"
    using split_at_offset [OF sorted, of off] by blast
  have "ss \<noteq> []"
  proof
    assume "ss = []"
    with sp ne ch assms(3) show False by (cases "lg_segments lg") auto
  qed
  with log_truncate_calm [OF assms(1) sp(1,3)] sp(2)
  have tr: "log_truncate env off lg = Done (truncated ss ts lg, Inr ())" (is "_ = Done (?lg, _)") by auto
  obtain r1 r2 where rs: "rs = r1 @ r2" "seg_chain b ss r1" "seg_chain (chain_end b ss) ts r2"
    using ch sp(1) by (auto simp: seg_chain_append)
  have kept: "i < length r1" if "i < length rs" "unat b + i \<le> unat off" for i
  proof (rule ccontr)
    assume "\<not> i < length r1"
    with that rs have "ts \<noteq> []" by auto
    then have "off < chain_end b ss" using rs(3) sp(3) by (cases ts) auto
    with seg_chain_length [OF rs(2)] that \<open>\<not> i < length r1\<close> show False
      by (simp add: word_less_nat_alt)
  qed
  have "\<exists>l. log_read env (offset_at b i) ?lg = Done (l, Inr (rs ! i))"
    if i: "i < length rs" "unat b + i \<le> unat off" for i
    using log_read_chain [OF assms(1), of b ?lg r1 i "offset_at b i"] rs kept [OF i] st sp(1)
      unat_offset_at [of b i] log_holds_bound [OF assms(2)] i
    by (auto simp: list_all_iff seg_state_def seg_ready_def nth_append truncated_def)
  moreover have "lg_files ?lg = filter (\<lambda>(n, e). n \<notin> (\<Union>sg \<in> set ts. {store_name (sg_base sg), index_name (sg_base sg)})) (lg_files lg)"
    by (simp add: truncated_def without_all_files segment_files_def)
  moreover have "canonical (lg_files lg) \<longrightarrow> named_offsets (log_image ?lg) = sg_base ` set (lg_segments ?lg)"
    using truncated_offsets [OF assms(2) sp(1)] by (simp add: truncated_def)
  moreover have "lg_segments ?lg = ss" "lg_active ?lg = length ss - 1" using act sp(1) by (simp_all add: truncated_def)
  ultimately show ?thesis
    using tr sp \<open>ss \<noteq> []\<close> by (intro exI [of _ ?lg] exI [of _ ts]) simp
qed

text \<open>The log of two segments in a directory that lists the second one's files and another file.\<close>

theorem truncate_drops_later_segments_witness:
  "\<exists>lg lg' sg t. lg_segments lg = [sg, t] \<and> map fst (lg_files lg) = [store_name 2, ''notes'', index_name 2] \<and>
     log_truncate calm_env 1 lg = Done (lg', Inr ()) \<and> lg_segments lg' = [sg] \<and> map fst (lg_files lg') = [''notes''] \<and>
     named_offsets (log_image lg') = {1} \<and> (\<exists>l. log_read calm_env 1 lg' = Done (l, Inr [7]))"
proof -
  let ?d = "[(store_name 2, FileEntry []), (''notes'', FileEntry [1]), (index_name 2, FileEntry [])]"
  obtain lg0 sg t where lg0: "log_holds 1 [[7]] lg0" "lg_segments lg0 = [sg, t]" "sg_base sg = 1" "sg_base t = 2"
    using one_slot_log by auto
  let ?lg = "lg0\<lparr>lg_files := ?d\<rparr>"
  have plain: "name_offset ''notes'' = None" by (simp add: name_offset_def strip_suffix_def suffix_to_prefix)
  then have "\<And>b. store_name b \<noteq> ''notes'' \<and> index_name b \<noteq> ''notes''"
    by (metis name_offset_names option.distinct(1))
  note other = this [THEN conjunct1] this [THEN conjunct2]
  have "tidy {1, 2} ?d" using plain by (auto simp: tidy_def)
  then have "log_holds 1 [[7]] ?lg" using lg0 by (simp add: log_holds_def)
  from truncate_drops_later_segments [OF calm_calm_env this, of 1] obtain lg' ts where
    lg': "log_truncate calm_env 1 ?lg = Done (lg', Inr ())" "[sg, t] = lg_segments lg' @ ts" "lg_segments lg' \<noteq> []"
      "\<forall>sg \<in> set (lg_segments lg'). sg_base sg \<le> 1"
      "lg_files lg' = filter (\<lambda>(n, e). n \<notin> (\<Union>sg \<in> set ts. {store_name (sg_base sg), index_name (sg_base sg)})) ?d"
      "canonical ?d \<longrightarrow> named_offsets (log_image lg') = sg_base ` set (lg_segments lg')"
      "\<exists>l. log_read calm_env 1 lg' = Done (l, Inr [7])"
    using lg0(2) by (auto simp: offset_at_def)
  have "\<not> sg_base t \<le> 1" using lg0(4) by (simp add: word_le_nat_alt)
  then have "lg_segments lg' \<noteq> [sg, t]" using lg'(4) by auto
  then have "lg_segments lg' = [sg] \<and> ts = [t]"
    using lg'(2,3) by (auto simp: Cons_eq_append_conv)
  then have "lg_segments lg' = [sg]" "ts = [t]" by simp_all
  moreover have "canonical ?d" using plain by (auto simp: canonical_def)
  moreover have "lg_files lg' = [(''notes'', FileEntry [1])]"
    using lg'(5) \<open>ts = [t]\<close> lg0(4) other other [THEN not_sym] by (simp cong: if_cong)
  ultimately show ?thesis
    using lg'(1,6,7) lg0 by (intro exI [of _ ?lg] exI [of _ lg'] exI [of _ sg] exI [of _ t]) simp
qed

text \<open>
  C31. Truncation onto a segment whose index is full blocks the log: the full segment becomes
  the active one again, no new segment is made, and the next append fails with "index is
  full", as every later one does.\<close>

theorem truncate_onto_full_segment_blocks:
  assumes "calm env" and "log_holds b rs lg" and "lg_segments lg = ss @ sg # ts"
    and "sg_base sg \<le> off" and "\<forall>t \<in> set ts. off < sg_base t"
    and "unat (max_size_bytes (lg_cfg lg)) \<le> unat (ix_size (sg_index sg))"
    and "unat (so_size (sg_store sg)) + 8 + length r < 2 ^ 64"
  shows "\<exists>lg' lg''. log_truncate env off lg = Done (lg', Inr ()) \<and> active_segment lg' = sg \<and>
    log_append env r lg' = Done (lg'', Inl (IoError UnexpectedEof ''index is full'')) \<and> index_stuck lg''"
proof -
  have "lg_segments lg = (ss @ [sg]) @ ts" "ss @ [sg] = [] \<or> sg_base (last (ss @ [sg])) \<le> off"
    using assms(3,4) by simp_all
  from log_truncate_calm [OF assms(1) this(1) assms(5) this(2)]
  have tr: "log_truncate env off lg = Done (truncated (ss @ [sg]) ts lg, Inr ())" (is "_ = Done (?lg, _)") .
  have act: "lg_active lg - length ts = length ss" using assms(2,3) by (simp add: log_holds_def)
  have chain: "seg_chain b (lg_segments lg) rs" and state: "seg_state (lg_cfg lg) sg"
    using assms(2,3) by (simp_all add: log_holds_def)
  obtain r1 where r1: "seg_holds r1 sg" using seg_chain_each [OF chain, of sg] assms(3) by auto
  have active: "active_segment ?lg = sg" using act by (simp add: active_segment_def truncated_def)
  moreover have "unat (max_index_bytes (sg_cfg sg)) < 12 * length r1 + 12"
    using assms(6) seg_holds_size [OF r1] state by (simp add: seg_state_def seg_config_of_def)
  ultimately have "index_stuck ?lg"
    using r1 state act by (auto simp: index_stuck_def seg_state_def truncated_def)
  with stuck_append [OF assms(1), of ?lg r] assms(7) active tr show ?thesis by auto
qed

text \<open>
  Truncation below the first offset of the log removes every segment, and the next call
  of \<^verbatim>\<open>append\<close>, \<^verbatim>\<open>next_offset\<close> or \<^verbatim>\<open>close\<close> panics on the empty segment list.\<close>

theorem truncate_below_start_panics:
  assumes "calm env" and "log_holds b rs lg" and "off < b"
  shows "\<exists>lg'. log_truncate env off lg = Done (lg', Inr ()) \<and> lg_segments lg' = [] \<and>
    log_append env r lg' = Panic IndexOutOfBounds \<and> log_next_offset lg' = Panic IndexOutOfBounds \<and>
    log_close env lg' = Panic IndexOutOfBounds"
proof -
  obtain sg sgs where segs: "lg_segments lg = sg # sgs" and "sg_base sg = b"
    using assms(2) by (cases "lg_segments lg") (auto simp: log_holds_def)
  moreover have "sorted_wrt (<) (map sg_base (lg_segments lg))" using assms(2) by (simp add: log_holds_def)
  ultimately have "\<forall>t \<in> set (lg_segments lg). off < sg_base t" using assms(3) by fastforce
  then have "log_truncate env off lg = Done (truncated [] (lg_segments lg) lg, Inr ())"
    using log_truncate_calm [OF assms(1), of lg "[]" "lg_segments lg" off] by auto
  then show ?thesis by (simp add: truncated_def) (simp add: log_append_def log_next_offset_def log_close_def)
qed

theorem truncate_below_start_panics_witness:
  "\<exists>lg lg'. log_truncate calm_env 0 lg = Done (lg', Inr ()) \<and>
     log_append calm_env [8] lg' = Panic IndexOutOfBounds"
proof -
  obtain lg where "log_holds 1 [[7]] lg" using small_log1 by blast
  from truncate_below_start_panics [OF calm_calm_env this, of 0 "[8]"] show ?thesis by auto
qed

theorem truncate_onto_full_segment_blocks_witness:
  "\<exists>lg lg' lg''. log_holds 1 [[7]] lg \<and> log_truncate calm_env 1 lg = Done (lg', Inr ()) \<and>
     log_append calm_env [8] lg' = Done (lg'', Inl (IoError UnexpectedEof ''index is full''))"
proof -
  obtain lg sg t where lg: "log_holds 1 [[7]] lg" "lg_cfg lg = one_slot_log_cfg"
    "lg_segments lg = [] @ sg # [t]" "sg_base sg = 1" "sg_base t = 2"
    "unat (ix_size (sg_index sg)) = 12" "unat (so_size (sg_store sg)) = 9"
    using one_slot_log by auto
  then show ?thesis
    using truncate_onto_full_segment_blocks [OF calm_calm_env lg(1,3), of 1 "[8]"]
    by (auto simp: one_slot_log_cfg_def)
qed

section \<open>Writes that come up short\<close>

definition fresh_store :: "bool \<Rightarrow> store" where
  "fresh_store sync = \<lparr>so_size = 0, so_file = [], so_buf = [], so_sync = sync\<rparr>"

text \<open>Up to the payload: the length is in the file, the buffer is empty.\<close>

lemma large_payload:
  assumes "env_fault env FlushWriter = None" and "buf_capacity \<le> length r"
  shows "store_append env r (fresh_store sync) =
    and_then (case env_fault env DirectWrite of
        Some (e, k) \<Rightarrow> Done ((fresh_store sync)\<lparr>so_file := u64_to_be (word_of_nat (length r))\<rparr>, Inl e)
      | None \<Rightarrow>
          let n = min (env_accept env (length r)) (length r)
          in Done ((fresh_store sync)\<lparr>so_file := u64_to_be (word_of_nat (length r)) @ take n r\<rparr>, Inr n))
      (\<lambda>st n. let written = word_of_nat (n + length_width)
       in obind (add_w (so_size st) written) (\<lambda>size.
            let st = st\<lparr>so_size := size\<rparr>
            in if so_sync st
               then and_then (bw_flush env st) (\<lambda>st _.
                    and_then (check_sys env SyncData st) (\<lambda>st _. Done (st, Inr written)))
               else Done (st, Inr written)))"
proof -
  let ?len = "u64_to_be (word_of_nat (length r))"
  have hdr: "bw_write_all env ?len (fresh_store sync) = Done ((fresh_store sync)\<lparr>so_buf := ?len\<rparr>, Inr ())"
    by (simp add: bw_write_all_def bw_make_room_def bw_copy_def spare_def buf_capacity_def be64.length_enc
        fresh_store_def)
  have "?len \<noteq> []" using be64.length_enc [of "word_of_nat (length r)"] by auto
  moreover have "spare ((fresh_store sync)\<lparr>so_buf := ?len\<rparr>) < length r"
    using assms(2) by (simp add: spare_def be64.length_enc buf_capacity_def)
  ultimately have "bw_make_room env (length r) ((fresh_store sync)\<lparr>so_buf := ?len\<rparr>) =
      Done ((fresh_store sync)\<lparr>so_file := ?len\<rparr>, Inr ())"
    using assms(1) by (simp add: bw_make_room_def bw_flush_def fresh_store_def)
  with hdr assms(2) show ?thesis
    by (simp add: store_append_def bw_write_def Let_def split: option.split)
qed

text \<open>
  A record of at least the buffer's size is written with \<^verbatim>\<open>write\<close>, not \<^verbatim>\<open>write_all\<close>. When the
  system takes only part of it, \<^verbatim>\<open>append\<close> still succeeds, but the record cannot be read back:
  its length prefix promises more bytes than the file has.\<close>

theorem short_write_is_acknowledged:
  assumes "\<forall>c. env_fault env c = None" and "buf_capacity \<le> length r" and "length r < 2 ^ 63"
    and "env_accept env (length r) < length r"
  shows "\<exists>st' n. store_append env r (fresh_store sync) = Done (st', Inr n) \<and>
    store_read env 0 st' = Done (st', Inl fill_error)"
proof -
  let ?n = "env_accept env (length r)" and ?len = "u64_to_be (word_of_nat (length r))"
  let ?w = "word_of_nat (?n + length_width) :: u64"
  let ?st = "\<lparr>so_size = ?w, so_file = ?len @ take ?n r, so_buf = [], so_sync = sync\<rparr>"
  have "add_w 0 ?w = Done ?w" by (simp add: add_w_eq_Done)
  then have "store_append env r (fresh_store sync) = Done (?st, Inr ?w)"
    using assms large_payload [of env r sync]
    by (simp add: fresh_store_def Let_def bw_flush_def check_sys_def sys_def)
  moreover have "read_exact_at 0 8 (?len @ take ?n r) = Some ?len"
    using read_exact_at_append [of "[]" 0 ?len 8] by (simp add: be64.length_enc)
  moreover have "unat (word_of_nat (length r) :: u64) = length r" using assms(3) by (simp add: unat_of_nat)
  moreover have "add_w 0 8 = Done (8 :: u64)" by (simp add: add_w_eq_Done)
  moreover have "read_exact_at 8 (length r) (?len @ take ?n r) = None"
    using assms(4) by (auto simp: read_exact_at_def be64.length_enc)
  ultimately show ?thesis
    using assms(3)
    by (intro exI [of _ ?st] exI [of _ ?w])
      (simp add: store_read_def bw_flush_def length_width_def be64.dec_enc Let_def)
qed

theorem short_write_is_acknowledged_witness:
  "\<exists>st' n. store_append \<lparr>env_fault = \<lambda>_. None, env_accept = \<lambda>_. 10, env_page = 4096\<rparr>
       (replicate 9000 1) (fresh_store True) = Done (st', Inr n) \<and>
     store_read \<lparr>env_fault = \<lambda>_. None, env_accept = \<lambda>_. 10, env_page = 4096\<rparr> 0 st' =
       Done (st', Inl fill_error)"
  by (rule short_write_is_acknowledged) (simp_all add: buf_capacity_def)

text \<open>
  When the write of a large payload fails, its length prefix stays in the file although
  the store's size does not count it. The position recorded for the next record is then
  eight bytes early, and that record, appended successfully, cannot be read back.\<close>

theorem failed_write_misplaces_next_record:
  assumes "env_fault env FlushWriter = None" and "env_fault env DirectWrite = Some (e, k)"
    and "buf_capacity \<le> length r" and "length r < 2 ^ 63" and "length s + 8 < buf_capacity" and "calm env'"
  shows "\<exists>st1 st2 st3 n. store_append env r (fresh_store False) = Done (st1, Inl e) \<and>
    store_append env' s st1 = Done (st2, Inr n) \<and>
    store_read env' (store_len st1) st2 = Done (st3, Inl fill_error)"
proof -
  let ?len = "u64_to_be (word_of_nat (length r))"
  let ?st1 = "(fresh_store False)\<lparr>so_file := ?len\<rparr>"
  let ?w = "word_of_nat (8 + length s) :: u64"
  let ?st2 = "?st1\<lparr>so_buf := frame s, so_size := ?w\<rparr>"
  let ?st3 = "?st2\<lparr>so_file := ?len @ frame s, so_buf := []\<rparr>"
  have "store_append env r (fresh_store False) = Done (?st1, Inl e)"
    using large_payload [OF assms(1,3), of False] assms(2) by simp
  moreover have "store_append env' s ?st1 = Done (?st2, Inr ?w)"
    using store_append_buffered [of ?st1 s env'] assms(5)
    by (simp add: fresh_store_def buf_capacity_def)
  moreover have "read_exact_at 0 8 (?len @ frame s) = Some ?len"
    using read_exact_at_append [of "[]" 0 ?len 8] by (simp add: be64.length_enc)
  moreover have "unat (word_of_nat (length r) :: u64) = length r" using assms(4) by (simp add: unat_of_nat)
  moreover have "add_w 0 8 = Done (8 :: u64)" by (simp add: add_w_eq_Done)
  moreover have "read_exact_at 8 (length r) (?len @ frame s) = None"
    using assms(3,5) by (auto simp: read_exact_at_def be64.length_enc buf_capacity_def)
  ultimately show ?thesis
    using assms(4) bw_flush_calm [OF assms(6), of ?st2]
    by (intro exI [of _ ?st1] exI [of _ ?st2] exI [of _ ?st3] exI [of _ ?w])
      (simp add: store_read_def content_def length_width_def be64.dec_enc Let_def store_len_def fresh_store_def)
qed

definition full_disk :: log_env where
  "full_disk = \<lparr>env_fault = (\<lambda>c. if c = DirectWrite then Some (IoError OtherKind ''no space'', 0) else None),
     env_accept = (\<lambda>n. n), env_page = 4096\<rparr>"

theorem failed_write_misplaces_next_record_witness:
  "\<exists>st1 st2 st3 n. store_append full_disk (replicate 9000 1) (fresh_store False) =
       Done (st1, Inl (IoError OtherKind ''no space'')) \<and>
     store_append calm_env [8] st1 = Done (st2, Inr n) \<and>
     store_read calm_env (store_len st1) st2 = Done (st3, Inl fill_error)"
  by (rule failed_write_misplaces_next_record [where k = 0])
    (simp_all add: buf_capacity_def full_disk_def calm_calm_env)

section \<open>Stopping with buffered records\<close>

text \<open>
  C40. Without \<^verbatim>\<open>sync_writes\<close>, a process that stops leaves the slot of a record whose bytes
  were still in the writer's buffer. On an empty segment whose index has room for two slots, with
  calls that succeed and two offsets left: append a record \<open>r\<close> that the buffer holds with its
  length, and stop; open the segment again on the files as the system has them, and append any
  such record \<open>s\<close>. It gets the next offset, as if \<open>r\<close> were there, and reading the offset of \<open>r\<close>
  succeeds and returns \<open>s\<close>.\<close>

theorem unsynced_crash_returns_wrong_record:
  assumes calm: "calm env" and sg: "seg_holds [] sg" "seg_ready sg" "so_size (sg_store sg) = 0"
    and "\<not> sync_writes (sg_cfg sg)" and "24 \<le> unat (max_index_bytes (sg_cfg sg))"
    and "length r + 8 < buf_capacity" and "length s + 8 < buf_capacity" and "unat (sg_base sg) + 2 < 2 ^ 64"
  shows "\<exists>sg1 sg2 sg3 sg4. segment_append env r sg = Done (sg1, Inr (sg_base sg)) \<and>
    segment_new env (sg_cfg sg) (sg_base sg) (segment_image sg1 d) = Done (Inr sg2) \<and>
    segment_append env s sg2 = Done (sg3, Inr (sg_base sg + 1)) \<and>
    segment_read env (sg_base sg) sg3 = Done (sg4, Inr s)"
proof -
  let ?b = "sg_base sg" and ?st = "sg_store sg" and ?ix = "sg_index sg" and ?cfg = "sg_cfg sg"
  have mm: "length (ix_mmap ?ix) = unat (max_index_bytes ?cfg)" and ps: "index_holds [] ?ix"
    and live: "index_live ?ix" and base: "sg_next sg = ?b" and sync: "\<not> so_sync ?st"
    and empty: "so_file ?st = []" "so_buf ?st = []"
    using sg assms(5) by (auto simp: seg_holds_def seg_ready_def store_inv_def content_def word_unat_eq_iff)
  have small: "?b < - 1" "?b + 1 < - 1" and suc: "unat (?b + 1) = unat ?b + 1"
    using assms(9) unat_add_lem' [of ?b 1] unat_max_word [where 'a = 64] by (auto simp: word_less_nat_alt)
  obtain st1 where st1: "store_append env r ?st = Done (st1, Inr (word_of_nat (8 + length r)))"
    "so_file st1 = []"
    using store_append_buffered [of ?st r env] sync empty assms(7) sg(3) by (auto simp: buf_capacity_def)
  obtain ix1 where a1: "segment_append env r sg =
      Done (sg\<lparr>sg_store := st1, sg_index := ix1, sg_next := ?b + 1\<rparr>, Inr ?b)" (is "_ = Done (?sg1, _)")
    and ix1: "index_holds [0] ix1" "index_live ix1" "length (ix_mmap ix1) = unat (max_index_bytes ?cfg)"
    using segment_append_slot [OF calm ps live _ _ _ st1(1)] mm assms(6) base small(1) sg(3) by auto
  let ?d = "segment_image ?sg1 d"
  obtain ix2 where ix2: "index_new env (index_file ix1) (max_index_bytes ?cfg) = Done (Inr ix2)"
    "index_holds [0] ix2" "index_live ix2" "length (ix_mmap ix2) = unat (max_index_bytes ?cfg)"
    using index_reopen [OF calm ix1(1,3)] ix1(2) by (auto simp: index_live_def)
  have "unat (ix_size ix2) = 12" using ix2(2) by (simp add: index_holds_def)
  then have "0 < index_len ix2" "unat (current_offset ix2) = 1"
    by (simp_all add: index_len_def current_offset_def width_defs word_less_nat_alt unat_div)
  then have next_off: "add_w ?b (current_offset ix2) = Done (?b + 1)" "0 < index_len ix2"
    using suc by (simp_all add: add_w_eq_Done)
  let ?st2 = "\<lparr>so_size = 0, so_file = [], so_buf = [], so_sync = False\<rparr>"
  let ?sg2 = "\<lparr>sg_cfg = ?cfg, sg_index = ix2, sg_store = ?st2, sg_next = ?b + 1, sg_base = ?b\<rparr>"
  have a2: "segment_new env ?cfg ?b ?d = Done (Inr ?sg2)"
    using segment_image_files [of ?sg1 d] ix2(1) next_off st1(2) calm assms(5)
    by (simp add: segment_new_def open_file_def store_new_def calm_simps)
  obtain st3 where st3: "store_append env s ?st2 = Done (st3, Inr (word_of_nat (8 + length s)))"
    "content st3 = frame s" "so_sync st3 = False"
    using store_append_buffered [of ?st2 s env] assms(8) by (auto simp: buf_capacity_def content_def)
  obtain ix3 where a3: "segment_append env s ?sg2 =
      Done (?sg2\<lparr>sg_store := st3, sg_index := ix3, sg_next := ?b + 1 + 1\<rparr>, Inr (?b + 1))"
      (is "_ = Done (?sg3, _)")
    and ix3: "index_holds [0, 0] ix3" "index_live ix3" "length (ix_mmap ix3) = unat (max_index_bytes ?cfg)"
    and two: "unat (?b + 1 + 1) = unat (?b + 1) + 1"
    using segment_append_slot [OF calm, of "[0]" ?sg2 s st3] ix2 assms(6) small(2) suc st3(1) by auto
  have "seg_holds [s, s] ?sg3"
    using ix3 st3 two suc assms(5,8) record_at_new [of s "[]"]
    by (auto simp: seg_holds_def buf_capacity_def intro!: exI [of _ "[0, 0]"])
  then have "\<exists>sg4. segment_read env ?b ?sg3 = Done (sg4, Inr s)"
    using segment_read_calm [OF calm, of "[s, s]" ?sg3 0 ?b] ix3(2) by auto
  with a1 a2 a3 show ?thesis by blast
qed

lemma empty_segment:
  "\<exists>sg. seg_holds [] sg \<and> seg_ready sg \<and> so_size (sg_store sg) = 0 \<and> sg_cfg sg = slot_cfg 24 \<and> sg_base sg = 1"
proof -
  have "unat (max_index_bytes (slot_cfg 24)) < 12 * slot_limit" by (simp add: slot_cfg_def slot_limit_def)
  from segment_new_empty [OF calm_calm_env this, of "[]" 1] show ?thesis by auto
qed

theorem unsynced_crash_returns_wrong_record_witness:
  "\<exists>sg sg1 sg2 sg3 sg4. segment_append calm_env [7] sg = Done (sg1, Inr 1) \<and>
     segment_new calm_env (slot_cfg 24) 1 (segment_image sg1 []) = Done (Inr sg2) \<and>
     segment_append calm_env [8] sg2 = Done (sg3, Inr 2) \<and>
     segment_read calm_env 1 sg3 = Done (sg4, Inr [8])"
proof -
  obtain sg where sg: "seg_holds [] sg" "seg_ready sg" "so_size (sg_store sg) = 0"
    "sg_cfg sg = slot_cfg 24" "sg_base sg = 1"
    using empty_segment by blast
  from unsynced_crash_returns_wrong_record [OF calm_calm_env sg(1-3), of "[7]" "[8]" "[]"] sg(4,5)
  have "\<exists>sg1 sg2 sg3 sg4. segment_append calm_env [7] sg = Done (sg1, Inr 1) \<and>
      segment_new calm_env (slot_cfg 24) 1 (segment_image sg1 []) = Done (Inr sg2) \<and>
      segment_append calm_env [8] sg2 = Done (sg3, Inr 2) \<and>
      segment_read calm_env 1 sg3 = Done (sg4, Inr [8])"
    by (simp add: slot_cfg_def buf_capacity_def)
  then show ?thesis by blast
qed

text \<open>
  Closing shrinks the index file to its slots but keeps the old mapping. On an empty
  segment the file then has no page at all, and the next append touches the mapping and
  stops the process with a bus error instead of returning an error.\<close>

theorem append_after_close_bus_error:
  assumes calm: "calm env" and holds: "seg_holds [] sg" and ready: "seg_ready sg"
    and "12 \<le> unat (max_index_bytes (sg_cfg sg))"
    and fits: "unat (so_size (sg_store sg)) + 8 + length r < 2 ^ 64"
  shows "\<exists>sg'. segment_close env sg = Done (sg', Inr ()) \<and> segment_append env r sg' = Panic BusError"
proof -
  let ?sg = "closed_segment sg"
  have close: "segment_close env sg = Done (?sg, Inr ())"
    using segment_close_calm [OF calm] by (simp add: closed_segment_def)
  have size: "unat (ix_size (sg_index sg)) = 0" using seg_holds_size [OF holds] by simp
  have "store_inv (sg_store ?sg)" "length (content (sg_store ?sg)) + 8 + length r < 2 ^ 64"
    using ready fits by (simp_all add: seg_ready_def store_inv_def closed_segment_def)
  then obtain st where "store_append env r (sg_store ?sg) = Done (st, Inr (word_of_nat (8 + length r)))"
    using store_append_calm [OF calm] by blast
  moreover have "sub_w (sg_next ?sg) (sg_base ?sg) = Done 0"
    using holds by (simp add: seg_holds_def closed_segment_def sub_w_eq_Done)
  moreover have "page_end env (sg_index ?sg) = 0"
    using calm size by (simp add: page_end_def closed_segment_def calm_def)
  moreover have "add_w (ix_size (sg_index sg)) 12 = Done 12"
    using size by (simp add: add_w_eq_Done)
  moreover have "12 \<le> length (ix_mmap (sg_index ?sg))"
    using assms(4) holds by (simp add: seg_holds_def closed_segment_def)
  ultimately have "segment_append env r ?sg = Panic BusError"
    by (simp add: segment_append_def on_store_def on_index_def index_write_def width_defs Let_def
        closed_segment_def)
  with close show ?thesis by blast
qed

theorem append_after_close_bus_error_witness:
  "\<exists>sg sg'. segment_close calm_env sg = Done (sg', Inr ()) \<and>
     segment_append calm_env [7] sg' = Panic BusError"
proof -
  obtain sg where sg: "seg_holds [] sg" "seg_ready sg" "so_size (sg_store sg) = 0" "sg_cfg sg = slot_cfg 24"
    using empty_segment by blast
  from append_after_close_bus_error [OF calm_calm_env sg(1,2), of "[7]"] sg(3,4) show ?thesis
    by (auto simp: slot_cfg_def)
qed

end
