(* ===== verification/Raft_Runtime.thy ===== *)
theory Raft_Runtime
  imports Raft_Boot Raft_Storage Segmented_Log
begin

text \<open>
  The runtime, \<^verbatim>\<open>src/raft/runtime.rs\<close>: it owns the Raft state, the log, the hard-state storage,
  the application's state machine and the table of pending operations, turns a client's write
  into an event and drives the core until it has nothing left to do. Code outside the
  repository is a parameter: the encoding of a log entry (\<^verbatim>\<open>prost\<close>), the application's \<^verbatim>\<open>apply\<close>,
  and which receivers have been dropped. Replies are recorded in the order they are sent, and so
  are the buffers that go back to the object pool, with the bytes they hold: a command's buffer
  is lent by the pool, and the pool takes it back as it is, by \<^verbatim>\<open>attach\<close> or when it is dropped.
  The contents of the read buffer after a failed read are not tracked, since every use clears
  it first.
\<close>

section \<open>State and environment\<close>

record 'f runtime =
  rt_raft :: raft
  rt_log :: log
  rt_storage :: storage
  rt_fsm :: 'f
  rt_next_operation_id :: u64
  rt_operations :: "(operation_id, operation) hash_map"
  rt_buf :: "byte list"
  rt_sent :: "(chan \<times> reply) list"
  rt_returned :: "byte list list"

record 'f rt_env =
  re_log :: log_env
  re_faults :: faults
  re_encode :: "log_entry \<Rightarrow> string + byte list"
  re_decode :: "byte list \<Rightarrow> string + log_entry"
  re_apply :: "'f fsm_apply"
  re_dropped :: "chan \<Rightarrow> bool"

type_synonym ('f, 'a) rt_result = "('f runtime \<times> (error + 'a)) outcome"

definition runtime_new :: "node_id \<Rightarrow> node_id list \<Rightarrow> log \<Rightarrow> 'f \<Rightarrow> filedata io_result \<Rightarrow>
    'f runtime outcome" where
  "runtime_new me vs lg fsm opened =
     obind (storage_new (log_directory lg) opened) (\<lambda>st.
     obind (load_state st) (\<lambda>h.
     obind (log_next_offset lg) (\<lambda>next_index.
     obind (raft_new me vs next_index h) (\<lambda>raft.
       Done \<lparr>rt_raft = raft, rt_log = lg, rt_storage = st, rt_fsm = fsm,
             rt_next_operation_id = 1, rt_operations = [], rt_buf = [], rt_sent = [], rt_returned = []\<rparr>))))"

section \<open>Operations\<close>

definition next_operation_id :: "'f runtime \<Rightarrow> ('f runtime \<times> operation_id) outcome" where
  "next_operation_id rt =
     (let operation_id = OperationId (rt_next_operation_id rt)
      in obind (expect_some ''operation ID space exhausted''
                 (checked_add (rt_next_operation_id rt) 1)) (\<lambda>n.
           Done (rt\<lparr>rt_next_operation_id := n\<rparr>, operation_id)))"

text \<open>\<^verbatim>\<open>oneshot::Sender::send\<close>: whether the receiver was still there.\<close>

definition send_reply :: "'f rt_env \<Rightarrow> chan \<Rightarrow> reply \<Rightarrow> 'f runtime \<Rightarrow> 'f runtime \<times> bool" where
  "send_reply env ch r rt =
     (if re_dropped env ch then (rt, False) else (rt\<lparr>rt_sent := rt_sent rt @ [(ch, r)]\<rparr>, True))"

text \<open>A command's buffer goes back to the pool.\<close>

definition give_back :: "byte list option \<Rightarrow> 'f runtime \<Rightarrow> 'f runtime" where
  "give_back data rt =
     (case data of None \<Rightarrow> rt | Some bs \<Rightarrow> rt\<lparr>rt_returned := rt_returned rt @ [bs]\<rparr>)"

definition persist_hard_state :: "'f rt_env \<Rightarrow> state \<Rightarrow> 'f runtime \<Rightarrow> ('f, unit) rt_result" where
  "persist_hard_state env h rt =
     (let (st, r) = save_state (re_faults env) h (rt_storage rt)
      in map_err (\<lambda>e. PersistStateFailed (io_display e)) (Done (rt\<lparr>rt_storage := st\<rparr>, r)))"

definition get_operation :: "operation_id \<Rightarrow> 'f runtime \<Rightarrow> ('f runtime \<times> operation) outcome" where
  "get_operation op rt =
     obind (expect_some ''newly inserted operation must exist'' (map_of (rt_operations rt) op)) (\<lambda>o'.
       Done (rt\<lparr>rt_operations := hm_delete op (rt_operations rt)\<rparr>, o'))"

text \<open>\<^verbatim>\<open>let Operation::Write { data, reply } = operation else { panic!(..) }\<close>, and the same for
  \<^verbatim>\<open>AppendEntries\<close>.\<close>

fun expect_write :: "string \<Rightarrow> operation \<Rightarrow> (byte list option \<times> chan) outcome" where
  "expect_write msg (OpWrite data ch) = Done (data, ch)"
| "expect_write msg _ = Panic (ExplicitPanic msg)"

fun expect_append :: "string \<Rightarrow> operation \<Rightarrow> (byte list \<times> chan) outcome" where
  "expect_append msg (OpAppendEntries data ch) = Done (data, ch)"
| "expect_append msg _ = Panic (ExplicitPanic msg)"

fun error_reply :: "operation \<Rightarrow> error \<Rightarrow> chan \<times> reply" where
  "error_reply (OpWrite data ch) err = (ch, WriteReply (Inl err))"
| "error_reply (OpVote ch) err = (ch, VoteReply (Inl err))"
| "error_reply (OpAppendEntries data ch) err = (ch, AppendReply (Inl err))"

text \<open>The buffer a dropped operation still holds.\<close>

fun held_buffer :: "operation \<Rightarrow> byte list option" where
  "held_buffer (OpWrite data ch) = data"
| "held_buffer (OpVote ch) = None"
| "held_buffer (OpAppendEntries data ch) = Some data"

definition fail_operation :: "'f rt_env \<Rightarrow> operation_id \<Rightarrow> error \<Rightarrow> 'f runtime \<Rightarrow> 'f runtime" where
  "fail_operation env op err rt =
     (case map_of (rt_operations rt) op of
        None \<Rightarrow> rt
      | Some o' \<Rightarrow>
          let rt = rt\<lparr>rt_operations := hm_delete op (rt_operations rt)\<rparr>
          in give_back (held_buffer o')
               (fst (send_reply env (fst (error_reply o' err)) (snd (error_reply o' err)) rt)))"

lemma give_back_simps [simp]:
  "give_back None rt = rt"
  "give_back (Some bs) rt = rt\<lparr>rt_returned := rt_returned rt @ [bs]\<rparr>"
  by (simp_all add: give_back_def)

section \<open>Effects\<close>

text \<open>One round of the loop over the committed entries, and the loop.\<close>

definition on_log ::
  "(log \<Rightarrow> (log \<times> 'a io_result) outcome) \<Rightarrow> 'f runtime \<Rightarrow> ('f runtime \<times> 'a io_result) outcome" where
  "on_log f rt = omap (\<lambda>(lg, r). (rt\<lparr>rt_log := lg\<rparr>, r)) (f (rt_log rt))"

definition apply_entry :: "'f rt_env \<Rightarrow> u64 \<Rightarrow> 'f runtime \<Rightarrow> ('f, unit) rt_result" where
  "apply_entry env index rt =
     and_then (map_err (\<lambda>e. ReadCommittedEntryFailed (io_display e))
       (on_log (log_read (re_log env) index) (rt\<lparr>rt_buf := []\<rparr>))) (\<lambda>rt bs.
     let rt = rt\<lparr>rt_buf := bs\<rparr> in
     and_then (map_err EntryDeserialisationFailed (Done (rt, re_decode env (rt_buf rt)))) (\<lambda>rt entry.
       let (fsm, r) = re_apply env (rt_fsm rt) (en_command entry)
       in map_err ApplyCommittedEntryFailed (Done (rt\<lparr>rt_fsm := fsm\<rparr>, r))))"

fun apply_entries :: "'f rt_env \<Rightarrow> u64 list \<Rightarrow> 'f runtime \<Rightarrow> ('f, unit) rt_result" where
  "apply_entries env [] rt = Done (rt, Inr ())"
| "apply_entries env (i # is) rt =
     and_then (apply_entry env i rt) (\<lambda>rt _. apply_entries env is rt)"

definition inclusive_range :: "u64 \<Rightarrow> u64 \<Rightarrow> u64 list" where
  "inclusive_range a b = map word_of_nat [unat a..<Suc (unat b)]"

definition execute_apply :: "'f rt_env \<Rightarrow> operation_id \<Rightarrow> u64 \<Rightarrow> 'f runtime \<Rightarrow> ('f, event option) rt_result" where
  "execute_apply env op through rt =
     (let first_unapplied = saturating_add (last_applied (rt_raft rt)) 1
      in and_then (apply_entries env (inclusive_range first_unapplied through) rt) (\<lambda>rt _.
           Done (rt, Inr (Some (EntriesApplied \<lparr>ae_operation_id = op, ae_through = through\<rparr>)))))"

definition execute_append_local ::
  "'f rt_env \<Rightarrow> operation_id \<Rightarrow> u64 \<Rightarrow> 'f runtime \<Rightarrow> ('f, event option) rt_result" where
  "execute_append_local env op term rt =
     obind (get_operation op rt) (\<lambda>(rt, o').
     obind (expect_write ''AppendLocal effect must reference a write operation'' o') (\<lambda>(data, ch).
     obind (expect_some ''write data must exist before it is appended locally'' data) (\<lambda>command.
       let encode_result = re_encode env \<lparr>en_term = term, en_command = command\<rparr>;
           rt = (give_back (Some command) rt)\<lparr>rt_buf := (case encode_result of Inl e \<Rightarrow> [] | Inr bs \<Rightarrow> bs),
                   rt_operations := hm_insert op (OpWrite None ch) (rt_operations rt)\<rparr>
       in and_then (map_err EntrySerialisationFailed (Done (rt, encode_result))) (\<lambda>rt _.
          and_then (map_err (\<lambda>_. AppendFailed) (on_log (log_append (re_log env) (rt_buf rt)) rt))
            (\<lambda>rt index. Done (rt, Inr (Some (LocalEntriesAppended
               \<lparr>le_operation_id = op, le_index = index, le_term = term\<rparr>))))))))"

fun execute :: "'f rt_env \<Rightarrow> effect \<Rightarrow> 'f runtime \<Rightarrow> ('f, event option) rt_result" where
  "execute env (SendRequestVotes h peers req) rt =
     and_then (persist_hard_state env h rt) (\<lambda>rt _.
       Panic (Todo ''send RequestVote through the Raft transport''))"
| "execute env (SendAppendEntries op targets) rt = Done (rt, Inr None)"
| "execute env (SendRequestVoteResponse hs peer resp) rt =
     and_then (case hs of None \<Rightarrow> Done (rt, Inr ()) | Some h \<Rightarrow> persist_hard_state env h rt) (\<lambda>rt _.
       Panic (Todo ''send RequestVoteResponse through the Raft transport''))"
| "execute env (SendHeartbeat peers req) rt = Panic (Todo [])"
| "execute env (SendHeartbeatResponse peer resp reset through) rt = Panic (Todo [])"
| "execute env (PersistEntries op peer resp trunc leader_commit) rt = Panic (Todo [])"
| "execute env (ApplyCommitted op through) rt = execute_apply env op through rt"
| "execute env (RejectAppendEntries op peer resp) rt =
     obind (get_operation op rt) (\<lambda>(rt, o').
     obind (expect_append ''operation must exist for append entries'' o') (\<lambda>(data, ch).
       let (rt, sent) = send_reply env ch (AppendReply (Inr resp)) rt
       in Done (give_back (Some data) rt, if sent then Inr None
                    else Inl (RejectingEntryFailed ''response receiver was dropped''))))"
| "execute env (AppendLocal op term last_index) rt = execute_append_local env op term rt"
| "execute env (CompleteOperation op) rt =
     obind (get_operation op rt) (\<lambda>(rt, o').
     obind (expect_write ''CompleteOperation effect must reference a write operation'' o') (\<lambda>(data, ch).
       Done (give_back data (fst (send_reply env ch (WriteReply (Inr ())) rt)), Inr None)))"

section \<open>The loop\<close>

text \<open>
  Only three effects lead to another event, and each of these events is closer to the end: a
  write is appended, an appended entry is applied, an applied entry is answered.
\<close>

fun event_rank :: "event \<Rightarrow> nat" where
  "event_rank (Write op) = 3"
| "event_rank (EntriesApplied en) = 1"
| "event_rank _ = 2"

lemma execute_next:
  assumes "execute env eff rt = Done (rt', Inr (Some ev))"
  shows "(\<exists>op through. eff = ApplyCommitted op through \<and> event_rank ev = 1) \<or>
    (\<exists>op term l. eff = AppendLocal op term l \<and> event_rank ev = 2)"
  using assms
  by (cases eff) (auto simp: obind_eq_Done and_then_eq_Done execute_apply_def execute_append_local_def
      Let_def case_prod_unfold split: if_splits)

lemma handle_next:
  assumes "handle ev s = Done (s', Inr (Some eff))"
  shows "eff = ApplyCommitted op through \<Longrightarrow> 2 \<le> event_rank ev"
    and "eff = AppendLocal op term l \<Longrightarrow> event_rank ev = 3"
  using assms by (cases ev; auto simp: step_simps handle_write_def leader_heartbeat_def split: if_splits)+

lemma rank_decreases:
  assumes "handle ev (rt_raft rt) = Done (s', Inr (Some eff))" and "execute env eff rt' = Done (rt'', Inr (Some ev'))"
  shows "event_rank ev' < event_rank ev"
  using execute_next [OF assms(2)] handle_next [OF assms(1)] by fastforce

function drive :: "'f rt_env \<Rightarrow> event \<Rightarrow> 'f runtime \<Rightarrow> ('f, unit) rt_result" where
  "drive env ev rt =
     (case handle ev (rt_raft rt) of
        Panic p \<Rightarrow> Panic p
      | Done (raft, Inl e) \<Rightarrow> Done (rt\<lparr>rt_raft := raft\<rparr>, Inl e)
      | Done (raft, Inr None) \<Rightarrow> Done (rt\<lparr>rt_raft := raft\<rparr>, Inr ())
      | Done (raft, Inr (Some eff)) \<Rightarrow>
          (case execute env eff (rt\<lparr>rt_raft := raft\<rparr>) of
             Panic p \<Rightarrow> Panic p
           | Done (rt', Inl e) \<Rightarrow> Done (rt', Inl e)
           | Done (rt', Inr None) \<Rightarrow> Done (rt', Inr ())
           | Done (rt', Inr (Some next_event)) \<Rightarrow> drive env next_event rt'))"
  by pat_completeness auto
termination
  by (relation "measure (\<lambda>(env, ev, rt). event_rank ev)") (auto dest: rank_decreases)

declare drive.simps [simp del]

definition handle_message :: "'f rt_env \<Rightarrow> runtime_message \<Rightarrow> 'f runtime \<Rightarrow> 'f runtime outcome" where
  "handle_message env msg rt =
     (case msg of MsgWrite data ch \<Rightarrow>
        obind (next_operation_id rt) (\<lambda>(rt, op).
          let replaced = map_of (rt_operations rt) op;
              rt = rt\<lparr>rt_operations := hm_insert op (OpWrite (Some data) ch) (rt_operations rt)\<rparr>
          in if replaced \<noteq> None then Panic (AssertionFailed ''replaced.is_none()'')
             else obind (drive env (Write op) rt) (\<lambda>(rt, r).
               Done (case r of Inl err \<Rightarrow> fail_operation env op err rt | Inr _ \<Rightarrow> rt))))"

text \<open>The messages the loop of \<^verbatim>\<open>run\<close> handles, in order.\<close>

fun run :: "'f rt_env \<Rightarrow> runtime_message list \<Rightarrow> 'f runtime \<Rightarrow> 'f runtime outcome" where
  "run env [] rt = Done rt"
| "run env (msg # msgs) rt = obind (handle_message env msg rt) (run env msgs)"

text \<open>
  The loop itself: every round takes the branch \<^verbatim>\<open>select!\<close> picks, the cancellation or the next
  message. The result has the messages the channel still holds when the loop breaks.
\<close>

datatype rt_input = Cancelled | Received runtime_message

fun run_select :: "'f rt_env \<Rightarrow> rt_input list \<Rightarrow> 'f runtime \<Rightarrow> ('f runtime \<times> rt_input list) outcome" where
  "run_select env [] rt = Done (rt, [])"
| "run_select env (Cancelled # rest) rt = Done (rt, rest)"
| "run_select env (Received msg # rest) rt = obind (handle_message env msg rt) (run_select env rest)"

lemma run_select_run:
  "run_select env (map Received msgs @ Cancelled # rest) rt = omap (\<lambda>rt'. (rt', rest)) (run env msgs rt)"
proof (induction msgs arbitrary: rt)
  case Nil
  show ?case by simp
next
  case (Cons msg msgs)
  then show ?case by (cases "handle_message env msg rt") simp_all
qed

end
