(* ===== verification/Runtime_Props.thy ===== *)
theory Runtime_Props
  imports Raft_Runtime Log_Theorems
begin

text \<open>
  What the runtime does with a write: one lemma per event of the loop, and their composition
  on a leader without peers, whose writes commit at once. The assumptions on code outside the
  repository are \<open>codec_ok\<close> (an encoded log entry decodes to itself) and \<open>fsm_total\<close> (the
  application accepts every command).
\<close>

section \<open>Assumptions\<close>

definition codec_ok :: "'f rt_env \<Rightarrow> bool" where
  "codec_ok env \<longleftrightarrow> (\<forall>e. \<exists>bs. re_encode env e = Inr bs \<and> re_decode env bs = Inr e)"

definition fsm_total :: "'f rt_env \<Rightarrow> bool" where
  "fsm_total env \<longleftrightarrow> (\<forall>f c. snd (re_apply env f c) = Inr ())"

definition encoded :: "'f rt_env \<Rightarrow> log_entry \<Rightarrow> byte list" where
  "encoded env e = (case re_encode env e of Inl _ \<Rightarrow> [] | Inr bs \<Rightarrow> bs)"

definition apply_command :: "'f rt_env \<Rightarrow> log_entry \<Rightarrow> 'f \<Rightarrow> 'f" where
  "apply_command env e f = fst (re_apply env f (en_command e))"

lemma codec_simps:
  assumes "codec_ok env"
  shows "re_encode env e = Inr (encoded env e)" and "re_decode env (encoded env e) = Inr e"
  using assms [unfolded codec_ok_def, rule_format, of e] by (auto simp: encoded_def)

lemma fsm_simps: "fsm_total env \<Longrightarrow> re_apply env f (en_command e) = (apply_command env e f, Inr ())"
  by (simp add: fsm_total_def apply_command_def prod_eq_iff)

section \<open>Steps of the loop\<close>

lemma drive_step:
  "handle ev (rt_raft rt) = Done (s, Inr (Some eff)) \<Longrightarrow>
   execute env eff (rt\<lparr>rt_raft := s\<rparr>) = Done (rt', Inr (Some ev')) \<Longrightarrow>
   drive env ev rt = drive env ev' rt'"
  by (subst drive.simps) simp

lemma drive_stop:
  "handle ev (rt_raft rt) = Done (s, Inr (Some eff)) \<Longrightarrow>
   execute env eff (rt\<lparr>rt_raft := s\<rparr>) = Done (rt', Inr None) \<Longrightarrow>
   drive env ev rt = Done (rt', Inr ())"
  by (subst drive.simps) simp

lemma drive_fail:
  "handle ev (rt_raft rt) = Done (s, Inr (Some eff)) \<Longrightarrow>
   execute env eff (rt\<lparr>rt_raft := s\<rparr>) = Done (rt', Inl e) \<Longrightarrow>
   drive env ev rt = Done (rt', Inl e)"
  by (subst drive.simps) simp

lemma drive_refused:
  "handle ev (rt_raft rt) = Done (s, Inl e) \<Longrightarrow> drive env ev rt = Done (rt\<lparr>rt_raft := s\<rparr>, Inl e)"
  by (subst drive.simps) simp

section \<open>Applying committed entries\<close>

text \<open>The parts of the runtime that reading and applying entries leaves alone.\<close>

definition same_duties :: "'f runtime \<Rightarrow> 'f runtime \<Rightarrow> bool" where
  "same_duties rt rt' \<longleftrightarrow>
     rt_raft rt' = rt_raft rt \<and> rt_storage rt' = rt_storage rt \<and> rt_operations rt' = rt_operations rt \<and>
     rt_next_operation_id rt' = rt_next_operation_id rt \<and> rt_sent rt' = rt_sent rt \<and>
     rt_returned rt' = rt_returned rt \<and> lg_cfg (rt_log rt') = lg_cfg (rt_log rt)"

lemma same_duties_refl [simp]: "same_duties rt rt"
  by (simp add: same_duties_def)

lemma same_duties_trans: "same_duties a b \<Longrightarrow> same_duties b c \<Longrightarrow> same_duties a c"
  by (simp add: same_duties_def)

definition entries_held :: "'f rt_env \<Rightarrow> u64 \<Rightarrow> log_entry list \<Rightarrow> 'f runtime \<Rightarrow> bool" where
  "entries_held env b es rt \<longleftrightarrow> calm (re_log env) \<and> log_holds b (map (encoded env) es) (rt_log rt)"

lemma apply_entry_ok:
  assumes env: "codec_ok env" "fsm_total env" and held: "entries_held env b es rt" and i: "i < length es"
  shows "\<exists>rt'. apply_entry env (offset_at b i) rt = Done (rt', Inr ()) \<and> same_duties rt rt' \<and>
    entries_held env b es rt' \<and> rt_fsm rt' = apply_command env (es ! i) (rt_fsm rt)"
proof -
  obtain lg where "log_read (re_log env) (offset_at b i) (rt_log rt) = Done (lg, Inr (encoded env (es ! i)))"
    "log_holds b (map (encoded env) es) lg"
    using whole_log.read_law [of "re_log env" b "map (encoded env) es" "rt_log rt" i] held i
    by (auto simp: entries_held_def)
  moreover from this have "lg_cfg lg = lg_cfg (rt_log rt)" by (auto dest: log_read_cfg)
  ultimately show ?thesis
    using held env
    by (simp add: apply_entry_def on_log_def codec_simps fsm_simps same_duties_def entries_held_def Let_def)
qed

lemma apply_entries_ok:
  assumes env: "codec_ok env" "fsm_total env"
  shows "entries_held env b es rt \<Longrightarrow> k \<le> n \<Longrightarrow> n \<le> length es \<Longrightarrow>
    \<exists>rt'. apply_entries env (map (offset_at b) [k..<n]) rt = Done (rt', Inr ()) \<and> same_duties rt rt' \<and>
      entries_held env b es rt' \<and> rt_fsm rt' = fold (apply_command env) (drop k (take n es)) (rt_fsm rt)"
proof (induction "n - k" arbitrary: k rt)
  case 0
  then show ?case by simp
next
  case (Suc m)
  then have k: "k < n" "k < length es" by simp_all
  obtain rt1 where rt1: "apply_entry env (offset_at b k) rt = Done (rt1, Inr ())" "same_duties rt rt1"
    "entries_held env b es rt1" "rt_fsm rt1 = apply_command env (es ! k) (rt_fsm rt)"
    using apply_entry_ok [OF env Suc.prems(1) k(2)] by blast
  have "m = n - Suc k" "Suc k \<le> n" using Suc.hyps(2) k by simp_all
  from Suc.hyps(1) [OF this(1) rt1(3) this(2) Suc.prems(3)] obtain rt2 where
    rt2: "apply_entries env (map (offset_at b) [Suc k..<n]) rt1 = Done (rt2, Inr ())" "same_duties rt1 rt2"
    "entries_held env b es rt2" "rt_fsm rt2 = fold (apply_command env) (drop (Suc k) (take n es)) (rt_fsm rt1)"
    by blast
  have "drop k (take n es) = es ! k # drop (Suc k) (take n es)"
    using k by (simp flip: Cons_nth_drop_Suc)
  with rt1 rt2 k show ?case
    by (simp add: upt_conv_Cons same_duties_trans [OF rt1(2) rt2(2)] del: upt_Suc)
qed

lemma range_offsets:
  assumes "unat lo = unat b + k" and "unat hi + 1 = unat b + n"
  shows "inclusive_range lo hi = map (offset_at b) [k..<n]"
proof (rule nth_equalityI)
  show "length (inclusive_range lo hi) = length (map (offset_at b) [k..<n])"
    using assms by (simp add: inclusive_range_def)
  fix i assume "i < length (inclusive_range lo hi)"
  then have "i < Suc (unat hi) - unat lo" by (simp add: inclusive_range_def del: upt_Suc)
  moreover from this have "i < n - k" using assms by simp
  moreover have "word_of_nat (unat b + k + i) = offset_at b (k + i)"
    by (simp add: offset_at_def add.assoc)
  ultimately show "inclusive_range lo hi ! i = map (offset_at b) [k..<n] ! i"
    using assms by (simp add: inclusive_range_def del: upt_Suc)
qed

section \<open>A write\<close>

text \<open>Fresh identifiers: every pending operation is older than the next one.\<close>

definition ids_fresh :: "'f runtime \<Rightarrow> bool" where
  "ids_fresh rt \<longleftrightarrow>
     (\<forall>n. OperationId n \<in> set (hm_keys (rt_operations rt)) \<longrightarrow> n < rt_next_operation_id rt)"

abbreviation next_id :: "'f runtime \<Rightarrow> operation_id" where
  "next_id rt \<equiv> OperationId (rt_next_operation_id rt)"

lemma next_id_unused: "ids_fresh rt \<Longrightarrow> next_id rt \<notin> set (hm_keys (rt_operations rt))"
  by (auto simp: ids_fresh_def)

text \<open>The runtime when the loop starts on a new write.\<close>

definition registered :: "byte list \<Rightarrow> chan \<Rightarrow> 'f runtime \<Rightarrow> 'f runtime" where
  "registered data ch rt = rt
     \<lparr>rt_next_operation_id := rt_next_operation_id rt + 1,
      rt_operations := hm_insert (next_id rt) (OpWrite (Some data) ch) (rt_operations rt)\<rparr>"

lemma handle_message_drive:
  assumes "ids_fresh rt" and "rt_next_operation_id rt \<noteq> - 1"
  shows "handle_message env (MsgWrite data ch) rt =
    obind (drive env (Write (next_id rt)) (registered data ch rt)) (\<lambda>(rt', r).
      Done (case r of Inl err \<Rightarrow> fail_operation env (next_id rt) err rt' | Inr _ \<Rightarrow> rt'))"
proof -
  have "checked_add (rt_next_operation_id rt) 1 = Some (rt_next_operation_id rt + 1)"
    using assms(2) checked_add_1_None [of "rt_next_operation_id rt"]
    by (auto simp: checked_add_def split: if_splits)
  moreover have "map_of (rt_operations rt) (next_id rt) = None"
    using next_id_unused [OF assms(1)] hm_contains_iff [of "rt_operations rt" "next_id rt"]
    by (simp add: hm_contains_def)
  ultimately show ?thesis
    by (simp add: handle_message_def next_operation_id_def registered_def Let_def)
qed

text \<open>The first step on a leader: the entry is in the log and the operation has lost its data.\<close>

definition appended :: "'f rt_env \<Rightarrow> log_entry \<Rightarrow> chan \<Rightarrow> log \<Rightarrow> 'f runtime \<Rightarrow> 'f runtime" where
  "appended env e ch lg rt = rt
     \<lparr>rt_next_operation_id := rt_next_operation_id rt + 1,
      rt_operations := hm_insert (next_id rt) (OpWrite None ch) (rt_operations rt),
      rt_buf := encoded env e, rt_log := lg, rt_returned := rt_returned rt @ [en_command e]\<rparr>"

lemma execute_append:
  assumes "codec_ok env" and "ids_fresh rt" and "e = \<lparr>en_term = t, en_command = data\<rparr>"
    and "log_append (re_log env) (encoded env e) (rt_log rt) = Done (lg, r)"
  shows "execute env (AppendLocal (next_id rt) t l) (registered data ch rt) =
    Done (appended env e ch lg rt, case r of Inl _ \<Rightarrow> Inl AppendFailed
      | Inr i \<Rightarrow> Inr (Some (LocalEntriesAppended
          \<lparr>le_operation_id = next_id rt, le_index = i, le_term = t\<rparr>)))"
proof -
  have del: "hm_delete (next_id rt) (hm_insert (next_id rt) v (rt_operations rt)) = rt_operations rt" for v
    using next_id_unused [OF assms(2)] by (simp add: hm_delete_insert hm_delete_absent)
  show ?thesis
    using assms(1,3,4)
    by (cases r) (simp_all add: execute_append_local_def get_operation_def registered_def on_log_def del
        codec_simps Let_def appended_def)
qed

lemma drive_write:
  assumes "codec_ok env" and "ids_fresh rt" and lead: "role (rt_raft rt) = Leader"
    and e: "e = \<lparr>en_term = current_term (rt_raft rt), en_command = data\<rparr>"
    and app: "log_append (re_log env) (encoded env e) (rt_log rt) = Done (lg, Inr i)"
  shows "drive env (Write (next_id rt)) (registered data ch rt) =
    drive env (LocalEntriesAppended
      \<lparr>le_operation_id = next_id rt, le_index = i, le_term = current_term (rt_raft rt)\<rparr>)
      (appended env e ch lg rt)"
proof (rule drive_step)
  show "handle (Write (next_id rt)) (rt_raft (registered data ch rt)) =
      Done (rt_raft rt, Inr (Some (AppendLocal (next_id rt) (current_term (rt_raft rt)) (last_log_index (rt_raft rt)))))"
    using lead by (simp add: registered_def handle_write_def)
  have "(registered data ch rt)\<lparr>rt_raft := rt_raft rt\<rparr> = registered data ch rt"
    by (simp add: registered_def)
  with execute_append [OF assms(1,2) e app]
  show "execute env (AppendLocal (next_id rt) (current_term (rt_raft rt)) (last_log_index (rt_raft rt)))
      ((registered data ch rt)\<lparr>rt_raft := rt_raft rt\<rparr>) =
    Done (appended env e ch lg rt, Inr (Some (LocalEntriesAppended
      \<lparr>le_operation_id = next_id rt, le_index = i, le_term = current_term (rt_raft rt)\<rparr>)))"
    by simp
qed

text \<open>The last step: the reply goes out and the operation leaves the table.\<close>

lemma drive_applied:
  assumes "role (rt_raft rt) = Leader" and "map_of (rt_operations rt) op = Some (OpWrite data ch)"
  shows "drive env (EntriesApplied \<lparr>ae_operation_id = op, ae_through = n\<rparr>) rt =
    Done (give_back data (fst (send_reply env ch (WriteReply (Inr ()))
      (rt\<lparr>rt_raft := (rt_raft rt)\<lparr>last_applied := n\<rparr>,
          rt_operations := hm_delete op (rt_operations rt)\<rparr>))), Inr ())"
  using assms
  by (subst drive.simps)
    (simp add: handle_entries_applied_def get_operation_def send_reply_def)

section \<open>A leader without peers\<close>

definition alone :: "raft \<Rightarrow> bool" where
  "alone s \<longleftrightarrow> role s = Leader \<and> hm_keys (voters s) = [self_id s] \<and> learners s = []"

text \<open>The state after the leader's own entry, which commits at once.\<close>

definition self_committed :: "u64 \<Rightarrow> raft \<Rightarrow> raft" where
  "self_committed i s = s
     \<lparr>last_log_index := i, last_log_term := current_term s,
      voters := hm_modify (self_id s) (\<lambda>p. p\<lparr>match_index := i, next_index := i + 1\<rparr>) (voters s),
      commit_index := i\<rparr>"

lemma handle_alone_appended:
  assumes "alone s" and "i \<noteq> - 1"
  shows "handle (LocalEntriesAppended \<lparr>le_operation_id = op, le_index = i, le_term = current_term s\<rparr>) s =
    Done (self_committed i s, Inr (Some (ApplyCommitted op i)))"
proof -
  obtain p where v: "voters s = [(self_id s, p)]"
    using assms(1) by (cases "voters s") (auto simp: alone_def hm_keys_def)
  have add: "add_w i 1 = Done (i + 1)"
    using assms(2) panics_add_1 [of i] by (auto simp: add_w_def checked_add_def split: if_splits)
  have "replication_targets s = []" using assms(1) v by (simp add: replication_targets_def alone_def)
  with assms(1) v add show ?thesis
    by (simp add: handle_local_entry_appended_def alone_def hm_contains_def self_committed_def ok_some_def Let_def)
qed

lemma self_committed_alone: "alone s \<Longrightarrow> alone (self_committed i s)"
  by (simp add: alone_def self_committed_def)

end
