(* ===== verification/Runtime_Theorems.thy ===== *)
theory Runtime_Theorems
  imports Runtime_Props
begin

text \<open>
  The properties of the runtime: what becomes of a client's write on a follower, on a leader
  without peers and on a leader with peers, how a sequence of writes refines the application's
  state machine, and that the loop ends.
\<close>

section \<open>A node that is its own majority\<close>

text \<open>
  The log starts at offset one and holds the entries \<open>es\<close>, of which the first \<open>k\<close> have been
  applied.
\<close>

definition lone_node :: "'f rt_env \<Rightarrow> log_entry list \<Rightarrow> nat \<Rightarrow> 'f runtime \<Rightarrow> bool" where
  "lone_node env es k rt \<longleftrightarrow>
     alone (rt_raft rt) \<and> entries_held env 1 es rt \<and> unat (last_applied (rt_raft rt)) = k \<and>
     k \<le> length es \<and> ids_fresh rt"

text \<open>
  The same from any first offset \<open>b\<close>: the next entry to apply is the one at place \<open>k\<close>. On a log that
  starts at zero that place is one from the start, since nothing applied and the entry at zero
  applied are both the index zero.
\<close>

definition lone_from :: "'f rt_env \<Rightarrow> u64 \<Rightarrow> log_entry list \<Rightarrow> nat \<Rightarrow> 'f runtime \<Rightarrow> bool" where
  "lone_from env b es k rt \<longleftrightarrow>
     alone (rt_raft rt) \<and> entries_held env b es rt \<and> unat (last_applied (rt_raft rt)) + 1 = unat b + k \<and>
     k \<le> length es + (1 - unat b) \<and> ids_fresh rt"

lemma lone_node_from: "lone_node env es k rt \<longleftrightarrow> lone_from env 1 es k rt"
  by (auto simp: lone_node_def lone_from_def)

definition new_entry :: "byte list \<Rightarrow> 'f runtime \<Rightarrow> log_entry" where
  "new_entry data rt = \<lparr>en_term = current_term (rt_raft rt), en_command = data\<rparr>"

lemma ids_fresh_next:
  assumes "ids_fresh rt" and "rt_next_operation_id rt \<noteq> - 1"
    and "rt_operations rt' = rt_operations rt" and "rt_next_operation_id rt' = rt_next_operation_id rt + 1"
  shows "ids_fresh rt'"
proof -
  have "rt_next_operation_id rt < rt_next_operation_id rt + 1"
    using assms(2) checked_add_1_None [of "rt_next_operation_id rt"] checked_add_1_less
    by (force simp: checked_add_def split: if_splits)
  then show ?thesis
    using assms(1,3,4) unfolding ids_fresh_def by (metis order.strict_trans)
qed

text \<open>The second half of the write: everything not yet applied is applied and answered.\<close>

lemma drive_alone:
  assumes env: "codec_ok env" "fsm_total env" and alone: "alone (rt_raft rt)"
    and held: "entries_held env b es rt" and k: "unat (last_applied (rt_raft rt)) + 1 = unat b + k" "k \<le> length es"
    and i: "unat i + 1 = unat b + length es" "i \<noteq> - 1" and op: "map_of (rt_operations rt) op = Some (OpWrite None ch)"
  shows "\<exists>rt'. drive env (LocalEntriesAppended
      \<lparr>le_operation_id = op, le_index = i, le_term = current_term (rt_raft rt)\<rparr>) rt = Done (rt', Inr ()) \<and>
    rt_raft rt' = (self_committed i (rt_raft rt))\<lparr>last_applied := i\<rparr> \<and> entries_held env b es rt' \<and>
    rt_fsm rt' = fold (apply_command env) (drop k es) (rt_fsm rt) \<and>
    rt_operations rt' = hm_delete op (rt_operations rt) \<and> rt_storage rt' = rt_storage rt \<and>
    rt_next_operation_id rt' = rt_next_operation_id rt \<and> lg_cfg (rt_log rt') = lg_cfg (rt_log rt) \<and>
    rt_returned rt' = rt_returned rt \<and>
    rt_sent rt' = rt_sent rt @ (if re_dropped env ch then [] else [(ch, WriteReply (Inr ()))])"
proof -
  have "unat i < 2 ^ 64 - 1" 
  proof -
    have "unat i \<noteq> unat (- 1 :: u64)" using i(2) word_unat_eq_iff [of i "- 1"] by blast
    moreover have "unat (- 1 :: u64) = 2 ^ 64 - 1" using unat_max_word [where 'a = 64] by simp
    moreover have "unat i < 2 ^ 64" using unsigned_less [of i, where 'a = nat] by simp
    ultimately show ?thesis by linarith
  qed
  let ?s = "self_committed i (rt_raft rt)"
  let ?rt1 = "rt\<lparr>rt_raft := ?s\<rparr>"
  have "unat (saturating_add (last_applied (rt_raft rt)) 1) = unat b + k"
    using k i(1) \<open>unat i < 2 ^ 64 - 1\<close> by (simp add: unat_saturating_add)
  then have range: "inclusive_range (saturating_add (last_applied (rt_raft rt)) 1) i = map (offset_at b) [k..<length es]"
    using i(1) by (intro range_offsets) simp_all
  have "entries_held env b es ?rt1" using held by (simp add: entries_held_def)
  then obtain rt2 where rt2: "apply_entries env (map (offset_at b) [k..<length es]) ?rt1 = Done (rt2, Inr ())"
    "same_duties ?rt1 rt2" "entries_held env b es rt2"
    "rt_fsm rt2 = fold (apply_command env) (drop k es) (rt_fsm rt)"
    using apply_entries_ok [OF env, of b es ?rt1 k "length es"] k(2) by auto
  have "last_applied ?s = last_applied (rt_raft rt)" by (simp add: self_committed_def)
  then have "execute env (ApplyCommitted op i) ?rt1 =
      Done (rt2, Inr (Some (EntriesApplied \<lparr>ae_operation_id = op, ae_through = i\<rparr>)))"
    using rt2(1) range by (simp add: execute_apply_def)
  then have "drive env (LocalEntriesAppended
      \<lparr>le_operation_id = op, le_index = i, le_term = current_term (rt_raft rt)\<rparr>) rt =
      drive env (EntriesApplied \<lparr>ae_operation_id = op, ae_through = i\<rparr>) rt2"
    by (rule drive_step [OF handle_alone_appended [OF alone i(2)]])
  moreover have "role (rt_raft rt2) = Leader" "map_of (rt_operations rt2) op = Some (OpWrite None ch)"
    using rt2(2) self_committed_alone [OF alone] op by (auto simp: same_duties_def alone_def)
  ultimately show ?thesis
    using rt2 drive_applied [of rt2 op None ch env i]
    by (simp add: same_duties_def send_reply_def entries_held_def)
qed

lemma lone_write_from:
  assumes env: "codec_ok env" "fsm_total env" and lone: "lone_from env b es k rt"
    and room: "log_room (encoded env (new_entry data rt)) (rt_log rt)" and id: "rt_next_operation_id rt \<noteq> - 1"
  shows "\<exists>rt'. handle_message env (MsgWrite data ch) rt = Done rt' \<and>
    lone_from env b (es @ [new_entry data rt]) (length es + 1) rt' \<and>
    rt_fsm rt' = fold (apply_command env) (drop k (es @ [new_entry data rt])) (rt_fsm rt) \<and>
    unat (commit_index (rt_raft rt')) = unat b + length es \<and> current_term (rt_raft rt') = current_term (rt_raft rt) \<and>
    rt_operations rt' = rt_operations rt \<and> rt_storage rt' = rt_storage rt \<and>
    rt_next_operation_id rt' = rt_next_operation_id rt + 1 \<and> lg_cfg (rt_log rt') = lg_cfg (rt_log rt) \<and>
    rt_returned rt' = rt_returned rt @ [data] \<and>
    rt_sent rt' = rt_sent rt @ (if re_dropped env ch then [] else [(ch, WriteReply (Inr ()))])"
proof -
  let ?e = "new_entry data rt" and ?i = "sg_next (active_segment (rt_log rt))"
  let ?es = "es @ [?e]"
  have alone: "alone (rt_raft rt)" and held: "calm (re_log env)" "log_holds b (map (encoded env) es) (rt_log rt)"
    and k: "unat (last_applied (rt_raft rt)) + 1 = unat b + k" "k \<le> length es + (1 - unat b)" and fresh: "ids_fresh rt"
    using lone by (simp_all add: lone_from_def entries_held_def)
  obtain lg where app: "log_append (re_log env) (encoded env ?e) (rt_log rt) = Done (lg, Inr ?i)"
    and lg: "log_holds b (map (encoded env) ?es) lg"
    using log_append_calm [OF held room] by auto
  have i: "unat ?i + 1 = unat b + length ?es" "?i \<noteq> - 1"
    using log_next_holds(2) [OF held(2)] room by (auto simp: log_room_def)
  let ?rt1 = "appended env ?e ch lg rt"
  have rt1: "alone (rt_raft ?rt1)" "entries_held env b ?es ?rt1" "unat (last_applied (rt_raft ?rt1)) + 1 = unat b + k"
    "k \<le> length ?es" "map_of (rt_operations ?rt1) (next_id rt) = Some (OpWrite None ch)"
    "rt_raft ?rt1 = rt_raft rt"
    using alone lg held(1) k by (simp_all add: appended_def entries_held_def)
  have role: "role (rt_raft rt) = Leader" using alone by (simp add: alone_def)
  note first = drive_write [OF env(1) fresh role new_entry_def app, of ch]
  from drive_alone [OF env rt1(1-4) i rt1(5)] obtain rt' where
    rt': "drive env (LocalEntriesAppended
        \<lparr>le_operation_id = next_id rt, le_index = ?i, le_term = current_term (rt_raft rt)\<rparr>) ?rt1 = Done (rt', Inr ())"
      "rt_raft rt' = (self_committed ?i (rt_raft rt))\<lparr>last_applied := ?i\<rparr>" "entries_held env b ?es rt'"
      "rt_fsm rt' = fold (apply_command env) (drop k ?es) (rt_fsm ?rt1)"
      "rt_operations rt' = hm_delete (next_id rt) (rt_operations ?rt1)" "rt_storage rt' = rt_storage ?rt1"
      "rt_next_operation_id rt' = rt_next_operation_id ?rt1" "lg_cfg (rt_log rt') = lg_cfg lg"
      "rt_returned rt' = rt_returned ?rt1" "rt_sent rt' = rt_sent ?rt1 @ (if re_dropped env ch then [] else [(ch, WriteReply (Inr ()))])"
    unfolding rt1(6) by (auto simp: appended_def)
  have cfg: "lg_cfg lg = lg_cfg (rt_log rt)" using app by (rule log_append_cfg)
  have ops: "rt_operations rt' = rt_operations rt"
    using rt'(5) next_id_unused [OF fresh] by (simp add: appended_def hm_delete_insert hm_delete_absent)
  have "handle_message env (MsgWrite data ch) rt = Done rt'"
    using handle_message_drive [OF fresh id, of env data ch] first rt'(1) by (simp add: new_entry_def)
  moreover have "lone_from env b ?es (length es + 1) rt'"
    using rt' self_committed_alone [OF alone] i ids_fresh_next [OF fresh id ops]
    by (simp add: lone_from_def alone_def appended_def)
  moreover have "commit_index (rt_raft rt') = ?i" "current_term (rt_raft rt') = current_term (rt_raft rt)"
    using rt'(2) by (simp_all add: self_committed_def)
  ultimately show ?thesis
    using rt' ops i k(2) cfg by (intro exI [of _ rt']) (simp add: appended_def new_entry_def)
qed

lemma lone_write:
  assumes "codec_ok env" and "fsm_total env" and "lone_node env es k rt"
    and "log_room (encoded env (new_entry data rt)) (rt_log rt)" and "rt_next_operation_id rt \<noteq> - 1"
  shows "\<exists>rt'. handle_message env (MsgWrite data ch) rt = Done rt' \<and>
    lone_node env (es @ [new_entry data rt]) (length es + 1) rt' \<and>
    rt_fsm rt' = fold (apply_command env) (drop k es @ [new_entry data rt]) (rt_fsm rt) \<and>
    unat (commit_index (rt_raft rt')) = length es + 1 \<and> current_term (rt_raft rt') = current_term (rt_raft rt) \<and>
    rt_operations rt' = rt_operations rt \<and> rt_storage rt' = rt_storage rt \<and>
    rt_next_operation_id rt' = rt_next_operation_id rt + 1 \<and> lg_cfg (rt_log rt') = lg_cfg (rt_log rt) \<and>
    rt_returned rt' = rt_returned rt @ [data] \<and>
    rt_sent rt' = rt_sent rt @ (if re_dropped env ch then [] else [(ch, WriteReply (Inr ()))])"
proof -
  have "k \<le> length es" using assms(3) by (simp add: lone_node_def)
  with lone_write_from [OF assms(1,2) assms(3) [unfolded lone_node_from] assms(4,5), of ch] show ?thesis
    by (simp add: lone_node_from)
qed

section \<open>A sequence of writes\<close>

text \<open>A command whose entry fits the configured store, and the entries of a sequence of writes.\<close>

definition fits :: "'f rt_env \<Rightarrow> log_config \<Rightarrow> log_entry \<Rightarrow> bool" where
  "fits env cfg e \<longleftrightarrow> length (encoded env e) < 2 ^ 63 \<and>
     unat (log_max_store_bytes cfg) + 8 + length (encoded env e) \<le> 2 ^ 64"

definition entries_of :: "u64 \<Rightarrow> (byte list \<times> chan) list \<Rightarrow> log_entry list" where
  "entries_of t ws = map (\<lambda>(data, ch). \<lparr>en_term = t, en_command = data\<rparr>) ws"

definition acks :: "'f rt_env \<Rightarrow> (byte list \<times> chan) list \<Rightarrow> (chan \<times> reply) list" where
  "acks env ws = map (\<lambda>(data, ch). (ch, WriteReply (Inr ()))) (filter (\<lambda>(data, ch). \<not> re_dropped env ch) ws)"

definition writes :: "(byte list \<times> chan) list \<Rightarrow> runtime_message list" where
  "writes ws = map (\<lambda>(data, ch). MsgWrite data ch) ws"

lemma lone_room:
  assumes "lone_from env b es k rt" and "fits env (lg_cfg (rt_log rt)) e" and "unat b + length es + 1 < 2 ^ 64"
  shows "log_room (encoded env e) (rt_log rt)"
  using assms
  by (intro log_room_cfg [where b = b and rs = "map (encoded env) es"])
    (simp_all add: lone_from_def entries_held_def fits_def)

lemma lone_writes_from:
  assumes env: "codec_ok env" "fsm_total env"
  shows "lone_from env b es k rt \<Longrightarrow> current_term (rt_raft rt) = t \<Longrightarrow>
    list_all (fits env (lg_cfg (rt_log rt))) (entries_of t ws) \<Longrightarrow>
    unat b + length es + length ws + 1 < 2 ^ 64 \<Longrightarrow> unat (rt_next_operation_id rt) + length ws < 2 ^ 64 \<Longrightarrow>
    \<exists>rt'. run env (writes ws) rt = Done rt' \<and> entries_held env b (es @ entries_of t ws) rt' \<and>
      rt_fsm rt' = fold (apply_command env) (if ws = [] then [] else drop k (es @ entries_of t ws)) (rt_fsm rt) \<and>
      rt_sent rt' = rt_sent rt @ acks env ws \<and> rt_operations rt' = rt_operations rt \<and>
      rt_storage rt' = rt_storage rt \<and> lg_cfg (rt_log rt') = lg_cfg (rt_log rt) \<and>
      (ws \<noteq> [] \<longrightarrow> unat (commit_index (rt_raft rt')) + 1 = unat b + length es + length ws)"
proof (induction ws arbitrary: es k rt)
  case Nil
  then show ?case by (simp add: writes_def entries_of_def acks_def lone_from_def)
next
  case (Cons w ws)
  obtain data ch where w: "w = (data, ch)" by (cases w)
  let ?e = "\<lparr>en_term = t, en_command = data\<rparr>"
  have e: "new_entry data rt = ?e" using Cons.prems(2) by (simp add: new_entry_def)
  have id: "rt_next_operation_id rt \<noteq> - 1"
    using Cons.prems(5) unat_max_word [where 'a = 64] by auto
  have "log_room (encoded env (new_entry data rt)) (rt_log rt)"
    unfolding e using Cons.prems w by (intro lone_room) (auto simp: entries_of_def)
  from lone_write_from [OF env Cons.prems(1) this id, of ch] obtain rt1 where
    rt1: "handle_message env (MsgWrite data ch) rt = Done rt1" "lone_from env b (es @ [?e]) (length es + 1) rt1"
      "rt_fsm rt1 = fold (apply_command env) (drop k (es @ [?e])) (rt_fsm rt)"
      "unat (commit_index (rt_raft rt1)) = unat b + length es" "current_term (rt_raft rt1) = t"
      "rt_operations rt1 = rt_operations rt" "rt_next_operation_id rt1 = rt_next_operation_id rt + 1"
      "lg_cfg (rt_log rt1) = lg_cfg (rt_log rt)" "rt_sent rt1 = rt_sent rt @ acks env [w]"
      "rt_storage rt1 = rt_storage rt"
    unfolding e w using Cons.prems(2) by (auto simp: acks_def)
  have "unat (rt_next_operation_id rt1) + length ws < 2 ^ 64"
    using Cons.prems(5) unat_add_lem' [of "rt_next_operation_id rt" 1] by (simp add: rt1(7))
  then obtain rt2 where rt2: "run env (writes ws) rt1 = Done rt2"
    "entries_held env b ((es @ [?e]) @ entries_of t ws) rt2"
    "rt_fsm rt2 = fold (apply_command env)
      (if ws = [] then [] else drop (length es + 1) ((es @ [?e]) @ entries_of t ws)) (rt_fsm rt1)"
    "rt_sent rt2 = rt_sent rt1 @ acks env ws" "rt_operations rt2 = rt_operations rt1"
    "rt_storage rt2 = rt_storage rt1" "lg_cfg (rt_log rt2) = lg_cfg (rt_log rt1)"
    "ws \<noteq> [] \<longrightarrow> unat (commit_index (rt_raft rt2)) + 1 = unat b + length (es @ [?e]) + length ws"
    using Cons.IH [OF rt1(2,5)] Cons.prems(3,4) rt1(8) by (auto simp: entries_of_def)
  have ents: "entries_of t (w # ws) = ?e # entries_of t ws" by (simp add: entries_of_def w)
  have fsm: "rt_fsm rt2 = fold (apply_command env) (drop k (es @ entries_of t (w # ws))) (rt_fsm rt)"
  proof -
    have "k \<le> length (es @ [?e])" using Cons.prems(1) by (auto simp: lone_from_def)
    then have "drop k (es @ ?e # entries_of t ws) = drop k (es @ [?e]) @ entries_of t ws"
      using drop_append [of k "es @ [?e]" "entries_of t ws"] by simp
    then show ?thesis unfolding ents using rt1(3) rt2(3) by (cases ws) (simp_all add: entries_of_def)
  qed
  have "rt_sent rt2 = rt_sent rt @ acks env (w # ws)"
    using rt1(9) rt2(4) by (simp add: acks_def)
  moreover have "run env (writes (w # ws)) rt = Done rt2"
    using rt1(1) rt2(1) by (simp add: writes_def w)
  moreover have "unat (commit_index (rt_raft rt2)) + 1 = unat b + length es + length (w # ws)"
    using rt2(1,8) rt1(1,4) by (cases ws) (auto simp: writes_def)
  ultimately show ?case
    using fsm rt2 rt1(6,8,10) ents by (intro exI [of _ rt2]) simp
qed

lemma lone_writes:
  assumes "codec_ok env" and "fsm_total env" and "lone_node env es k rt" and "current_term (rt_raft rt) = t"
    and "list_all (fits env (lg_cfg (rt_log rt))) (entries_of t ws)"
    and "length es + length ws + 2 < 2 ^ 64" and "unat (rt_next_operation_id rt) + length ws < 2 ^ 64"
  shows "\<exists>rt'. run env (writes ws) rt = Done rt' \<and> entries_held env 1 (es @ entries_of t ws) rt' \<and>
      rt_fsm rt' = fold (apply_command env) (if ws = [] then [] else drop k es @ entries_of t ws) (rt_fsm rt) \<and>
      rt_sent rt' = rt_sent rt @ acks env ws \<and> rt_operations rt' = rt_operations rt \<and>
      rt_storage rt' = rt_storage rt \<and> lg_cfg (rt_log rt') = lg_cfg (rt_log rt) \<and>
      (ws \<noteq> [] \<longrightarrow> unat (commit_index (rt_raft rt')) = length es + length ws)"
proof -
  have eq: "drop k (es @ entries_of t ws) = drop k es @ entries_of t ws" using assms(3) by (simp add: lone_node_def)
  from lone_writes_from [OF assms(1,2) assms(3) [unfolded lone_node_from] assms(4,5)] assms(6,7) show ?thesis
    unfolding eq by simp
qed

section \<open>A concrete node\<close>

text \<open>An entry as its term and its command, and an application that lists its commands.\<close>

definition demo_env :: "byte list list rt_env" where
  "demo_env = \<lparr>re_log = calm_env, re_faults = (\<lambda>_. None),
     re_encode = (\<lambda>e. Inr (u64_to_be (en_term e) @ en_command e)),
     re_decode = (\<lambda>bs. Inr \<lparr>en_term = u64_from_be (take 8 bs), en_command = drop 8 bs\<rparr>),
     re_apply = (\<lambda>f c. (f @ [c], Inr ())), re_dropped = (\<lambda>_. False)\<rparr>"

lemma demo_env_ok: "codec_ok demo_env" "fsm_total demo_env"
  by (simp_all add: codec_ok_def fsm_total_def demo_env_def be64.length_enc be64.dec_enc)

text \<open>The node of the source's test: started on an empty directory and made leader by hand.\<close>

definition lead_in :: "u64 \<Rightarrow> 'f runtime \<Rightarrow> 'f runtime" where
  "lead_in t rt = rt\<lparr>rt_raft := (rt_raft rt)\<lparr>role := Leader, current_term := t\<rparr>\<rparr>"

abbreviation lead :: "'f runtime \<Rightarrow> 'f runtime" where
  "lead rt \<equiv> lead_in 1 rt"

lemma runtime_new_lone:
  assumes "log_next_offset lg = Done n" and "load_state \<lparr>st_dir = log_directory lg, st_file = f\<rparr> = Done h"
  shows "\<exists>rt. runtime_new me [me] lg fsm (Inr f) = Done rt \<and> alone (rt_raft (lead_in t rt)) \<and>
    rt_log rt = lg \<and> rt_fsm rt = fsm \<and> last_applied (rt_raft rt) = 0 \<and> ids_fresh rt \<and>
    rt_operations rt = [] \<and> rt_sent rt = [] \<and> rt_returned rt = [] \<and> rt_next_operation_id rt = 1 \<and>
    hard_state (rt_raft rt) = h \<and> st_file (rt_storage rt) = f"
  using assms
  by (cases h) (simp add: runtime_new_def storage_new_def raft_new_member boot_raft_def lead_in_def
      alone_def hm_insert_def ids_fresh_def hm_keys_def hard_state_def)

text \<open>An empty file is the state before the first vote.\<close>

lemma load_empty: "load_state \<lparr>st_dir = d, st_file = []\<rparr> = Done \<lparr>hs_current_term = 0, hs_voted_for = None\<rparr>"
  by (simp add: load_state_def)

lemma lead_simps [simp]:
  "rt_log (lead_in t rt) = rt_log rt" "rt_fsm (lead_in t rt) = rt_fsm rt"
  "rt_operations (lead_in t rt) = rt_operations rt" "rt_storage (lead_in t rt) = rt_storage rt"
  "rt_sent (lead_in t rt) = rt_sent rt" "rt_returned (lead_in t rt) = rt_returned rt"
  "rt_next_operation_id (lead_in t rt) = rt_next_operation_id rt"
  "last_applied (rt_raft (lead_in t rt)) = last_applied (rt_raft rt)" "current_term (rt_raft (lead_in t rt)) = t"
  "ids_fresh (lead_in t rt) = ids_fresh rt"
  by (simp_all add: lead_in_def ids_fresh_def)

lemma demo_node:
  "\<exists>lg rt. log_new calm_env (small_cfg sync) ''data'' (Some []) = Done (Inr lg) \<and>
     runtime_new (NodeId ''node-1'') [NodeId ''node-1''] lg [] (Inr []) = Done rt \<and>
     lone_node demo_env [] 0 (lead rt) \<and> lg_cfg (rt_log rt) = small_cfg sync \<and> rt_fsm rt = [] \<and>
     rt_sent rt = [] \<and> rt_returned rt = [] \<and> rt_operations rt = [] \<and> rt_next_operation_id rt = 1"
proof -
  obtain lg where lg: "log_new calm_env (small_cfg sync) ''data'' (Some []) = Done (Inr lg)"
    "log_holds 1 [] lg" "lg_cfg lg = small_cfg sync"
    using small_log [of sync] by blast
  have "calm (re_log demo_env)" "log_holds 1 (map (encoded demo_env) []) lg"
    using lg(2) calm_calm_env by (simp_all add: demo_env_def)
  from runtime_new_lone [OF log_next_holds(1) [OF this(2)] load_empty, of "NodeId ''node-1''" "[]" 1] lg this
  show ?thesis by (auto simp: lone_node_def entries_held_def)
qed

lemma demo_fits: "length data < 100 \<Longrightarrow> fits demo_env (small_cfg sync) \<lparr>en_term = t, en_command = data\<rparr>"
  by (simp add: fits_def encoded_def demo_env_def small_cfg_def be64.length_enc)

section \<open>Properties\<close>

text \<open>
  C4. The replicated state machine. Consider a leader that is its own majority, whose log starts at
  offset one under a configuration whose index limit is a positive multiple of twelve (\<open>cfg_ok\<close>;
  under the 1024 of the source's own test every write after the 85th fails), in an environment
  where no system call fails, entries decode to themselves and the application accepts every
  command. After any non-empty sequence of writes that fit the store and the counters, the log
  holds its former entries followed by the new ones, the application's state is its \<^verbatim>\<open>apply\<close> folded
  over every entry not applied before, each exactly once and in log order, everything is
  committed, every write whose client listens has been acknowledged once and in order, and no
  operation is left behind. With nothing applied before, this replays the whole log first.\<close>

theorem writes_refine_state_machine:
  assumes "codec_ok env" and "fsm_total env" and "lone_node env es k rt" and "ws \<noteq> []"
    and "list_all (fits env (lg_cfg (rt_log rt))) (entries_of (current_term (rt_raft rt)) ws)"
    and "length es + length ws + 2 < 2 ^ 64" and "unat (rt_next_operation_id rt) + length ws < 2 ^ 64"
  shows "\<exists>rt'. run env (writes ws) rt = Done rt' \<and>
    entries_held env 1 (es @ entries_of (current_term (rt_raft rt)) ws) rt' \<and>
    rt_fsm rt' = fold (apply_command env) (drop k es @ entries_of (current_term (rt_raft rt)) ws) (rt_fsm rt) \<and>
    unat (commit_index (rt_raft rt')) = length es + length ws \<and>
    rt_sent rt' = rt_sent rt @ acks env ws \<and> rt_operations rt' = rt_operations rt"
  using lone_writes [OF assms(1-3) refl assms(5-7)] assms(4) by auto

theorem writes_refine_state_machine_witness:
  "\<exists>rt rt'. runtime_new (NodeId ''node-1'') [NodeId ''node-1''] (rt_log rt) [] (Inr []) = Done rt \<and>
     run demo_env (writes [([1], 10), ([2, 3], 11)]) (lead rt) = Done rt' \<and>
     rt_fsm rt' = [[1], [2, 3]] \<and>
     rt_sent rt' = [(10, WriteReply (Inr ())), (11, WriteReply (Inr ()))]"
proof -
  obtain lg rt where rt: "runtime_new (NodeId ''node-1'') [NodeId ''node-1''] lg [] (Inr []) = Done rt"
    "lone_node demo_env [] 0 (lead rt)" "lg_cfg (rt_log rt) = small_cfg False" "rt_fsm rt = []"
    "rt_sent rt = []" "rt_next_operation_id rt = 1"
    using demo_node [of False] by blast
  have lg: "rt_log rt = lg" using rt(1) by (auto simp: runtime_new_def obind_eq_Done)
  have "list_all (fits demo_env (lg_cfg (rt_log (lead rt))))
      (entries_of (current_term (rt_raft (lead rt))) [([1], 10), ([2, 3], 11)])"
    using rt(3) by (simp add: entries_of_def demo_fits)
  from writes_refine_state_machine [OF demo_env_ok rt(2) _ this] rt lg show ?thesis
    by (auto simp: entries_of_def acks_def apply_command_def demo_env_def)
qed

text \<open>
  C32. A node that is not the leader refuses a write: the client gets \<^verbatim>\<open>NotLeader\<close> with the
  leader the node knows, the command's buffer goes back to the pool, and apart from the
  identifier that was used up nothing else changes.\<close>

theorem follower_refuses_write:
  assumes "role (rt_raft rt) \<noteq> Leader" and "ids_fresh rt" and "rt_next_operation_id rt \<noteq> - 1"
    and "\<not> re_dropped env ch"
  shows "handle_message env (MsgWrite data ch) rt = Done (rt
    \<lparr>rt_next_operation_id := rt_next_operation_id rt + 1,
     rt_sent := rt_sent rt @ [(ch, WriteReply (Inl (NotLeader (leader_id (rt_raft rt)))))],
     rt_returned := rt_returned rt @ [data]\<rparr>)"
proof -
  have "handle (Write (next_id rt)) (rt_raft (registered data ch rt)) =
      Done (rt_raft rt, Inl (NotLeader (leader_id (rt_raft rt))))"
    using assms(1) by (simp add: registered_def handle_write_def)
  then have "drive env (Write (next_id rt)) (registered data ch rt) =
      Done ((registered data ch rt)\<lparr>rt_raft := rt_raft rt\<rparr>, Inl (NotLeader (leader_id (rt_raft rt))))"
    by (rule drive_refused)
  with handle_message_drive [OF assms(2,3), of env data ch] next_id_unused [OF assms(2)] assms(4)
  show ?thesis
    by (simp add: registered_def fail_operation_def send_reply_def hm_delete_insert hm_delete_absent)
qed

theorem follower_refuses_write_witness:
  "\<exists>rt rt' :: byte list list runtime. handle_message demo_env (MsgWrite [1] 10) rt = Done rt' \<and>
     rt_sent rt' = [(10, WriteReply (Inl (NotLeader None)))] \<and> rt_fsm rt' = []"
proof -
  obtain lg rt where rt: "runtime_new (NodeId ''node-1'') [NodeId ''node-1''] lg [] (Inr []) = Done rt"
    "lone_node demo_env [] 0 (lead rt)" "rt_fsm rt = []" "rt_sent rt = []" "rt_next_operation_id rt = 1"
    using demo_node [of False] by blast
  have "role (rt_raft rt) = Follower" "leader_id (rt_raft rt) = None"
    using rt(1) by (auto simp: runtime_new_def obind_eq_Done raft_new_def boot_raft_def Let_def split: if_splits)
  moreover have "ids_fresh rt" using rt(2) by (simp add: lone_node_def)
  ultimately have "handle_message demo_env (MsgWrite [1] 10) rt = Done (rt
    \<lparr>rt_next_operation_id := rt_next_operation_id rt + 1,
     rt_sent := rt_sent rt @ [(10, WriteReply (Inl (NotLeader None)))],
     rt_returned := rt_returned rt @ [[1]]\<rparr>)"
    using follower_refuses_write [of rt demo_env 10 "[1]"] rt(5) by (simp add: demo_env_def)
  with rt(3,4) show ?thesis by (intro exI) auto
qed

end
