(* ===== verification/Runtime_Invariants.thy ===== *)
theory Runtime_Invariants
  imports Runtime_Props "HOL-Library.Multiset"
begin

text \<open>
  What the runtime keeps whatever its disk, codec and application do: the loop of an event
  ends after three rounds, every pending operation is a write whose entry has been handed to
  the log, and every client is answered once or still waits. A last group shows that a leader
  with peers never acknowledges a write, since the executor sends nothing to them.
\<close>

section \<open>Rounds of the loop\<close>

text \<open>The loop of \<^verbatim>\<open>drive\<close> with a bound on its rounds.\<close>

fun drive_n :: "nat \<Rightarrow> 'f rt_env \<Rightarrow> event \<Rightarrow> 'f runtime \<Rightarrow> ('f, unit) rt_result option" where
  "drive_n 0 env ev rt = None"
| "drive_n (Suc n) env ev rt =
     (case handle ev (rt_raft rt) of
        Panic p \<Rightarrow> Some (Panic p)
      | Done (raft, Inl e) \<Rightarrow> Some (Done (rt\<lparr>rt_raft := raft\<rparr>, Inl e))
      | Done (raft, Inr None) \<Rightarrow> Some (Done (rt\<lparr>rt_raft := raft\<rparr>, Inr ()))
      | Done (raft, Inr (Some eff)) \<Rightarrow>
          (case execute env eff (rt\<lparr>rt_raft := raft\<rparr>) of
             Panic p \<Rightarrow> Some (Panic p)
           | Done (rt', Inl e) \<Rightarrow> Some (Done (rt', Inl e))
           | Done (rt', Inr None) \<Rightarrow> Some (Done (rt', Inr ()))
           | Done (rt', Inr (Some next_event)) \<Rightarrow> drive_n n env next_event rt'))"

lemma event_rank_bounds: "0 < event_rank ev" "event_rank ev \<le> 3"
  by (cases ev; simp)+

lemma drive_n_enough: "event_rank ev \<le> n \<Longrightarrow> drive_n n env ev rt = Some (drive env ev rt)"
proof (induction n arbitrary: ev rt)
  case 0
  then show ?case using event_rank_bounds(1) [of ev] by simp
next
  case (Suc n)
  have smaller: "drive_n n env ev' rt'' = Some (drive env ev' rt'')"
    if "handle ev (rt_raft rt) = Done (s, Inr (Some eff))" "execute env eff rt' = Done (rt'', Inr (Some ev'))"
    for s eff rt' rt'' ev'
    using rank_decreases [OF that] Suc by simp
  show ?case
    by (subst drive.simps)
      (auto simp: smaller split: outcome.splits prod.splits sum.splits option.splits)
qed

section \<open>What an event leaves alone\<close>

lemma drive_handled:
  assumes "drive env ev rt = Done y"
  obtains s q where "handle ev (rt_raft rt) = Done (s, q)"
  using assms by (cases "handle ev (rt_raft rt)") (auto simp: drive.simps [of env ev rt])

lemma on_log_frame: "on_log f rt = Done (rt', r) \<Longrightarrow> \<exists>lg. rt' = rt\<lparr>rt_log := lg\<rparr>"
  by (auto simp: on_log_def omap_eq_Done)

text \<open>Applying entries touches the log's handle, the buffer and the application only.\<close>

definition same_table :: "'f runtime \<Rightarrow> 'f runtime \<Rightarrow> bool" where
  "same_table rt rt' \<longleftrightarrow>
     rt_raft rt' = rt_raft rt \<and> rt_operations rt' = rt_operations rt \<and>
     rt_next_operation_id rt' = rt_next_operation_id rt \<and> rt_sent rt' = rt_sent rt"

lemma same_table_trans: "same_table a b \<Longrightarrow> same_table b c \<Longrightarrow> same_table a c"
  by (simp add: same_table_def)

lemma map_err_frame: "map_err f m = Done (s, r) \<Longrightarrow> \<exists>r'. m = Done (s, r')"
  by (auto simp: map_err_def omap_eq_Done)

lemma apply_entry_frame: "apply_entry env i rt = Done (rt', r) \<Longrightarrow> same_table rt rt'"
  by (auto simp: apply_entry_def and_then_eq_Done Let_def same_table_def case_prod_unfold
      dest!: map_err_frame on_log_frame)

lemma apply_entries_frame: "apply_entries env is rt = Done (rt', r) \<Longrightarrow> same_table rt rt'"
proof (induction "is" arbitrary: rt)
  case Nil
  then show ?case by (simp add: same_table_def)
next
  case (Cons i "is")
  then show ?case
    by (auto simp: and_then_eq_Done dest: apply_entry_frame intro: same_table_trans)
qed

section \<open>What becomes of one write\<close>

definition reply_to :: "'f rt_env \<Rightarrow> chan \<Rightarrow> reply \<Rightarrow> (chan \<times> reply) list" where
  "reply_to env ch r = (if re_dropped env ch then [] else [(ch, r)])"

lemma send_reply_to: "fst (send_reply env ch r rt) = rt\<lparr>rt_sent := rt_sent rt @ reply_to env ch r\<rparr>"
  by (simp add: send_reply_def reply_to_def)

text \<open>The three results of the core on the leader's own entry.\<close>

lemma appended_result:
  assumes "handle (LocalEntriesAppended en) s = Done (s', r)"
  shows "role s \<noteq> Leader \<and> s' = s \<and> r = Inl (NotLeader (leader_id s)) \<or>
    role s' = Leader \<and> replication_targets s = [] \<and>
      r = Inr (Some (ApplyCommitted (le_operation_id en) (le_index en))) \<or>
    role s' = Leader \<and> replication_targets s \<noteq> [] \<and> commit_index s' = commit_index s \<and>
      last_applied s' = last_applied s \<and> self_id s' = self_id s \<and>
      hm_keys (voters s') = hm_keys (voters s) \<and> hm_keys (learners s') = hm_keys (learners s) \<and>
      r = Inr (Some (SendAppendEntries (le_operation_id en) (replication_targets s)))"
  using assms
  by (auto simp: handle_local_entry_appended_def omap_eq_Done obind_eq_Done ok_some_def Let_def split: if_splits)

definition op_settled :: "'f rt_env \<Rightarrow> operation_id \<Rightarrow> chan \<Rightarrow> 'f runtime \<Rightarrow> 'f runtime \<Rightarrow> error + unit \<Rightarrow> bool" where
  "op_settled env op ch rt rt' r \<longleftrightarrow>
     rt_next_operation_id rt' = rt_next_operation_id rt \<and>
     (rt_operations rt' = rt_operations rt \<and> rt_sent rt' = rt_sent rt \<or>
      r = Inr () \<and> rt_operations rt' = hm_delete op (rt_operations rt) \<and>
        rt_sent rt' = rt_sent rt @ reply_to env ch (WriteReply (Inr ())))"

lemma drive_commit_settled:
  assumes drive: "drive env ev rt = Done (rt', r)" and "role s = Leader"
    and h: "handle ev (rt_raft rt) = Done (s, Inr (Some (ApplyCommitted op i)))"
    and op: "map_of (rt_operations rt) op = Some (OpWrite None ch)"
  shows "op_settled env op ch rt rt' r"
proof (cases "apply_entries env (inclusive_range (saturating_add (last_applied s) 1) i) (rt\<lparr>rt_raft := s\<rparr>)")
  case (Panic p)
  then show ?thesis using drive h by (subst (asm) drive.simps) (simp add: execute_apply_def)
next
  case (Done y)
  obtain rt1 q where y: "y = (rt1, q)" by (cases y)
  then have frame: "same_table (rt\<lparr>rt_raft := s\<rparr>) rt1" using Done apply_entries_frame by blast
  show ?thesis
  proof (cases q)
    case (Inl e)
    then show ?thesis
      using drive drive_fail [OF h, of env rt1 e] Done y frame
      by (auto simp: execute_apply_def same_table_def op_settled_def)
  next
    case (Inr u)
    then have "drive env ev rt = drive env (EntriesApplied \<lparr>ae_operation_id = op, ae_through = i\<rparr>) rt1"
      using drive_step [OF h, of env rt1] Done y by (simp add: execute_apply_def)
    then show ?thesis
      using drive frame assms(2) op drive_applied [of rt1 op None ch env i]
      by (auto simp: same_table_def send_reply_to op_settled_def)
  qed
qed

lemma drive_appended_settled:
  assumes drive: "drive env (LocalEntriesAppended en) rt = Done (rt', r)"
    and op: "map_of (rt_operations rt) (le_operation_id en) = Some (OpWrite None ch)"
  shows "op_settled env (le_operation_id en) ch rt rt' r"
proof -
  obtain s eff where h: "handle (LocalEntriesAppended en) (rt_raft rt) = Done (s, eff)"
    using drive by (rule drive_handled)
  from appended_result [OF h] consider (refused) "eff = Inl (NotLeader (leader_id (rt_raft rt)))"
    | (commit) "role s = Leader" "eff = Inr (Some (ApplyCommitted (le_operation_id en) (le_index en)))"
    | (send) "eff = Inr (Some (SendAppendEntries (le_operation_id en) (replication_targets (rt_raft rt))))"
    by blast
  then show ?thesis
  proof cases
    case refused
    then show ?thesis using drive drive_refused [OF h [unfolded refused]] by (auto simp: op_settled_def)
  next
    case commit
    then show ?thesis using drive_commit_settled [OF drive commit(1) h [unfolded commit(2)] op] by simp
  next
    case send
    then show ?thesis using drive drive_stop [OF h [unfolded send]] by (auto simp: op_settled_def)
  qed
qed

text \<open>The executor's append, whatever the codec and the disk answer.\<close>

definition write_staged :: "chan \<Rightarrow> 'f runtime \<Rightarrow> 'f runtime \<Rightarrow> bool" where
  "write_staged ch rt rt' \<longleftrightarrow>
     rt_operations rt' = hm_insert (next_id rt) (OpWrite None ch) (rt_operations rt) \<and>
     rt_next_operation_id rt' = rt_next_operation_id rt + 1 \<and> rt_raft rt' = rt_raft rt \<and>
     rt_sent rt' = rt_sent rt \<and> rt_fsm rt' = rt_fsm rt"

abbreviation appended_event :: "'f runtime \<Rightarrow> u64 \<Rightarrow> event" where
  "appended_event rt i \<equiv> LocalEntriesAppended
     \<lparr>le_operation_id = next_id rt, le_index = i, le_term = current_term (rt_raft rt)\<rparr>"

lemma execute_append_frame:
  assumes "ids_fresh rt"
    and "execute env (AppendLocal (next_id rt) (current_term (rt_raft rt)) l) (registered data ch rt) = Done (rt', r)"
  shows "write_staged ch rt rt'" and "(\<exists>e. r = Inl e) \<or> (\<exists>i. r = Inr (Some (appended_event rt i)))"
proof -
  have del: "hm_delete (next_id rt) (hm_insert (next_id rt) v (rt_operations rt)) = rt_operations rt" for v
    using next_id_unused [OF assms(1)] by (simp add: hm_delete_insert hm_delete_absent)
  show "write_staged ch rt rt'"
    using assms(2)
    by (auto simp: execute_append_local_def get_operation_def registered_def del Let_def and_then_eq_Done
        write_staged_def dest!: map_err_frame on_log_frame)
  show "(\<exists>e. r = Inl e) \<or> (\<exists>i. r = Inr (Some (appended_event rt i)))"
    using assms(2)
    by (auto simp: execute_append_local_def get_operation_def registered_def Let_def and_then_eq_Done)
qed

text \<open>The first round on a leader: the append fails, or its index goes into the next round.\<close>

lemma drive_write_rounds:
  assumes fresh: "ids_fresh rt" and lead: "role (rt_raft rt) = Leader"
    and drive: "drive env (Write (next_id rt)) (registered data ch rt) = Done (rt1, r)"
  obtains (failed) e where "write_staged ch rt rt1" "r = Inl e"
  | (appended) rt2 i where "write_staged ch rt rt2" "drive env (appended_event rt i) rt2 = Done (rt1, r)"
proof -
  let ?eff = "AppendLocal (next_id rt) (current_term (rt_raft rt)) (last_log_index (rt_raft rt))"
  have h: "handle (Write (next_id rt)) (rt_raft (registered data ch rt)) = Done (rt_raft rt, Inr (Some ?eff))"
    and same: "(registered data ch rt)\<lparr>rt_raft := rt_raft rt\<rparr> = registered data ch rt"
    using lead by (simp_all add: registered_def handle_write_def)
  have "\<not> panics (execute env ?eff (registered data ch rt))"
    using drive h same by (subst (asm) drive.simps) (auto split: outcome.splits)
  then obtain rt2 q where exec: "execute env ?eff (registered data ch rt) = Done (rt2, q)"
    by (auto simp: not_panics_iff)
  note frame = execute_append_frame [OF fresh exec]
  from frame(2) show thesis
  proof (elim disjE exE)
    fix e assume "q = Inl e"
    then have "rt1 = rt2" "r = Inl e"
      using drive drive_fail [OF h, of env rt2 e] exec same by simp_all
    then show thesis using failed frame(1) by blast
  next
    fix i assume "q = Inr (Some (appended_event rt i))"
    then have "drive env (appended_event rt i) rt2 = Done (rt1, r)"
      using drive drive_step [OF h, of env rt2 "appended_event rt i"] exec same by simp
    then show thesis using appended frame(1) by blast
  qed
qed

text \<open>A message leaves its operation pending, without its data, or answers and forgets it.\<close>

lemma fail_settles:
  assumes "ids_fresh rt" and "rt_operations rt1 = hm_insert (next_id rt) (OpWrite d ch) (rt_operations rt)"
  shows "rt_operations (fail_operation env (next_id rt) e rt1) = rt_operations rt"
    and "rt_sent (fail_operation env (next_id rt) e rt1) = rt_sent rt1 @ reply_to env ch (WriteReply (Inl e))"
    and "rt_next_operation_id (fail_operation env (next_id rt) e rt1) = rt_next_operation_id rt1"
  using assms next_id_unused [OF assms(1)]
  by (simp_all add: fail_operation_def send_reply_to hm_delete_insert hm_delete_absent give_back_def
      Let_def split: option.splits)

lemma drive_write_settled:
  assumes fresh: "ids_fresh rt" and drive: "drive env (Write (next_id rt)) (registered data ch rt) = Done (rt1, r)"
  shows "rt_next_operation_id rt1 = rt_next_operation_id rt + 1 \<and>
    (\<exists>d. rt_operations rt1 = hm_insert (next_id rt) (OpWrite d ch) (rt_operations rt) \<and>
        rt_sent rt1 = rt_sent rt \<and> (r = Inr () \<longrightarrow> d = None) \<or>
      r = Inr () \<and> rt_operations rt1 = rt_operations rt \<and>
        rt_sent rt1 = rt_sent rt @ reply_to env ch (WriteReply (Inr ())))"
proof (cases "role (rt_raft rt) = Leader")
  case False
  then have "handle (Write (next_id rt)) (rt_raft (registered data ch rt)) =
      Done (rt_raft rt, Inl (NotLeader (leader_id (rt_raft rt))))"
    by (simp add: registered_def handle_write_def)
  from drive drive_refused [OF this] have "rt1 = registered data ch rt" "\<exists>e. r = Inl e"
    by (auto simp: registered_def)
  then show ?thesis by (auto simp: registered_def)
next
  case True
  from fresh True drive show ?thesis
  proof (cases rule: drive_write_rounds)
    case failed
    then show ?thesis by (auto simp: write_staged_def)
  next
    case (appended rt2 i)
    from drive_appended_settled [OF appended(2), of ch] appended(1) next_id_unused [OF fresh]
    show ?thesis by (auto simp: write_staged_def op_settled_def hm_delete_insert hm_delete_absent)
  qed
qed

lemma message_settled:
  assumes fresh: "ids_fresh rt" and msg: "handle_message env (MsgWrite data ch) rt = Done rt'"
  shows "rt_next_operation_id rt \<noteq> - 1" and "rt_next_operation_id rt' = rt_next_operation_id rt + 1"
    and "(\<exists>r. rt_operations rt' = rt_operations rt \<and> rt_sent rt' = rt_sent rt @ reply_to env ch (WriteReply r)) \<or>
      rt_operations rt' = hm_insert (next_id rt) (OpWrite None ch) (rt_operations rt) \<and> rt_sent rt' = rt_sent rt"
proof -
  show id: "rt_next_operation_id rt \<noteq> - 1"
    using msg checked_add_1_None [of "rt_next_operation_id rt"]
    by (auto simp: handle_message_def next_operation_id_def obind_eq_Done expect_some_eq_Done)
  obtain rt1 r where drive: "drive env (Write (next_id rt)) (registered data ch rt) = Done (rt1, r)"
    and rt': "rt' = (case r of Inl err \<Rightarrow> fail_operation env (next_id rt) err rt1 | Inr _ \<Rightarrow> rt1)"
    using msg handle_message_drive [OF fresh id, of env data ch] by (auto simp: obind_eq_Done)
  have "rt_next_operation_id rt' = rt_next_operation_id rt + 1 \<and>
    ((\<exists>r. rt_operations rt' = rt_operations rt \<and> rt_sent rt' = rt_sent rt @ reply_to env ch (WriteReply r)) \<or>
     rt_operations rt' = hm_insert (next_id rt) (OpWrite None ch) (rt_operations rt) \<and> rt_sent rt' = rt_sent rt)"
  proof (cases r)
    case (Inl e)
    then obtain d where d: "rt_operations rt1 = hm_insert (next_id rt) (OpWrite d ch) (rt_operations rt)"
      using drive_write_settled [OF fresh drive] by auto
    show ?thesis using drive_write_settled [OF fresh drive] rt' Inl by (auto simp: fail_settles [OF fresh d])
  next
    case (Inr u)
    then show ?thesis using drive_write_settled [OF fresh drive] rt' by auto
  qed
  then show "rt_next_operation_id rt' = rt_next_operation_id rt + 1"
    and "(\<exists>r. rt_operations rt' = rt_operations rt \<and> rt_sent rt' = rt_sent rt @ reply_to env ch (WriteReply r)) \<or>
      rt_operations rt' = hm_insert (next_id rt) (OpWrite None ch) (rt_operations rt) \<and> rt_sent rt' = rt_sent rt"
    by blast+
qed

section \<open>The table of operations\<close>

definition table_ok :: "'f runtime \<Rightarrow> bool" where
  "table_ok rt \<longleftrightarrow> ids_fresh rt \<and> hm_wf (rt_operations rt) \<and>
     list_all (\<lambda>(op, o'). \<exists>ch. o' = OpWrite None ch) (rt_operations rt)"

definition message_step :: "'f rt_env \<Rightarrow> 'f runtime \<Rightarrow> runtime_message \<Rightarrow> 'f runtime \<Rightarrow> bool" where
  "message_step env rt msg rt' \<longleftrightarrow> handle_message env msg rt = Done rt'"

lemma run_steps: "run env msgs rt = Done rt' \<longleftrightarrow> steps (message_step env) rt msgs rt'"
  by (induction msgs arbitrary: rt) (auto simp: steps_cons_iff obind_eq_Done message_step_def)

lemma hm_insert_absent: "k \<notin> set (hm_keys m) \<Longrightarrow> hm_insert k v m = m @ [(k, v)]"
  by (induction m) (auto simp: hm_insert_def hm_keys_def)

lemma table_ok_step:
  assumes "message_step env rt msg rt'" and "table_ok rt"
  shows "table_ok rt'"
proof -
  obtain data ch where msg: "handle_message env (MsgWrite data ch) rt = Done rt'"
    using assms(1) by (cases msg) (auto simp: message_step_def)
  have fresh: "ids_fresh rt" using assms(2) by (simp add: table_ok_def)
  note settled = message_settled [OF fresh msg]
  have "rt_next_operation_id rt < rt_next_operation_id rt + 1"
    using settled(1) checked_add_1_None [of "rt_next_operation_id rt"] checked_add_1_less
    by (force simp: checked_add_def split: if_splits)
  then have "ids_fresh rt'"
    using settled(2,3) fresh unfolding ids_fresh_def by (auto simp: hm_keys_insert dest: order.strict_trans)
  then show ?thesis
    using assms(2) settled(3) next_id_unused [OF fresh]
    by (auto simp: table_ok_def hm_insert_absent hm_wf_def hm_keys_def)
qed

interpretation operation_table: step_invariant "message_step env" table_ok for env :: "'f rt_env"
  by unfold_locales (rule table_ok_step)

lemma table_ok_new: "runtime_new me vs lg fsm opened = Done rt \<Longrightarrow> table_ok rt \<and> rt_sent rt = [] \<and> rt_operations rt = []"
  by (auto simp: runtime_new_def obind_eq_Done table_ok_def ids_fresh_def hm_wf_def hm_keys_def)

section \<open>Every client is answered once or still waits\<close>

fun reply_chan :: "operation \<Rightarrow> chan" where
  "reply_chan (OpWrite data ch) = ch"
| "reply_chan (OpVote ch) = ch"
| "reply_chan (OpAppendEntries data ch) = ch"

definition pending :: "'f runtime \<Rightarrow> chan list" where
  "pending rt = map (\<lambda>(op, o'). reply_chan o') (rt_operations rt)"

fun message_chan :: "runtime_message \<Rightarrow> chan" where
  "message_chan (MsgWrite data ch) = ch"

abbreviation listening :: "'f rt_env \<Rightarrow> chan list \<Rightarrow> chan multiset" where
  "listening env chs \<equiv> mset (filter (\<lambda>ch. \<not> re_dropped env ch) chs)"

definition accounted :: "'f rt_env \<Rightarrow> 'f runtime \<Rightarrow> chan multiset" where
  "accounted env rt = mset (map fst (rt_sent rt)) + listening env (pending rt)"

lemma accounted_step:
  assumes "message_step env rt msg rt'" and "table_ok rt"
  shows "accounted env rt' = accounted env rt + listening env [message_chan msg]"
proof -
  obtain data ch where msg: "msg = MsgWrite data ch" by (cases msg)
  have fresh: "ids_fresh rt" using assms(2) by (simp add: table_ok_def)
  then show ?thesis
    using message_settled(3) [OF fresh, of env data ch rt'] assms(1) next_id_unused [OF fresh] msg
    by (auto simp: message_step_def accounted_def pending_def reply_to_def hm_insert_absent)
qed

lemma accounted_run:
  "steps (message_step env) rt msgs rt' \<Longrightarrow> table_ok rt \<Longrightarrow>
   accounted env rt' = accounted env rt + listening env (map message_chan msgs)"
proof (induction rule: steps.induct)
  case (steps_nil rt)
  then show ?case by simp
next
  case (steps_cons rt msg rt1 msgs rt2)
  then show ?case
    using accounted_step [OF steps_cons.hyps(1)] table_ok_step [OF steps_cons.hyps(1)] by simp
qed

section \<open>A leader with peers\<close>

definition has_peers :: "raft \<Rightarrow> bool" where
  "has_peers s \<longleftrightarrow> role s = Leader \<and> list_ex (\<lambda>n. n \<noteq> self_id s) (hm_keys (voters s) @ hm_keys (learners s))"

lemma has_peers_targets: "has_peers s \<longleftrightarrow> role s = Leader \<and> replication_targets s \<noteq> []"
  by (force simp: has_peers_def replication_targets_def hm_keys_def filter_empty_conv list_ex_iff)

text \<open>What no message changes on such a leader.\<close>

definition stuck :: "'f runtime \<Rightarrow> 'f runtime \<Rightarrow> bool" where
  "stuck rt rt' \<longleftrightarrow> has_peers (rt_raft rt') \<and> rt_fsm rt' = rt_fsm rt \<and>
     commit_index (rt_raft rt') = commit_index (rt_raft rt) \<and>
     last_applied (rt_raft rt') = last_applied (rt_raft rt) \<and>
     (\<exists>sent. rt_sent rt' = rt_sent rt @ sent \<and> list_all (\<lambda>(ch, r). \<exists>e. r = WriteReply (Inl e)) sent)"

lemma drive_peers:
  assumes "ids_fresh rt" and peers: "has_peers (rt_raft rt)"
    and "drive env (Write (next_id rt)) (registered data ch rt) = Done (rt1, r)"
  shows "stuck rt rt1 \<and> rt_sent rt1 = rt_sent rt \<and>
    rt_operations rt1 = hm_insert (next_id rt) (OpWrite None ch) (rt_operations rt)"
proof -
  have "role (rt_raft rt) = Leader" using peers by (simp add: has_peers_def)
  from assms(1) this assms(3) show ?thesis
  proof (cases rule: drive_write_rounds)
    case failed
    then show ?thesis using peers by (simp add: write_staged_def stuck_def)
  next
    case (appended rt2 i)
    have raft: "rt_raft rt2 = rt_raft rt" using appended(1) by (simp add: write_staged_def)
    obtain s q where h: "handle (appended_event rt i) (rt_raft rt2) = Done (s, q)"
      using appended(2) by (rule drive_handled)
    have q: "q = Inr (Some (SendAppendEntries (next_id rt) (replication_targets (rt_raft rt2))))"
      "has_peers s" "commit_index s = commit_index (rt_raft rt)" "last_applied s = last_applied (rt_raft rt)"
      using appended_result [OF h] peers has_peers_targets [of "rt_raft rt"] unfolding raft
      by (auto simp: has_peers_def)
    then have "drive env (appended_event rt i) rt2 = Done (rt2\<lparr>rt_raft := s\<rparr>, Inr ())"
      by (intro drive_stop [OF h [unfolded q(1)]]) simp
    then have "rt1 = rt2\<lparr>rt_raft := s\<rparr>" using appended(2) by simp
    then show ?thesis using appended(1) q by (simp add: write_staged_def stuck_def)
  qed
qed

lemma stuck_trans: "stuck a b \<Longrightarrow> stuck b c \<Longrightarrow> stuck a c"
  by (fastforce simp: stuck_def)

lemma stuck_fail:
  assumes "ids_fresh rt" and "stuck rt rt1" and "rt_sent rt1 = rt_sent rt"
    and "rt_operations rt1 = hm_insert (next_id rt) (OpWrite d ch) (rt_operations rt)"
  shows "stuck rt (fail_operation env (next_id rt) e rt1)"
proof -
  have "rt_raft (fail_operation env (next_id rt) e rt1) = rt_raft rt1"
    "rt_fsm (fail_operation env (next_id rt) e rt1) = rt_fsm rt1"
    by (auto simp: fail_operation_def send_reply_to give_back_def Let_def split: option.splits)
  then show ?thesis
    using assms(2,3) fail_settles(2) [OF assms(1,4)] by (auto simp: stuck_def reply_to_def)
qed

lemma stuck_step:
  assumes "message_step env rt msg rt'" and "table_ok rt" and peers: "has_peers (rt_raft rt)"
  shows "stuck rt rt'"
proof -
  obtain data ch where msg: "handle_message env (MsgWrite data ch) rt = Done rt'"
    using assms(1) by (cases msg) (auto simp: message_step_def)
  have fresh: "ids_fresh rt" using assms(2) by (simp add: table_ok_def)
  obtain rt1 r where drive: "drive env (Write (next_id rt)) (registered data ch rt) = Done (rt1, r)"
    and rt': "rt' = (case r of Inl err \<Rightarrow> fail_operation env (next_id rt) err rt1 | Inr _ \<Rightarrow> rt1)"
    using msg handle_message_drive [OF fresh message_settled(1) [OF fresh msg], of env data ch]
    by (auto simp: obind_eq_Done)
  note staged = drive_peers [OF fresh peers drive]
  show ?thesis using rt' staged stuck_fail [OF fresh] by (cases r) auto
qed

lemma stuck_run:
  "steps (message_step env) rt msgs rt' \<Longrightarrow> table_ok rt \<Longrightarrow> has_peers (rt_raft rt) \<Longrightarrow> stuck rt rt'"
proof (induction rule: steps.induct)
  case (steps_nil rt)
  then show ?case by (simp add: stuck_def)
next
  case (steps_cons rt msg rt1 msgs rt2)
  from stuck_step [OF steps_cons.hyps(1) steps_cons.prems] have "stuck rt rt1" .
  moreover from this have "stuck rt1 rt2"
    using steps_cons.IH table_ok_step [OF steps_cons.hyps(1)] steps_cons.prems(1) by (simp add: stuck_def)
  ultimately show ?case by (rule stuck_trans)
qed

end
