(* ===== verification/Runtime_Faults.thy ===== *)
theory Runtime_Faults
  imports Runtime_Theorems Runtime_Invariants
begin

text \<open>
  The properties that hold of the runtime whatever its disk and its application answer, and
  the writes that fail, wait for ever or are acknowledged without being applied.
\<close>

section \<open>Whatever the environment does\<close>

text \<open>
  C34. The loop of \<^verbatim>\<open>drive\<close> ends: for every event, state and environment three rounds are
  enough, since a write leads to an append, an append to an application and an application
  to a reply, and nothing leads back.\<close>

theorem drive_ends_within_three_rounds:
  "drive_n 3 env ev rt = Some (drive env ev rt)"
  using event_rank_bounds(2) by (rule drive_n_enough)

text \<open>
  C11. Every client that still listens is answered exactly once or its operation is still
  pending: over any run of messages the replies sent and the operations left are together
  the requests received, each as often as it was received, whatever the disk, the codec and
  the application answer.\<close>

theorem clients_answered_once_or_waiting:
  assumes "table_ok rt" and "run env msgs rt = Done rt'"
  shows "mset (map fst (rt_sent rt')) + listening env (pending rt') =
    mset (map fst (rt_sent rt)) + listening env (pending rt) + listening env (map message_chan msgs)"
  using accounted_run [OF assms(2) [unfolded run_steps] assms(1)] by (simp add: accounted_def)

lemma table_ok_empty: "ids_fresh rt \<Longrightarrow> rt_operations rt = [] \<Longrightarrow> table_ok rt"
  by (simp add: table_ok_def hm_wf_def hm_keys_def)

lemma demo_run:
  "\<exists>rt rt'. runtime_new (NodeId ''node-1'') [NodeId ''node-1''] (rt_log rt) [] (Inr []) = Done rt \<and>
     table_ok (lead rt) \<and> rt_operations rt = [] \<and> rt_sent rt = [] \<and>
     run demo_env (writes [([1], 10), ([2, 3], 11)]) (lead rt) = Done rt' \<and> rt_operations rt' = []"
proof -
  obtain lg rt where rt: "runtime_new (NodeId ''node-1'') [NodeId ''node-1''] lg [] (Inr []) = Done rt"
    "lone_node demo_env [] 0 (lead rt)" "lg_cfg (rt_log rt) = small_cfg False"
    "rt_next_operation_id rt = 1" "rt_operations rt = []" "rt_sent rt = []"
    using demo_node [of False] by blast
  have lg: "rt_log rt = lg" using rt(1) by (auto simp: runtime_new_def obind_eq_Done)
  have "list_all (fits demo_env (lg_cfg (rt_log (lead rt)))) (entries_of 1 [([1], 10), ([2, 3], 11)])"
    using rt(3) by (simp add: entries_of_def demo_fits)
  from lone_writes [OF demo_env_ok rt(2) _ this] rt(4,5) obtain rt' where
    "run demo_env (writes [([1], 10), ([2, 3], 11)]) (lead rt) = Done rt'" "rt_operations rt' = []"
    by auto
  moreover have "table_ok (lead rt)"
    using rt(2,5) by (intro table_ok_empty) (simp_all add: lone_node_def)
  ultimately show ?thesis using rt lg by (intro exI) auto
qed

theorem clients_answered_once_or_waiting_witness:
  "\<exists>rt rt'. run demo_env (writes [([1], 10), ([2, 3], 11)]) (lead rt) = Done rt' \<and>
     mset (map fst (rt_sent rt')) = {#10, 11#}"
proof -
  obtain rt rt' where rt: "table_ok (lead rt)" "rt_operations rt = []" "rt_sent rt = []"
    "run demo_env (writes [([1], 10), ([2, 3], 11)]) (lead rt) = Done rt'" "rt_operations rt' = []"
    using demo_run by blast
  from clients_answered_once_or_waiting [OF rt(1,4)] rt show ?thesis
    by (auto simp: pending_def writes_def demo_env_def)
qed

text \<open>
  C33. The table of operations, from the start on, in whatever Raft state the node is and
  whatever fails: between messages it
  holds only writes that have given up their data to the log, each under one identifier, and
  every identifier in it is below the next one to be given out.\<close>

theorem pending_operations_are_appended_writes:
  assumes "runtime_new me vs lg fsm opened = Done rt" and "run env msgs (rt\<lparr>rt_raft := s\<rparr>) = Done rt'"
  shows "distinct (hm_keys (rt_operations rt')) \<and>
    list_all (\<lambda>(op, o'). \<exists>n ch. op = OperationId n \<and> n < rt_next_operation_id rt' \<and> o' = OpWrite None ch)
      (rt_operations rt')"
proof -
  have ok: "table_ok rt'"
    using operation_table.inv_steps [OF assms(2) [unfolded run_steps]] table_ok_new [OF assms(1)]
    by (simp add: table_ok_def ids_fresh_def)
  then have "\<exists>n. op = OperationId n \<and> n < rt_next_operation_id rt'" if "(op, o') \<in> set (rt_operations rt')" for op o'
    using that by (cases op) (force simp: table_ok_def ids_fresh_def hm_keys_def)
  with ok show ?thesis by (fastforce simp: table_ok_def hm_wf_def list_all_iff)
qed

theorem pending_operations_are_appended_writes_witness:
  "\<exists>rt rt' s. runtime_new (NodeId ''node-1'') [NodeId ''node-1''] (rt_log rt) [] (Inr []) = Done rt \<and>
     run demo_env (writes [([1], 10), ([2, 3], 11)]) (rt\<lparr>rt_raft := s\<rparr>) = Done rt' \<and>
     distinct (hm_keys (rt_operations rt'))"
proof -
  obtain rt rt' where rt: "runtime_new (NodeId ''node-1'') [NodeId ''node-1''] (rt_log rt) [] (Inr []) = Done rt"
    "run demo_env (writes [([1], 10), ([2, 3], 11)]) (lead rt) = Done rt'"
    using demo_run by blast
  from pending_operations_are_appended_writes [OF rt(1) rt(2) [unfolded lead_in_def]] rt show ?thesis
    by (auto simp: lead_in_def)
qed

section \<open>Writes that are not acknowledged\<close>

text \<open>
  C35. A leader that has peers never acknowledges a write. Sending to the peers is
  unfinished in the executor, which drops the replication targets, so whatever messages
  arrive the commit index, the applied index and the application stay as they are, and the
  only replies are errors.\<close>

theorem leader_with_peers_never_acknowledges:
  assumes "table_ok rt" and "has_peers (rt_raft rt)" and "run env msgs rt = Done rt'"
  shows "rt_fsm rt' = rt_fsm rt \<and> commit_index (rt_raft rt') = commit_index (rt_raft rt) \<and>
    last_applied (rt_raft rt') = last_applied (rt_raft rt) \<and>
    (\<exists>sent. rt_sent rt' = rt_sent rt @ sent \<and> list_all (\<lambda>(ch, r). \<exists>e. r = WriteReply (Inl e)) sent)"
  using stuck_run [OF assms(3) [unfolded run_steps] assms(1,2)] by (simp add: stuck_def)

text \<open>With a log that works, such a write goes into the log and its client waits.\<close>

lemma peers_write_returns:
  assumes "codec_ok env" and "table_ok rt" and peers: "has_peers (rt_raft rt)"
    and "rt_next_operation_id rt \<noteq> - 1" and "hm_contains (voters (rt_raft rt)) (self_id (rt_raft rt))"
    and app: "log_append (re_log env) (encoded env (new_entry data rt)) (rt_log rt) = Done (lg, Inr i)" and "i \<noteq> - 1"
  shows "\<exists>rt'. handle_message env (MsgWrite data ch) rt = Done rt' \<and> rt_log rt' = lg \<and>
    pending rt' = pending rt @ [ch] \<and> rt_sent rt' = rt_sent rt"
proof -
  let ?rt1 = "appended env (new_entry data rt) ch lg rt"
  have fresh: "ids_fresh rt" and lead: "role (rt_raft rt) = Leader"
    using assms(2) peers by (simp_all add: table_ok_def has_peers_def)
  have raft: "rt_raft ?rt1 = rt_raft rt" by (simp add: appended_def)
  have "add_w i 1 = Done (i + 1)"
    using assms(7) panics_add_1 [of i] by (auto simp: add_w_def checked_add_def split: if_splits)
  then obtain s where h: "handle (appended_event rt i) (rt_raft ?rt1) =
      Done (s, Inr (Some (SendAppendEntries (next_id rt) (replication_targets (rt_raft rt)))))"
    using assms(5) peers raft
    by (auto simp: has_peers_targets handle_local_entry_appended_def ok_some_def Let_def)
  have "drive env (appended_event rt i) ?rt1 = Done (?rt1\<lparr>rt_raft := s\<rparr>, Inr ())"
    by (rule drive_stop [OF h]) simp
  then have "handle_message env (MsgWrite data ch) rt = Done (?rt1\<lparr>rt_raft := s\<rparr>)"
    using handle_message_drive [OF fresh assms(4), of env data ch]
      drive_write [OF assms(1) fresh lead new_entry_def app, of ch] by simp
  then show ?thesis
    using next_id_unused [OF fresh] by (simp add: appended_def pending_def hm_insert_absent)
qed

theorem leader_with_peers_never_acknowledges_witness:
  "\<exists>rt rt'. run demo_env [MsgWrite [1] 10] rt = Done rt' \<and> rt_sent rt' = [] \<and> pending rt' = [10] \<and>
     rt_fsm rt' = [] \<and> commit_index (rt_raft rt') = 0"
proof -
  let ?vs = "[NodeId ''node-1'', NodeId ''node-2'']"
  obtain lg where lg: "log_holds 1 [] lg" "lg_cfg lg = small_cfg False" using small_log by blast
  obtain rt :: "byte list list runtime" where new: "runtime_new (NodeId ''node-1'') ?vs lg [] (Inr []) = Done rt"
    and rt: "has_peers (rt_raft (lead rt))" "hm_contains (voters (rt_raft (lead rt))) (self_id (rt_raft (lead rt)))"
      "rt_log rt = lg" "rt_fsm rt = []" "rt_next_operation_id rt = 1" "commit_index (rt_raft (lead rt)) = 0"
    using log_next_holds(1) [OF lg(1)]
    by (auto simp: runtime_new_def storage_new_def load_state_def raft_new_member boot_raft_def lead_in_def
        has_peers_def hm_insert_def hm_contains_def hm_keys_def)
  have table: "table_ok (lead rt)" "rt_sent rt = []" "rt_operations rt = []"
    using table_ok_new [OF new] by (simp_all add: table_ok_def)
  let ?e = "encoded demo_env (new_entry [1] (lead rt))"
  have room: "log_room ?e lg"
    by (intro log_room_cfg [OF lg(1)])
      (simp_all add: lg(2) small_cfg_def encoded_def demo_env_def new_entry_def be64.length_enc)
  have "calm (re_log demo_env)" using calm_calm_env by (simp add: demo_env_def)
  from log_append_calm [OF this lg(1) room] obtain lg' where
    app: "log_append (re_log demo_env) ?e (rt_log (lead rt)) = Done (lg', Inr (sg_next (active_segment lg)))"
    using rt(3) by auto
  have "sg_next (active_segment lg) \<noteq> - 1" using room by (auto simp: log_room_def)
  from peers_write_returns [OF demo_env_ok(1) table(1) rt(1) _ rt(2) app this, of 10] rt(5) table
  obtain rt' where rt': "run demo_env [MsgWrite [1] 10] (lead rt) = Done rt'" "pending rt' = [10]" "rt_sent rt' = []"
    by (auto simp: pending_def)
  from leader_with_peers_never_acknowledges [OF table(1) rt(1) rt'(1)] rt' rt table show ?thesis
    by (intro exI [of _ "lead rt"] exI [of _ rt']) simp
qed

text \<open>
  C36. A leader whose log has run into an index limit that is no multiple of the slot width
  refuses every write from then on, with calls that all succeed and a listening client (as long as
  the store's size stays below \<^verbatim>\<open>2^64\<close>): the client gets \<^verbatim>\<open>AppendFailed\<close>;
  the Raft state, the application, the table of operations and the next offset stay as they are
  and the identifier is used up; but the store of the active segment has grown by the record that
  was refused, since it is written before the index is asked. The log is still in that state
  afterwards, so the next write fails as well.\<close>

theorem blocked_log_fails_every_write:
  assumes "codec_ok env" and "calm (re_log env)" and "role (rt_raft rt) = Leader" and "ids_fresh rt"
    and "rt_next_operation_id rt \<noteq> - 1" and "index_stuck (rt_log rt)" and "\<not> re_dropped env ch"
    and "unat (so_size (sg_store (active_segment (rt_log rt)))) + 8 + length (encoded env (new_entry data rt)) < 2 ^ 64"
  shows "\<exists>rt'. handle_message env (MsgWrite data ch) rt = Done rt' \<and> index_stuck (rt_log rt') \<and>
    rt_raft rt' = rt_raft rt \<and> rt_fsm rt' = rt_fsm rt \<and> rt_operations rt' = rt_operations rt \<and>
    rt_next_operation_id rt' = rt_next_operation_id rt + 1 \<and>
    log_next_offset (rt_log rt') = log_next_offset (rt_log rt) \<and>
    content (sg_store (active_segment (rt_log rt'))) =
      content (sg_store (active_segment (rt_log rt))) @ frame (encoded env (new_entry data rt)) \<and>
    rt_sent rt' = rt_sent rt @ [(ch, WriteReply (Inl AppendFailed))]"
proof -
  obtain lg e where app: "log_append (re_log env) (encoded env (new_entry data rt)) (rt_log rt) = Done (lg, Inl e)"
    and lg: "index_stuck lg" "log_next_offset lg = log_next_offset (rt_log rt)"
      "content (sg_store (active_segment lg)) =
        content (sg_store (active_segment (rt_log rt))) @ frame (encoded env (new_entry data rt))"
    using stuck_append [OF assms(2,6,8)] by blast
  let ?rt1 = "appended env (new_entry data rt) ch lg rt"
  let ?eff = "AppendLocal (next_id rt) (current_term (rt_raft rt)) (last_log_index (rt_raft rt))"
  have h: "handle (Write (next_id rt)) (rt_raft (registered data ch rt)) = Done (rt_raft rt, Inr (Some ?eff))"
    using assms(3) by (simp add: registered_def handle_write_def)
  have "execute env ?eff ((registered data ch rt)\<lparr>rt_raft := rt_raft rt\<rparr>) = Done (?rt1, Inl AppendFailed)"
    using execute_append [OF assms(1,4) new_entry_def app] by (simp add: registered_def)
  from drive_fail [OF h this] have
    msg: "handle_message env (MsgWrite data ch) rt = Done (fail_operation env (next_id rt) AppendFailed ?rt1)"
    using handle_message_drive [OF assms(4,5), of env data ch] by simp
  have ops: "rt_operations ?rt1 = hm_insert (next_id rt) (OpWrite None ch) (rt_operations rt)"
    by (simp add: appended_def)
  have "rt_log (fail_operation env (next_id rt) AppendFailed ?rt1) = lg"
    "rt_raft (fail_operation env (next_id rt) AppendFailed ?rt1) = rt_raft rt"
    "rt_fsm (fail_operation env (next_id rt) AppendFailed ?rt1) = rt_fsm rt"
    "rt_next_operation_id (fail_operation env (next_id rt) AppendFailed ?rt1) = rt_next_operation_id rt + 1"
    by (simp_all add: fail_operation_def appended_def send_reply_to Let_def)
  then show ?thesis
    using msg lg fail_settles [OF assms(4) ops] assms(7) by (simp add: reply_to_def appended_def)
qed

theorem blocked_log_fails_every_write_witness:
  "\<exists>lg rt rt'. runtime_new (NodeId ''node-1'') [NodeId ''node-1''] lg [] (Inr []) = Done rt \<and>
     handle_message demo_env (MsgWrite [1] 10) (lead rt) = Done rt' \<and>
     rt_sent rt' = [(10, WriteReply (Inl AppendFailed))] \<and> index_stuck (rt_log rt')"
proof -
  obtain lg n where lg: "index_stuck lg" "unat (so_size (sg_store (active_segment lg))) = 9"
    "log_next_offset lg = Done n"
    using odd_log by blast
  obtain rt :: "byte list list runtime" where
    new: "runtime_new (NodeId ''node-1'') [NodeId ''node-1''] lg [] (Inr []) = Done rt"
    and rt: "alone (rt_raft (lead rt))" "rt_log rt = lg" "ids_fresh rt" "rt_sent rt = []" "rt_next_operation_id rt = 1"
    using runtime_new_lone [OF lg(3) load_empty, of "NodeId ''node-1''" "[]" 1] by auto
  have calm: "calm (re_log demo_env)" and "\<not> re_dropped demo_env 10" and "role (rt_raft (lead rt)) = Leader"
    using calm_calm_env by (simp_all add: demo_env_def lead_in_def)
  moreover have "unat (so_size (sg_store (active_segment (rt_log (lead rt))))) + 8 +
      length (encoded demo_env (new_entry [1] (lead rt))) < 2 ^ 64"
    using lg(2) rt(2) by (simp add: encoded_def demo_env_def new_entry_def be64.length_enc)
  ultimately show ?thesis
    using blocked_log_fails_every_write [OF demo_env_ok(1) calm, of "lead rt" 10 "[1]"] rt lg(1) new
    by auto
qed

section \<open>A log that starts at offset zero\<close>

text \<open>
  C37. On a log that starts at offset zero the first entry is acknowledged but not applied, by this
  write or by any later one: a leader that is its own majority, with an empty log that starts at
  zero and nothing applied, acknowledges a write \<open>w\<close> and any further writes \<open>ws\<close>, the log holds them
  all, and the application has been given exactly \<open>ws\<close>. The loop of \<^verbatim>\<open>ApplyCommitted\<close> starts one
  above the last applied index, which is zero both when nothing and when the entry at zero has
  been applied. (Calls succeed, the index limit is a positive multiple of twelve, the application
  accepts every command.)\<close>

theorem first_entry_at_zero_is_not_applied:
  assumes "codec_ok env" and "fsm_total env" and "calm (re_log env)" and "alone (rt_raft rt)" and "ids_fresh rt"
    and "last_applied (rt_raft rt) = 0" and "log_holds 0 [] (rt_log rt)"
    and "list_all (fits env (lg_cfg (rt_log rt))) (entries_of (current_term (rt_raft rt)) (w # ws))"
    and "length ws + 2 < 2 ^ 64" and "unat (rt_next_operation_id rt) + length (w # ws) < 2 ^ 64"
  shows "\<exists>rt'. run env (writes (w # ws)) rt = Done rt' \<and> rt_sent rt' = rt_sent rt @ acks env (w # ws) \<and>
    entries_held env 0 (entries_of (current_term (rt_raft rt)) (w # ws)) rt' \<and>
    rt_fsm rt' = fold (apply_command env) (entries_of (current_term (rt_raft rt)) ws) (rt_fsm rt)"
proof -
  have "lone_from env 0 [] 1 rt" using assms(3-7) by (simp add: lone_from_def entries_held_def)
  moreover have "drop 1 (entries_of t (w # ws)) = entries_of t ws" for t by (simp add: entries_of_def)
  ultimately show ?thesis
    using lone_writes_from [OF assms(1,2) _ refl assms(8), of 0 "[]" 1] assms(9,10) by auto
qed

definition zero_cfg :: log_config where
  "zero_cfg = \<lparr>initial_offset = 0, log_sync_writes = False, max_size_bytes = 24, log_max_store_bytes = 1024\<rparr>"

theorem first_entry_at_zero_is_not_applied_witness:
  "\<exists>lg rt rt'. log_new calm_env zero_cfg ''data'' (Some []) = Done (Inr lg) \<and>
     runtime_new (NodeId ''node-1'') [NodeId ''node-1''] lg [] (Inr []) = Done rt \<and>
     run demo_env (writes [([1], 10), ([2], 11)]) (lead rt) = Done rt' \<and>
     rt_sent rt' = [(10, WriteReply (Inr ())), (11, WriteReply (Inr ()))] \<and> rt_fsm rt' = [[2]]"
proof -
  have "cfg_ok zero_cfg" by (simp add: cfg_ok_def zero_cfg_def slot_limit_def)
  from log_new_fresh [OF calm_calm_env this tidy_Nil] obtain lg where
    lg: "log_new calm_env zero_cfg ''data'' (Some []) = Done (Inr lg)" "log_holds 0 [] lg" "lg_cfg lg = zero_cfg"
    by (auto simp: zero_cfg_def)
  obtain rt :: "byte list list runtime" where
    new: "runtime_new (NodeId ''node-1'') [NodeId ''node-1''] lg [] (Inr []) = Done rt"
    and rt: "alone (rt_raft (lead rt))" "rt_log rt = lg" "ids_fresh rt" "rt_sent rt = []"
      "rt_next_operation_id rt = 1" "rt_fsm rt = []" "last_applied (rt_raft rt) = 0"
    using runtime_new_lone [OF log_next_holds(1) [OF lg(2)] load_empty, of "NodeId ''node-1''" "[]" 1] by auto
  have calm: "calm (re_log demo_env)" using calm_calm_env by (simp add: demo_env_def)
  have "list_all (fits demo_env (lg_cfg (rt_log (lead rt))))
      (entries_of (current_term (rt_raft (lead rt))) (([1], 10) # [([2], 11)]))"
    using rt(2) lg(3) by (simp add: entries_of_def fits_def zero_cfg_def encoded_def demo_env_def be64.length_enc)
  from first_entry_at_zero_is_not_applied [OF demo_env_ok calm rt(1) _ _ _ this] rt lg(2)
  obtain rt' where "run demo_env (writes [([1], 10), ([2], 11)]) (lead rt) = Done rt'"
    "rt_sent rt' = acks demo_env [([1], 10), ([2], 11)]"
    "rt_fsm rt' = fold (apply_command demo_env) (entries_of 1 [([2], 11)]) []"
    by auto
  then show ?thesis
    using lg(1) new by (auto simp: acks_def entries_of_def apply_command_def demo_env_def)
qed

end
