(* ===== verification/Runtime_Restart.thy ===== *)
theory Runtime_Restart
  imports Runtime_Theorems
begin

text \<open>
  A node that stops and starts again: the log, the hard state and the runtime together. The
  log is the one of a process that stopped without closing it, so its writes are synchronous.
\<close>

section \<open>Starting on what a stopped node left\<close>

lemma load_state_file: "load_state st = load_state \<lparr>st_dir = d, st_file = st_file st\<rparr>"
  unfolding load_state_def by (simp only: storage.simps)

text \<open>
  The node after a restart: nothing is applied, the term and the vote are those saved, and the
  log holds the entries it held.
\<close>

lemma restarted:
  assumes "entries_held env 1 es rt" and "log_sync_writes (lg_cfg (rt_log rt))"
    and "load_state (rt_storage rt) = Done h"
  shows "\<exists>lo rt'. log_new (re_log env) (lg_cfg (rt_log rt)) dir (Some (log_image (rt_log rt))) = Done (Inr lo) \<and>
    runtime_new me [me] lo fsm (Inr (st_file (rt_storage rt))) = Done rt' \<and> hard_state (rt_raft rt') = h \<and>
    rt_fsm rt' = fsm \<and> last_applied (rt_raft rt') = 0 \<and> rt_sent rt' = [] \<and> rt_next_operation_id rt' = 1 \<and>
    lg_cfg (rt_log rt') = lg_cfg (rt_log rt) \<and> lone_node env es 0 (lead_in t rt')"
proof -
  have calm: "calm (re_log env)" and holds: "log_holds 1 (map (encoded env) es) (rt_log rt)"
    using assms(1) by (simp_all add: entries_held_def)
  obtain lo where lo: "log_new (re_log env) (lg_cfg (rt_log rt)) dir (Some (log_image (rt_log rt))) = Done (Inr lo)"
    "log_holds 1 (map (encoded env) es) lo" "lg_cfg lo = lg_cfg (rt_log rt)"
    using log_reopen [OF calm sync_log_stopped [OF holds assms(2)]] by blast
  have "load_state \<lparr>st_dir = log_directory lo, st_file = st_file (rt_storage rt)\<rparr> = Done h"
    using assms(3) load_state_file by metis
  from runtime_new_lone [OF log_next_holds(1) [OF lo(2)] this, of me fsm t] lo calm show ?thesis
    by (auto simp: lone_node_def entries_held_def)
qed

section \<open>Property\<close>

text \<open>
  C5. What a restart does with acknowledged writes. A leader that is its own majority, under the
  conditions of \<open>writes_refine_state_machine\<close> and with synchronous writes, handles any writes,
  stops without closing anything and starts again on its directory: it then has the term and the
  vote it saved and an application that has seen nothing, so the start itself replays nothing.
  Once its role is set to leader, which here as in the source's test is done by hand, since no
  event makes a lone voter leader, the first write applies the whole log: \<^verbatim>\<open>last_applied\<close> has
  started again at zero, so every entry of the old log is applied once and in order before the
  new one, and the application gets to the state of a node that never stopped. The README says
  that the runtime does not replay committed entries; that is true of the start only.\<close>

theorem restart_replays_acknowledged_writes:
  assumes "codec_ok env" and "fsm_total env" and "lone_node env es k rt"
    and "log_sync_writes (lg_cfg (rt_log rt))" and "load_state (rt_storage rt) = Done h"
    and "list_all (fits env (lg_cfg (rt_log rt))) (entries_of (current_term (rt_raft rt)) ws @ entries_of t [w])"
    and "length es + length ws + 3 < 2 ^ 64" and "unat (rt_next_operation_id rt) + length ws < 2 ^ 64"
  shows "\<exists>rt1 lo rt2 rt3. run env (writes ws) rt = Done rt1 \<and> rt_sent rt1 = rt_sent rt @ acks env ws \<and>
    log_new (re_log env) (lg_cfg (rt_log rt)) dir (Some (log_image (rt_log rt1))) = Done (Inr lo) \<and>
    runtime_new me [me] lo fsm (Inr (st_file (rt_storage rt1))) = Done rt2 \<and>
    hard_state (rt_raft rt2) = h \<and> rt_fsm rt2 = fsm \<and>
    run env (writes [w]) (lead_in t rt2) = Done rt3 \<and> rt_sent rt3 = acks env [w] \<and>
    rt_fsm rt3 = fold (apply_command env) (es @ entries_of (current_term (rt_raft rt)) ws @ entries_of t [w]) fsm"
proof -
  let ?es = "es @ entries_of (current_term (rt_raft rt)) ws"
  obtain rt1 where rt1: "run env (writes ws) rt = Done rt1" "entries_held env 1 ?es rt1"
    "rt_sent rt1 = rt_sent rt @ acks env ws" "rt_storage rt1 = rt_storage rt"
    "lg_cfg (rt_log rt1) = lg_cfg (rt_log rt)"
    using lone_writes [OF assms(1-3) refl, of ws] assms(6-8) by auto
  obtain lo rt2 where rt2: "log_new (re_log env) (lg_cfg (rt_log rt)) dir (Some (log_image (rt_log rt1))) = Done (Inr lo)"
    "runtime_new me [me] lo fsm (Inr (st_file (rt_storage rt1))) = Done rt2" "hard_state (rt_raft rt2) = h"
    "rt_fsm rt2 = fsm" "rt_sent rt2 = []" "rt_next_operation_id rt2 = 1" "lg_cfg (rt_log rt2) = lg_cfg (rt_log rt)"
    "lone_node env ?es 0 (lead_in t rt2)"
    using restarted [OF rt1(2), of h dir me fsm t] assms(4,5) rt1(4,5) by auto
  have "length ?es = length es + length ws" by (simp add: entries_of_def)
  then obtain rt3 where "run env (writes [w]) (lead_in t rt2) = Done rt3" "rt_sent rt3 = acks env [w]"
    "rt_fsm rt3 = fold (apply_command env) (?es @ entries_of t [w]) fsm"
    using lone_writes [OF assms(1,2) rt2(8), of t "[w]"] assms(6,7) rt2(4-7) by auto
  with rt1(1,3) rt2(1-4) show ?thesis by (intro exI [of _ rt1] exI [of _ lo] exI [of _ rt2] exI [of _ rt3]) simp
qed

theorem restart_replays_acknowledged_writes_witness:
  "\<exists>rt rt1 lo rt2 rt3. run demo_env (writes [([1], 10), ([2, 3], 11)]) (lead rt) = Done rt1 \<and>
     log_new calm_env (small_cfg True) ''data'' (Some (log_image (rt_log rt1))) = Done (Inr lo) \<and>
     runtime_new (NodeId ''node-1'') [NodeId ''node-1''] lo [] (Inr (st_file (rt_storage rt1))) = Done rt2 \<and>
     rt_fsm rt2 = [] \<and> run demo_env (writes [([4], 12)]) (lead_in 2 rt2) = Done rt3 \<and>
     rt_fsm rt3 = [[1], [2, 3], [4]] \<and> rt_sent rt3 = [(12, WriteReply (Inr ()))]"
proof -
  obtain lg rt where rt: "runtime_new (NodeId ''node-1'') [NodeId ''node-1''] lg [] (Inr []) = Done rt"
    "lone_node demo_env [] 0 (lead rt)" "lg_cfg (rt_log rt) = small_cfg True" "rt_next_operation_id rt = 1"
    using demo_node [of True] by blast
  have "st_file (rt_storage rt) = []" using rt(1) by (auto simp: runtime_new_def storage_new_def obind_eq_Done)
  then have load: "load_state (rt_storage (lead rt)) = Done \<lparr>hs_current_term = 0, hs_voted_for = None\<rparr>"
    by (simp add: load_state_def)
  have sync: "log_sync_writes (lg_cfg (rt_log (lead rt)))" using rt(3) by (simp add: small_cfg_def)
  have "list_all (fits demo_env (lg_cfg (rt_log (lead rt))))
      (entries_of (current_term (rt_raft (lead rt))) [([1], 10), ([2, 3], 11)] @ entries_of 2 [([4], 12)])"
    using rt(3) by (simp add: entries_of_def demo_fits)
  note restart = restart_replays_acknowledged_writes [OF demo_env_ok rt(2) sync load this,
      of "''data''" "NodeId ''node-1''" "[]"]
  have "apply_command demo_env e f = f @ [en_command e]" "re_log demo_env = calm_env" "re_dropped demo_env ch = False"
    for e f ch by (simp_all add: apply_command_def demo_env_def)
  with restart rt(3,4) obtain rt1 lo rt2 rt3 where
    "run demo_env (writes [([1], 10), ([2, 3], 11)]) (lead rt) = Done rt1"
    "log_new calm_env (small_cfg True) ''data'' (Some (log_image (rt_log rt1))) = Done (Inr lo)"
    "runtime_new (NodeId ''node-1'') [NodeId ''node-1''] lo [] (Inr (st_file (rt_storage rt1))) = Done rt2"
    "rt_fsm rt2 = []" "run demo_env (writes [([4], 12)]) (lead_in 2 rt2) = Done rt3"
    "rt_fsm rt3 = [[1], [2, 3], [4]]" "rt_sent rt3 = [(12, WriteReply (Inr ()))]"
    by (auto simp: entries_of_def acks_def)
  then show ?thesis by blast
qed

end
