(* ===== verification/Client_Transport.thy ===== *)
theory Client_Transport
  imports Raft_Runtime
begin

text \<open>
  The client-facing service, \<^verbatim>\<open>src/grpc/client_transport.rs\<close>: a write request is encoded into a
  pooled buffer, sent to the runtime and its reply turned into a gRPC response or status. The
  generated encoder of the request and the texts of the two channel errors are parameters.
  The object pool is seen through what it lends: a buffer with the bytes its last user left in
  it, since the pool does not clear what it takes back.
\<close>

section \<open>Messages of the service\<close>

record write_request =
  wr_key :: string
  wr_value :: string

record write_response =
  wp_ok :: bool

datatype status_code = StatusInternal | StatusFailedPrecondition

record status =
  sc_code :: status_code
  sc_message :: string

definition status_internal :: "string \<Rightarrow> status" where
  "status_internal msg = \<lparr>sc_code = StatusInternal, sc_message = msg\<rparr>"

definition status_failed_precondition :: "string \<Rightarrow> status" where
  "status_failed_precondition msg = \<lparr>sc_code = StatusFailedPrecondition, sc_message = msg\<rparr>"

record client_env =
  ce_encode :: "write_request \<Rightarrow> string + byte list"
  ce_encoded_len :: "write_request \<Rightarrow> nat"
  ce_send_error :: string
  ce_recv_error :: string

section \<open>The buffer of a request\<close>

text \<open>A \<^verbatim>\<open>Vec<u8>\<close> with its capacity.\<close>

record vec_buf =
  vb_bytes :: "byte list"
  vb_capacity :: nat

definition initial_pool :: "vec_buf list" where
  "initial_pool = replicate 5 \<lparr>vb_bytes = [], vb_capacity = 1024\<rparr>"

definition vec_resize :: "nat \<Rightarrow> 'a \<Rightarrow> 'a list \<Rightarrow> 'a list" where
  "vec_resize n x v = take n v @ replicate (n - length v) x"

definition prepare_buffer :: "client_env \<Rightarrow> write_request \<Rightarrow> vec_buf \<Rightarrow> byte list" where
  "prepare_buffer env msg b =
     (if ce_encoded_len env msg > vb_capacity b
      then vec_resize (ce_encoded_len env msg) 0 (vb_bytes b)
      else vb_bytes b)"

text \<open>\<^verbatim>\<open>encode\<close> writes behind what the vector holds.\<close>

definition request_command :: "client_env \<Rightarrow> write_request \<Rightarrow> vec_buf \<Rightarrow> status + byte list" where
  "request_command env msg b =
     (let buf = prepare_buffer env msg b
      in case ce_encode env msg of
           Inl err \<Rightarrow> Inl (status_internal err)
         | Inr bs \<Rightarrow> Inr (buf @ bs))"

section \<open>The answer\<close>

text \<open>What \<^verbatim>\<open>rx.await\<close> gives: a reply of the runtime, or \<open>None\<close> when the sender was dropped.\<close>

fun client_answer :: "client_env \<Rightarrow> (error + unit) option \<Rightarrow> status + write_response" where
  "client_answer env None = Inl (status_internal (ce_recv_error env))"
| "client_answer env (Some (Inr _)) = Inr \<lparr>wp_ok = True\<rparr>"
| "client_answer env (Some (Inl (NotLeader (Some known)))) =
     Inl (status_failed_precondition (''node is not the leader; known leader: '' @ node_display known))"
| "client_answer env (Some (Inl (NotLeader None))) =
     Inl (status_failed_precondition ''node is not the leader; leader is unknown'')"
| "client_answer env (Some (Inl err)) = Inl (status_internal (error_display err))"

text \<open>
  The handler, against the runtime that serves its channel: \<open>None\<close> for a runtime that has shut
  down and dropped its receiver. The second component of the result is \<open>None\<close> while the
  request still waits for its reply; a runtime that stops then drops the sender, and the
  waiting request ends with \<open>client_answer env None\<close>.
\<close>

definition client_write :: "client_env \<Rightarrow> 'f rt_env \<Rightarrow> vec_buf \<Rightarrow> write_request \<Rightarrow> chan \<Rightarrow>
    'f runtime option \<Rightarrow> ('f runtime option \<times> (status + write_response) option) outcome" where
  "client_write cenv env b msg ch served =
     (case request_command cenv msg b of
        Inl st \<Rightarrow> Done (served, Some (Inl st))
      | Inr data \<Rightarrow>
          (case served of
             None \<Rightarrow> Done (None, Some (Inl (status_internal (ce_send_error cenv))))
           | Some rt \<Rightarrow> omap (\<lambda>rt. (Some rt,
               case map_of (rt_sent rt) ch of
                 Some (WriteReply r) \<Rightarrow> Some (client_answer cenv (Some r))
               | _ \<Rightarrow> None)) (handle_message env (MsgWrite data ch) rt)))"

text \<open>
  What a waiting request ends with when the runtime has stopped: a runtime drops its table and
  its queue, and with them the sender of every request it did not answer.
\<close>

definition final_answer :: "client_env \<Rightarrow> chan \<Rightarrow> 'f runtime \<Rightarrow> status + write_response" where
  "final_answer cenv ch rt =
     client_answer cenv (case map_of (rt_sent rt) ch of Some (WriteReply r) \<Rightarrow> Some r | _ \<Rightarrow> None)"

end
