(* ===== verification/Client_Theorems.thy ===== *)
theory Client_Theorems
  imports Client_Transport Runtime_Theorems Runtime_Invariants
begin

text \<open>
  The properties of the client-facing service: when the command it sends is the request,
  what a second request through a used buffer does to the application, and how every request
  ends when the runtime stops.
\<close>

section \<open>One request\<close>

text \<open>What the generated encoder promises: the length it announces is the length it writes.\<close>

definition encoder_ok :: "client_env \<Rightarrow> bool" where
  "encoder_ok cenv \<longleftrightarrow> (\<forall>m bs. ce_encode cenv m = Inr bs \<longrightarrow> ce_encoded_len cenv m = length bs)"

lemma prepare_buffer_Nil:
  "prepare_buffer cenv m b = [] \<longleftrightarrow> vb_bytes b = [] \<and> ce_encoded_len cenv m \<le> vb_capacity b"
  by (auto simp: prepare_buffer_def vec_resize_def)

text \<open>
  C38. The command that reaches the runtime is the encoded request exactly when the pooled
  buffer is empty and large enough: bytes left by an earlier request come first, and a
  request longer than the capacity is preceded by as many bytes as its own length.\<close>

theorem command_is_request_iff_clean_buffer:
  assumes "encoder_ok cenv" and "ce_encode cenv m = Inr bs"
  shows "request_command cenv m b = Inr bs \<longleftrightarrow> vb_bytes b = [] \<and> length bs \<le> vb_capacity b"
proof -
  have "ce_encoded_len cenv m = length bs" using assms by (simp add: encoder_ok_def)
  then show ?thesis
    using assms(2) prepare_buffer_Nil [of cenv m b] by (simp add: request_command_def)
qed

text \<open>A stand-in for the generated encoder: the two strings, each behind its length.\<close>

definition demo_client :: client_env where
  "demo_client = \<lparr>
     ce_encode = (\<lambda>m. Inr (of_nat (length (wr_key m)) # map of_char (wr_key m) @ map of_char (wr_value m))),
     ce_encoded_len = (\<lambda>m. 1 + length (wr_key m) + length (wr_value m)),
     ce_send_error = ''channel closed'', ce_recv_error = ''channel closed''\<rparr>"

lemma demo_client_ok: "encoder_ok demo_client"
  by (auto simp: encoder_ok_def demo_client_def)

theorem command_is_request_iff_clean_buffer_witness:
  "request_command demo_client \<lparr>wr_key = ''x'', wr_value = ''1''\<rparr> (hd initial_pool) = Inr [1, 120, 49] \<and>
   request_command demo_client \<lparr>wr_key = ''x'', wr_value = ''2''\<rparr>
     \<lparr>vb_bytes = [1, 120, 49], vb_capacity = 1024\<rparr> \<noteq> Inr [1, 120, 50]"
proof -
  have e: "ce_encode demo_client \<lparr>wr_key = ''x'', wr_value = ''1''\<rparr> = Inr [1, 120, 49]"
    "ce_encode demo_client \<lparr>wr_key = ''x'', wr_value = ''2''\<rparr> = Inr [1, 120, 50]"
    by (simp_all add: demo_client_def)
  show ?thesis
    using command_is_request_iff_clean_buffer [OF demo_client_ok e(1)]
      command_is_request_iff_clean_buffer [OF demo_client_ok e(2)]
    by (simp add: initial_pool_def)
qed

section \<open>Two requests\<close>

text \<open>A request on a leader without peers, from the buffer to the response.\<close>

lemma client_write_alone:
  assumes env: "codec_ok env" "fsm_total env" and lone: "lone_node env es k rt"
    and data: "request_command cenv m b = Inr data"
    and "fits env (lg_cfg (rt_log rt)) (new_entry data rt)" and "length es + 2 < 2 ^ 64"
    and id: "rt_next_operation_id rt \<noteq> - 1" and ch: "\<not> re_dropped env ch" "ch \<notin> fst ` set (rt_sent rt)"
  shows "\<exists>rt'. client_write cenv env b m ch (Some rt) = Done (Some rt', Some (Inr \<lparr>wp_ok = True\<rparr>)) \<and>
    lone_node env (es @ [new_entry data rt]) (length es + 1) rt' \<and>
    rt_fsm rt' = fold (apply_command env) (drop k es @ [new_entry data rt]) (rt_fsm rt) \<and>
    current_term (rt_raft rt') = current_term (rt_raft rt) \<and>
    rt_next_operation_id rt' = rt_next_operation_id rt + 1 \<and> lg_cfg (rt_log rt') = lg_cfg (rt_log rt) \<and>
    rt_returned rt' = rt_returned rt @ [data] \<and> rt_sent rt' = rt_sent rt @ [(ch, WriteReply (Inr ()))]"
proof -
  have "log_room (encoded env (new_entry data rt)) (rt_log rt)"
    using lone_room [OF lone [unfolded lone_node_from] assms(5)] assms(6) by simp
  from lone_write [OF env lone this id, of ch] obtain rt' where
    rt': "handle_message env (MsgWrite data ch) rt = Done rt'"
      "lone_node env (es @ [new_entry data rt]) (length es + 1) rt'"
      "rt_fsm rt' = fold (apply_command env) (drop k es @ [new_entry data rt]) (rt_fsm rt)"
      "current_term (rt_raft rt') = current_term (rt_raft rt)"
      "rt_next_operation_id rt' = rt_next_operation_id rt + 1" "lg_cfg (rt_log rt') = lg_cfg (rt_log rt)"
      "rt_returned rt' = rt_returned rt @ [data]" "rt_sent rt' = rt_sent rt @ [(ch, WriteReply (Inr ()))]"
    using ch(1) by auto
  have "map_of (rt_sent rt) ch = None" using ch(2) by (simp add: map_of_eq_None_iff)
  then have "map_of (rt_sent rt') ch = Some (WriteReply (Inr ()))" using rt'(8) by (simp add: map_add_def)
  with rt' data show ?thesis by (intro exI [of _ rt']) (simp add: client_write_def)
qed

text \<open>
  C39. A buffer that comes back from the pool corrupts the next command. The first request on a
  leader without peers is applied as it is, its buffer goes back with the command still in it,
  and a second request that is lent this buffer is acknowledged although the application is
  given the first command followed by the second.\<close>

theorem reused_buffer_corrupts_next_command:
  assumes "codec_ok env" and "fsm_total env" and "encoder_ok cenv" and "lone_node env es k rt"
    and "ce_encode cenv m1 = Inr bs1" and "ce_encode cenv m2 = Inr bs2"
    and "vb_bytes b1 = []" and "length bs1 \<le> vb_capacity b1" and "vb_bytes b2 = bs1" and "length bs2 \<le> vb_capacity b2"
    and "list_all (\<lambda>data. fits env (lg_cfg (rt_log rt)) (new_entry data rt)) [bs1, bs1 @ bs2]"
    and "length es + 3 < 2 ^ 64" and "unat (rt_next_operation_id rt) + 2 < 2 ^ 64"
    and "list_all (\<lambda>ch. \<not> re_dropped env ch) [ch1, ch2]" and "distinct (ch1 # ch2 # map fst (rt_sent rt))"
  shows "\<exists>rt1 rt2. client_write cenv env b1 m1 ch1 (Some rt) = Done (Some rt1, Some (Inr \<lparr>wp_ok = True\<rparr>)) \<and>
    rt_returned rt1 = rt_returned rt @ [vb_bytes b2] \<and>
    client_write cenv env b2 m2 ch2 (Some rt1) = Done (Some rt2, Some (Inr \<lparr>wp_ok = True\<rparr>)) \<and>
    rt_fsm rt2 = fold (apply_command env) (drop k es @ [new_entry bs1 rt, new_entry (bs1 @ bs2) rt]) (rt_fsm rt)"
proof -
  have data: "request_command cenv m1 b1 = Inr bs1" "request_command cenv m2 b2 = Inr (bs1 @ bs2)"
    using assms(3,5-10) by (simp_all add: request_command_def prepare_buffer_def encoder_ok_def)
  have "unat (rt_next_operation_id rt) \<noteq> unat (- 1 :: u64)" "unat (rt_next_operation_id rt + 1) \<noteq> unat (- 1 :: u64)"
    using assms(13) unat_max_word [where 'a = 64] unat_add_lem' [of "rt_next_operation_id rt" 1] by simp_all
  then have id: "rt_next_operation_id rt \<noteq> - 1" "rt_next_operation_id rt + 1 \<noteq> - 1" by metis+
  obtain rt1 where rt1: "client_write cenv env b1 m1 ch1 (Some rt) = Done (Some rt1, Some (Inr \<lparr>wp_ok = True\<rparr>))"
    "lone_node env (es @ [new_entry bs1 rt]) (length es + 1) rt1"
    "rt_fsm rt1 = fold (apply_command env) (drop k es @ [new_entry bs1 rt]) (rt_fsm rt)"
    "current_term (rt_raft rt1) = current_term (rt_raft rt)" "rt_next_operation_id rt1 = rt_next_operation_id rt + 1"
    "lg_cfg (rt_log rt1) = lg_cfg (rt_log rt)" "rt_returned rt1 = rt_returned rt @ [bs1]"
    "rt_sent rt1 = rt_sent rt @ [(ch1, WriteReply (Inr ()))]"
    using client_write_alone [OF assms(1,2,4) data(1) _ _ id(1), of ch1] assms(11,12,14,15) by auto
  have entry: "new_entry d rt1 = new_entry d rt" for d using rt1(4) by (simp add: new_entry_def)
  obtain rt2 where "client_write cenv env b2 m2 ch2 (Some rt1) = Done (Some rt2, Some (Inr \<lparr>wp_ok = True\<rparr>))"
    "rt_fsm rt2 = fold (apply_command env)
      (drop (length es + 1) (es @ [new_entry bs1 rt]) @ [new_entry (bs1 @ bs2) rt]) (rt_fsm rt1)"
    using client_write_alone [OF assms(1,2) rt1(2) data(2), of ch2] assms(11,12,14,15) id(2) rt1(5,6,8) entry
    by auto
  with rt1(1,3,7) assms(9) show ?thesis by (intro exI [of _ rt1] exI [of _ rt2]) simp
qed

theorem reused_buffer_corrupts_next_command_witness:
  "\<exists>rt rt1 rt2. client_write demo_client demo_env (hd initial_pool) \<lparr>wr_key = ''x'', wr_value = ''1''\<rparr> 10 (Some (lead rt)) =
       Done (Some rt1, Some (Inr \<lparr>wp_ok = True\<rparr>)) \<and>
     client_write demo_client demo_env \<lparr>vb_bytes = [1, 120, 49], vb_capacity = 1024\<rparr>
       \<lparr>wr_key = ''x'', wr_value = ''2''\<rparr> 11 (Some rt1) = Done (Some rt2, Some (Inr \<lparr>wp_ok = True\<rparr>)) \<and>
     rt_returned rt1 = [[1, 120, 49]] \<and> rt_fsm rt2 = [[1, 120, 49], [1, 120, 49, 1, 120, 50]]"
proof -
  obtain rt where rt: "lone_node demo_env [] 0 (lead rt)" "lg_cfg (rt_log rt) = small_cfg False"
    "rt_fsm rt = []" "rt_sent rt = []" "rt_next_operation_id rt = 1" "rt_returned rt = []"
    using demo_node [of False] by blast
  have e: "ce_encode demo_client \<lparr>wr_key = ''x'', wr_value = ''1''\<rparr> = Inr [1, 120, 49]"
    "ce_encode demo_client \<lparr>wr_key = ''x'', wr_value = ''2''\<rparr> = Inr [1, 120, 50]"
    by (simp_all add: demo_client_def)
  have "list_all (\<lambda>data. fits demo_env (lg_cfg (rt_log (lead rt))) (new_entry data (lead rt)))
      [[1, 120, 49], [1, 120, 49] @ [1, 120, 50]]"
    using rt(2) by (simp add: new_entry_def demo_fits)
  from reused_buffer_corrupts_next_command [OF demo_env_ok demo_client_ok rt(1) e _ _ _ _ this,
      of "hd initial_pool" "\<lparr>vb_bytes = [1, 120, 49], vb_capacity = 1024\<rparr>" 10 11] rt
  show ?thesis
    by (auto simp: initial_pool_def apply_command_def demo_env_def new_entry_def)
qed

section \<open>Stopping\<close>

definition write_replies :: "'f runtime \<Rightarrow> bool" where
  "write_replies rt \<longleftrightarrow> table_ok rt \<and> list_all (\<lambda>(ch, r). \<exists>w. r = WriteReply w) (rt_sent rt)"

lemma write_replies_step:
  assumes "message_step env rt msg rt'" and "write_replies rt"
  shows "write_replies rt'"
proof -
  obtain data ch where msg: "handle_message env (MsgWrite data ch) rt = Done rt'"
    using assms(1) by (cases msg) (auto simp: message_step_def)
  have "table_ok rt" using assms(2) by (simp add: write_replies_def)
  moreover from this have "ids_fresh rt" by (simp add: table_ok_def)
  ultimately show ?thesis
    using table_ok_step [OF assms(1)] message_settled(3) [OF _ msg] assms(2)
    by (auto simp: write_replies_def reply_to_def)
qed

interpretation write_only: step_invariant "message_step env" write_replies for env :: "'f rt_env"
  by unfold_locales (rule write_replies_step)

lemma count_fst: "count (mset (map fst xs)) k = length (filter (\<lambda>x. fst x = k) xs)"
  by (induction xs) auto

lemma replied_once:
  assumes "mset (map fst sent) + P = mset chs" and "distinct chs" and "ch \<in> fst ` set sent"
  shows "ch \<notin># P" and "\<exists>r. map_of sent ch = Some r \<and> filter (\<lambda>x. fst x = ch) sent = [(ch, r)]"
proof -
  have "count (mset chs) ch \<le> 1" using assms(2) by (simp add: distinct_count_atmost_1)
  then have "count (mset (map fst sent)) ch + count P ch \<le> 1" by (simp only: assms(1) [symmetric] count_union)
  moreover have "0 < count (mset (map fst sent)) ch" using assms(3) by (simp add: count_mset_gt_0 image_iff)
  ultimately have one: "count (mset (map fst sent)) ch = 1" and "count P ch = 0" by linarith+
  then show "ch \<notin># P" by (simp add: not_in_iff)
  have "length (filter (\<lambda>x. fst x = ch) sent) = 1"
    using one by (simp only: count_fst)
  then obtain x where x: "filter (\<lambda>x. fst x = ch) sent = [x]" by (cases "filter (\<lambda>x. fst x = ch) sent") auto
  then have "fst x = ch" by (auto dest: filter_eq_ConsD)
  moreover have "map_of sent ch = Some (snd x)"
    using x by (induction sent) (auto split: if_splits simp: filter_empty_conv)
  ultimately show "\<exists>r. map_of sent ch = Some r \<and> filter (\<lambda>x. fst x = ch) sent = [(ch, r)]"
    using x by (cases x) auto
qed

fun input_chan :: "rt_input \<Rightarrow> chan list" where
  "input_chan Cancelled = []"
| "input_chan (Received msg) = [message_chan msg]"

text \<open>
  C20. When a runtime that served its clients stops, every request that still listens ends, and
  in one way: it was answered, with exactly one reply, and ends with the response for that
  reply; or it was still pending or still in the channel, got no reply, and ends with the
  internal status of a dropped sender. Disk, codec and application may fail as they like.\<close>

theorem every_request_ends_at_shutdown:
  assumes "table_ok rt" and "rt_operations rt = []" and "rt_sent rt = []"
    and "run_select env (map Received msgs @ Cancelled # rest) rt = Done (rt', queue)"
    and "distinct (map message_chan msgs @ concat (map input_chan rest))"
    and "ch \<in> set (map message_chan msgs @ concat (map input_chan rest))" and "\<not> re_dropped env ch"
  shows "(\<exists>r. filter (\<lambda>x. fst x = ch) (rt_sent rt') = [(ch, WriteReply r)] \<and> ch \<notin> set (pending rt') \<and>
      final_answer cenv ch rt' = client_answer cenv (Some r)) \<or>
    (ch \<in> set (pending rt') \<or> ch \<in> set (concat (map input_chan queue))) \<and> ch \<notin> fst ` set (rt_sent rt') \<and>
      final_answer cenv ch rt' = Inl (status_internal (ce_recv_error cenv))"
proof -
  have run: "run env msgs rt = Done rt'" and queue: "queue = rest"
    using assms(4) by (auto simp: run_select_run omap_eq_Done)
  let ?on = "filter (\<lambda>ch. \<not> re_dropped env ch)"
  have acc: "mset (map fst (rt_sent rt')) + mset (?on (pending rt')) = mset (?on (map message_chan msgs))"
    using accounted_run [OF run [unfolded run_steps] assms(1)] assms(2,3) by (simp add: accounted_def pending_def)
  have writes: "list_all (\<lambda>(ch, r). \<exists>w. r = WriteReply w) (rt_sent rt')"
    using write_only.inv_steps [OF run [unfolded run_steps]] assms(1,3) by (simp add: write_replies_def)
  show ?thesis
  proof (cases "ch \<in> fst ` set (rt_sent rt')")
    case True
    have "distinct (?on (map message_chan msgs))" using assms(5) by simp
    from replied_once [OF acc this True] obtain r where
      r: "map_of (rt_sent rt') ch = Some r" "filter (\<lambda>x. fst x = ch) (rt_sent rt') = [(ch, r)]"
      and "ch \<notin> set (?on (pending rt'))"
      by auto
    moreover obtain w where "r = WriteReply w"
      using writes map_of_SomeD [OF r(1)] by (auto simp: list_all_iff)
    ultimately show ?thesis using assms(7) by (auto simp: final_answer_def)
  next
    case False
    then have "map_of (rt_sent rt') ch = None" by (simp add: map_of_eq_None_iff)
    moreover have "ch \<in> set (pending rt')" if "ch \<in> set (map message_chan msgs)"
    proof -
      have "ch \<in># mset (?on (map message_chan msgs))" using that assms(7) by simp
      then have "ch \<in># mset (map fst (rt_sent rt')) + mset (?on (pending rt'))" by (simp only: acc)
      then show ?thesis using False by auto
    qed
    ultimately show ?thesis using assms(6) False queue by (auto simp: final_answer_def)
  qed
qed

theorem every_request_ends_at_shutdown_witness:
  "\<exists>rt rt' queue. run_select demo_env (map Received (writes [([1], 10), ([2, 3], 11)]) @ Cancelled #
       [Received (MsgWrite [4] 12)]) (lead rt) = Done (rt', queue) \<and>
     final_answer demo_client 12 rt' = Inl (status_internal ''channel closed'')"
proof -
  obtain lg rt where rt: "lone_node demo_env [] 0 (lead rt)" "lg_cfg (rt_log rt) = small_cfg False"
    "rt_next_operation_id rt = 1" "rt_operations rt = []" "rt_sent rt = []"
    using demo_node [of False] by blast
  have "list_all (fits demo_env (lg_cfg (rt_log (lead rt)))) (entries_of 1 [([1], 10), ([2, 3], 11)])"
    using rt(2) by (simp add: entries_of_def demo_fits)
  from lone_writes [OF demo_env_ok rt(1) _ this] rt(3,4,5) obtain rt' where
    rt': "run demo_env (writes [([1], 10), ([2, 3], 11)]) (lead rt) = Done rt'"
      "rt_sent rt' = acks demo_env [([1], 10), ([2, 3], 11)]"
    by auto
  let ?in = "map Received (writes [([1], 10), ([2, 3], 11)]) @ Cancelled # [Received (MsgWrite [4] 12)]"
  have run: "run_select demo_env ?in (lead rt) = Done (rt', [Received (MsgWrite [4] 12)])"
    using rt'(1) by (simp only: run_select_run omap_simps)
  have "table_ok (lead rt)"
    using rt(1,4) by (simp add: lone_node_def table_ok_def hm_wf_def hm_keys_def)
  moreover have "12 \<notin> fst ` set (rt_sent rt')" using rt'(2) by (simp add: acks_def demo_env_def)
  ultimately have "final_answer demo_client 12 rt' = Inl (status_internal (ce_recv_error demo_client))"
    using every_request_ends_at_shutdown [OF _ _ _ run, of 12 demo_client] rt(4,5)
    by (auto simp: writes_def demo_env_def filter_eq_Cons_iff)
  with run show ?thesis by (auto simp: demo_client_def)
qed

end
