(* ===== verification/Client_Refinement.thy ===== *)
theory Client_Refinement
  imports Client_Theorems
begin

text \<open>
  The whole path of a write, from the gRPC request to the application: a leader that is its own
  majority, as its clients see it, refines the application itself. The requests run through the
  transport, the runtime, the core, the log and the application, under the simulation of
  \<^theory_text>\<open>Prelude\<close>.
\<close>

section \<open>Requests and their specification\<close>

text \<open>A request comes with the buffer the pool lends it and the channel of its reply.\<close>

type_synonym client_request = "vec_buf \<times> write_request \<times> chan"

fun serve :: "client_env \<Rightarrow> 'f rt_env \<Rightarrow> client_request \<Rightarrow> 'f runtime option \<Rightarrow>
    ('f runtime option \<times> (status + write_response) option) outcome" where
  "serve cenv env (b, m, ch) s = client_write cenv env b m ch s"

definition request_entry :: "client_env \<Rightarrow> u64 \<Rightarrow> client_request \<Rightarrow> log_entry" where
  "request_entry cenv t q = \<lparr>en_term = t, en_command = (case ce_encode cenv (fst (snd q)) of Inl e \<Rightarrow> [] | Inr bs \<Rightarrow> bs)\<rparr>"

text \<open>
  The specification: the log's entries, how many of them are applied, the application and the
  channels used. A request adds its entry, applies what is not applied yet and is answered.
\<close>

type_synonym 'f service = "log_entry list \<times> nat \<times> 'f \<times> chan list"

fun serve_spec :: "client_env \<Rightarrow> 'f rt_env \<Rightarrow> u64 \<Rightarrow> client_request \<Rightarrow> 'f service \<Rightarrow>
    'f service \<times> (status + write_response) option" where
  "serve_spec cenv env t q (es, k, f, chs) =
     (let es' = es @ [request_entry cenv t q]
      in ((es', length es', fold (apply_command env) (drop k es') f, chs @ [snd (snd q)]), Some (Inr \<lparr>wp_ok = True\<rparr>)))"

text \<open>What a request asks for by itself: a clean buffer with room for it, and a client that listens.\<close>

fun clean_request :: "client_env \<Rightarrow> 'f rt_env \<Rightarrow> log_config \<Rightarrow> u64 \<Rightarrow> client_request \<Rightarrow> bool" where
  "clean_request cenv env cfg t (b, m, ch) \<longleftrightarrow>
     vb_bytes b = [] \<and> (\<exists>bs. ce_encode cenv m = Inr bs \<and> length bs \<le> vb_capacity b) \<and>
     fits env cfg (request_entry cenv t (b, m, ch)) \<and> \<not> re_dropped env ch"

text \<open>What it asks for when it is served: a channel of its own, and counters that do not overflow.\<close>

fun served_fits :: "client_env \<Rightarrow> 'f rt_env \<Rightarrow> log_config \<Rightarrow> u64 \<Rightarrow> nat \<Rightarrow> client_request \<Rightarrow> 'f service \<Rightarrow> bool" where
  "served_fits cenv env cfg t lim q (es, k, f, chs) \<longleftrightarrow>
     clean_request cenv env cfg t q \<and> snd (snd q) \<notin> set chs \<and> length es < lim \<and> length es + 2 < 2 ^ 64"

text \<open>The runtime that stands for the specification; \<open>lim\<close> entries use up the identifiers.\<close>

fun serves :: "'f rt_env \<Rightarrow> log_config \<Rightarrow> u64 \<Rightarrow> nat \<Rightarrow> 'f service \<Rightarrow> 'f runtime option \<Rightarrow> bool" where
  "serves env cfg t lim (es, k, f, chs) s \<longleftrightarrow> (\<exists>rt. s = Some rt \<and> lone_node env es k rt \<and> rt_fsm rt = f \<and>
     map fst (rt_sent rt) = chs \<and> current_term (rt_raft rt) = t \<and> lg_cfg (rt_log rt) = cfg \<and>
     unat (rt_next_operation_id rt) + lim \<le> length es + 2 ^ 64 - 1)"

section \<open>The simulation\<close>

lemma serve_simulates:
  assumes env: "codec_ok env \<and> fsm_total env \<and> encoder_ok cenv"
    and "serves env cfg t lim v s" and "served_fits cenv env cfg t lim q v"
  shows "\<exists>s'. serve cenv env q s = Done (s', snd (serve_spec cenv env t q v)) \<and>
    serves env cfg t lim (fst (serve_spec cenv env t q v)) s'"
proof -
  obtain es k f chs where v: "v = (es, k, f, chs)" by (metis prod_cases4)
  obtain b m ch where q: "q = (b, m, ch)" by (metis prod_cases3)
  obtain rt where rt: "s = Some rt" "lone_node env es k rt" "rt_fsm rt = f" "map fst (rt_sent rt) = chs"
    "current_term (rt_raft rt) = t" "lg_cfg (rt_log rt) = cfg"
    "unat (rt_next_operation_id rt) + lim \<le> length es + 2 ^ 64 - 1"
    using assms(2) by (auto simp: v)
  obtain bs where bs: "ce_encode cenv m = Inr bs" "length bs \<le> vb_capacity b" "vb_bytes b = []"
    and fit: "fits env cfg (request_entry cenv t q)" "\<not> re_dropped env ch" "ch \<notin> set chs" "length es < lim"
      "length es + 2 < 2 ^ 64"
    using assms(3) by (auto simp: v q)
  have data: "request_command cenv m b = Inr bs"
    using env bs by (simp add: request_command_def prepare_buffer_def encoder_ok_def)
  have entry: "new_entry bs rt = request_entry cenv t q"
    using bs(1) rt(5) by (simp add: new_entry_def request_entry_def q)
  have small: "unat (rt_next_operation_id rt) < 2 ^ 64 - 1" using rt(7) fit(4) by linarith
  then have id: "rt_next_operation_id rt \<noteq> - 1" using unat_max_word [where 'a = 64] by auto
  have "unat (rt_next_operation_id rt + 1) = unat (rt_next_operation_id rt) + 1"
    using small unat_add_lem' [of "rt_next_operation_id rt" 1] by simp
  moreover have "k \<le> length es" using rt(2) by (simp add: lone_node_def)
  moreover have "ch \<notin> fst ` set (rt_sent rt)" using fit(3) rt(4) by (metis set_map)
  then obtain rt' where "client_write cenv env b m ch (Some rt) = Done (Some rt', Some (Inr \<lparr>wp_ok = True\<rparr>))"
    "lone_node env (es @ [request_entry cenv t q]) (length es + 1) rt'"
    "rt_fsm rt' = fold (apply_command env) (drop k es @ [request_entry cenv t q]) (rt_fsm rt)"
    "current_term (rt_raft rt') = current_term (rt_raft rt)"
    "rt_next_operation_id rt' = rt_next_operation_id rt + 1" "lg_cfg (rt_log rt') = lg_cfg (rt_log rt)"
    "rt_sent rt' = rt_sent rt @ [(ch, WriteReply (Inr ()))]"
    using client_write_alone [OF _ _ rt(2) data _ fit(5) id fit(2), unfolded entry] env fit(1) rt(6) by blast
  ultimately show ?thesis using rt by (auto simp: v q)
qed

interpretation service: simulation "serve cenv env" "serve_spec cenv env t"
  "\<lambda>v s. codec_ok env \<and> fsm_total env \<and> encoder_ok cenv \<and> serves env cfg t lim v s"
  "served_fits cenv env cfg t lim" for cenv env t cfg lim
  by unfold_locales (use serve_simulates in blast)

text \<open>A sequence of requests, by the specification.\<close>

lemma spec_requests:
  "k \<le> length es \<Longrightarrow> qs \<noteq> [] \<Longrightarrow> spec_run (serve_spec cenv env t) qs (es, k, f, chs) =
     ((es @ map (request_entry cenv t) qs, length es + length qs,
       fold (apply_command env) (drop k es @ map (request_entry cenv t) qs) f, chs @ map (snd \<circ> snd) qs),
      replicate (length qs) (Some (Inr \<lparr>wp_ok = True\<rparr>)))"
proof (induction qs arbitrary: es k f chs)
  case Nil
  then show ?case by simp
next
  case (Cons q qs)
  let ?es = "es @ [request_entry cenv t q]"
  show ?case
  proof (cases "qs = []")
    case True
    with Cons.prems show ?thesis by (simp add: Let_def)
  next
    case False
    with Cons.IH [of "length ?es" ?es] Cons.prems show ?thesis by (simp add: Let_def)
  qed
qed

lemma requests_fit:
  "list_all (clean_request cenv env cfg t) qs \<Longrightarrow> distinct (chs @ map (snd \<circ> snd) qs) \<Longrightarrow>
   length es + length qs \<le> lim \<Longrightarrow> length es + length qs + 1 < 2 ^ 64 \<Longrightarrow>
   all_fit (serve_spec cenv env t) (served_fits cenv env cfg t lim) qs (es, k, f, chs)"
  by (induction qs arbitrary: es k f chs) (auto simp: Let_def)

section \<open>Property\<close>

text \<open>
  C3. The service refines the application, as long as every request finds a clean buffer. On a leader
  that is its own majority, whose log starts at offset one under a configuration whose index limit
  is a positive multiple of twelve, where no system call fails and the application accepts every
  command: any non-empty sequence of write requests, each on a channel of its own and each lent
  an empty buffer whose capacity is at least the length of the encoded request, is answered with
  success one by one, and the application ends in the state that its \<^verbatim>\<open>apply\<close> gives on the entries
  not applied before followed by exactly the encoded requests, in their order; the log holds the
  former entries and these. (A longer request or a used buffer gives another command: see
  \<^theory_text>\<open>Client_Theorems\<close>.)\<close>

theorem requests_refine_application:
  assumes "codec_ok env" and "fsm_total env" and "encoder_ok cenv" and "lone_node env es k rt" and "qs \<noteq> []"
    and "list_all (clean_request cenv env (lg_cfg (rt_log rt)) (current_term (rt_raft rt))) qs"
    and "distinct (map fst (rt_sent rt) @ map (snd \<circ> snd) qs)"
    and "length es + length qs + 1 < 2 ^ 64" and "unat (rt_next_operation_id rt) + length qs < 2 ^ 64"
  shows "\<exists>rt'. op_run (serve cenv env) qs (Some rt) =
      Done (Some rt', replicate (length qs) (Some (Inr \<lparr>wp_ok = True\<rparr>))) \<and>
    entries_held env 1 (es @ map (request_entry cenv (current_term (rt_raft rt))) qs) rt' \<and>
    rt_fsm rt' = fold (apply_command env)
      (drop k es @ map (request_entry cenv (current_term (rt_raft rt))) qs) (rt_fsm rt)"
proof -
  let ?t = "current_term (rt_raft rt)" and ?cfg = "lg_cfg (rt_log rt)" and ?lim = "length es + length qs"
  let ?v = "(es, k, rt_fsm rt, map fst (rt_sent rt))"
  have "serves env ?cfg ?t ?lim ?v (Some rt)" using assms(4,9) by simp
  moreover have "all_fit (serve_spec cenv env ?t) (served_fits cenv env ?cfg ?t ?lim) qs ?v"
    using requests_fit [OF assms(6,7)] assms(8) by simp
  ultimately obtain s' where s': "op_run (serve cenv env) qs (Some rt) = Done (s', snd (spec_run (serve_spec cenv env ?t) qs ?v))"
    "serves env ?cfg ?t ?lim (fst (spec_run (serve_spec cenv env ?t) qs ?v)) s'"
    using service.sim_run [of env cenv ?cfg ?t ?lim ?v "Some rt" qs] assms(1-3) by blast
  have k: "k \<le> length es" using assms(4) by (simp add: lone_node_def)
  from s' show ?thesis
    unfolding spec_requests [OF k assms(5)] by (auto simp: lone_node_def)
qed

theorem requests_refine_application_witness:
  "\<exists>rt rt'. op_run (serve demo_client demo_env)
       [(hd initial_pool, \<lparr>wr_key = ''x'', wr_value = ''1''\<rparr>, 10), (hd initial_pool, \<lparr>wr_key = ''y'', wr_value = ''2''\<rparr>, 11)]
       (Some (lead rt)) = Done (Some rt', [Some (Inr \<lparr>wp_ok = True\<rparr>), Some (Inr \<lparr>wp_ok = True\<rparr>)]) \<and>
     rt_fsm rt' = [[1, 120, 49], [1, 121, 50]]"
proof -
  obtain rt where rt: "lone_node demo_env [] 0 (lead rt)" "lg_cfg (rt_log rt) = small_cfg False"
    "rt_fsm rt = []" "rt_sent rt = []" "rt_next_operation_id rt = 1"
    using demo_node [of False] by blast
  let ?qs = "[(hd initial_pool, \<lparr>wr_key = ''x'', wr_value = ''1''\<rparr>, 10), (hd initial_pool, \<lparr>wr_key = ''y'', wr_value = ''2''\<rparr>, 11)]"
  have e: "ce_encode demo_client \<lparr>wr_key = ''x'', wr_value = ''1''\<rparr> = Inr [1, 120, 49]"
    "ce_encode demo_client \<lparr>wr_key = ''y'', wr_value = ''2''\<rparr> = Inr [1, 121, 50]"
    by (simp_all add: demo_client_def)
  have "list_all (clean_request demo_client demo_env (lg_cfg (rt_log (lead rt))) (current_term (rt_raft (lead rt)))) ?qs"
    using rt(2) by (simp add: e request_entry_def demo_fits initial_pool_def) (simp add: demo_env_def)
  moreover have "distinct (map fst (rt_sent (lead rt)) @ map (snd \<circ> snd) ?qs)" using rt(4) by simp
  ultimately obtain rt' where "op_run (serve demo_client demo_env) ?qs (Some (lead rt)) =
      Done (Some rt', replicate (length ?qs) (Some (Inr \<lparr>wp_ok = True\<rparr>)))"
    "rt_fsm rt' = fold (apply_command demo_env) (map (request_entry demo_client 1) ?qs) []"
    using requests_refine_application [OF demo_env_ok demo_client_ok rt(1), of ?qs] rt(3,5) by auto
  moreover have "apply_command demo_env e f = f @ [en_command e]" for e f
    by (simp add: apply_command_def demo_env_def)
  ultimately show ?thesis
    by (intro exI [of _ rt] exI [of _ rt']) (simp add: e request_entry_def numeral_2_eq_2)
qed

end
