(* ===== verification/Membership.thy ===== *)
theory Membership
  imports Prelude
begin

text \<open>
  The discovery of other nodes, \<^verbatim>\<open>src/membership.rs\<close>. The gossip library (\<^verbatim>\<open>serf\<close>) and the parsers of
  its address types are parameters: whether a text parses, whether the server starts and
  whether a peer can be joined. The loop over membership events is complete in the source, but
  the bodies that would tell Raft are comments, so the handlers go over the members and change
  nothing.
\<close>

section \<open>Configuration and environment\<close>

record membership_config =
  peer_addresses :: "string list"
  mc_addr :: string
  advertise_addr :: string
  mc_node_id :: string
  rpc_addr :: string

record ('h, 's, 'n, 'srv) serf_env =
  parse_host :: "string \<Rightarrow> 'h option"
  parse_socket :: "string \<Rightarrow> 's option"
  parse_node :: "string \<Rightarrow> 'n option"
  serf_start :: "'n \<Rightarrow> 'h list \<Rightarrow> 's \<Rightarrow> (string \<times> string) list \<Rightarrow> 'srv option"
  serf_join :: "'h \<Rightarrow> 'srv \<Rightarrow> 'srv option"

record 'srv membership =
  mb_shutdown :: bool
  mb_serf :: 'srv

text \<open>\<^verbatim>\<open>unwrap()\<close> on a result whose error is not looked at.\<close>

definition unwrap_ok :: "'a option \<Rightarrow> 'a outcome" where
  "unwrap_ok v = expect_some ''called `Result::unwrap()` on an `Err` value'' v"

section \<open>Starting\<close>

fun join_peers :: "('h, 's, 'n, 'srv) serf_env \<Rightarrow> string list \<Rightarrow> 'srv \<Rightarrow> 'srv outcome" where
  "join_peers env [] srv = Done srv"
| "join_peers env (p # ps) srv =
     obind (unwrap_ok (parse_host env p)) (\<lambda>peer.
     obind (unwrap_ok (serf_join env peer srv)) (join_peers env ps))"

definition membership_new ::
  "('h, 's, 'n, 'srv) serf_env \<Rightarrow> membership_config \<Rightarrow> 'srv membership outcome" where
  "membership_new env cfg =
     obind (unwrap_ok (parse_host env (''[::]:'' @ mc_addr cfg))) (\<lambda>bind_addr.
     obind (unwrap_ok (parse_socket env (advertise_addr cfg))) (\<lambda>advertise.
     obind (unwrap_ok (parse_node env (mc_node_id cfg))) (\<lambda>node.
     obind (expect_some [] (serf_start env node [bind_addr] advertise [(''rpc_addr'', rpc_addr cfg)])) (\<lambda>server.
     obind (join_peers env (peer_addresses cfg) server) (\<lambda>server.
       Done \<lparr>mb_shutdown = False, mb_serf = server\<rparr>)))))"

section \<open>Membership events\<close>

datatype member_event_type = MemberJoin | MemberLeave | MemberFailed | MemberUpdate | MemberReap

datatype 'n serf_event = MemberEvent member_event_type "'n list" | OtherEvent

text \<open>What a round of the loop takes: the cancellation, an event, or the error of a closed channel.\<close>

datatype 'n serf_input = SerfCancelled | SerfEvent "'n serf_event" | SerfClosed

text \<open>
  The four handlers over a state \<open>st\<close>, which stands for everything the program could change: each
  goes over the members and leaves the state alone, the first three skipping the node itself.
\<close>

fun handle_member_join :: "'n \<Rightarrow> 'n list \<Rightarrow> 'st \<Rightarrow> 'st" where
  "handle_member_join local_id [] st = st"
| "handle_member_join local_id (m # ms) st =
     (if m = local_id then handle_member_join local_id ms st else handle_member_join local_id ms st)"

fun handle_member_leave_or_failed :: "'n \<Rightarrow> 'n list \<Rightarrow> 'st \<Rightarrow> 'st" where
  "handle_member_leave_or_failed local_id [] st = st"
| "handle_member_leave_or_failed local_id (m # ms) st =
     (if m = local_id then handle_member_leave_or_failed local_id ms st
      else handle_member_leave_or_failed local_id ms st)"

fun handle_member_update :: "'n \<Rightarrow> 'n list \<Rightarrow> 'st \<Rightarrow> 'st" where
  "handle_member_update local_id [] st = st"
| "handle_member_update local_id (m # ms) st =
     (if m = local_id then handle_member_update local_id ms st else handle_member_update local_id ms st)"

fun handle_member_reap :: "'n list \<Rightarrow> 'st \<Rightarrow> 'st" where
  "handle_member_reap [] st = st"
| "handle_member_reap (m # ms) st = handle_member_reap ms st"

fun dispatch_member :: "'n \<Rightarrow> member_event_type \<Rightarrow> 'n list \<Rightarrow> 'st \<Rightarrow> 'st" where
  "dispatch_member local_id MemberJoin ms st = handle_member_join local_id ms st"
| "dispatch_member local_id MemberLeave ms st = handle_member_leave_or_failed local_id ms st"
| "dispatch_member local_id MemberFailed ms st = handle_member_leave_or_failed local_id ms st"
| "dispatch_member local_id MemberUpdate ms st = handle_member_update local_id ms st"
| "dispatch_member local_id MemberReap ms st = handle_member_reap ms st"

text \<open>The loop, with what is left of its input when it returns.\<close>

fun handle_serf_events :: "'n \<Rightarrow> 'n serf_input list \<Rightarrow> 'st \<Rightarrow> 'st \<times> 'n serf_input list" where
  "handle_serf_events local_id [] st = (st, [])"
| "handle_serf_events local_id (SerfCancelled # ins) st = (st, ins)"
| "handle_serf_events local_id (SerfClosed # ins) st = (st, ins)"
| "handle_serf_events local_id (SerfEvent ev # ins) st =
     handle_serf_events local_id ins
       (case ev of MemberEvent ty ms \<Rightarrow> dispatch_member local_id ty ms st | OtherEvent \<Rightarrow> st)"

section \<open>What holds\<close>

lemma unwrap_ok_eq_Done: "unwrap_ok v = Done x \<longleftrightarrow> v = Some x"
  by (simp add: unwrap_ok_def expect_some_eq_Done)

lemma handlers_keep:
  "handle_member_join local_id ms st = st" "handle_member_leave_or_failed local_id ms st = st"
  "handle_member_update local_id ms st = st" "handle_member_reap ms st = st"
  by (induction ms; simp)+

lemma dispatch_member_keeps: "dispatch_member local_id ty ms st = st"
  by (cases ty) (simp_all add: handlers_keep)

text \<open>No membership event changes the program's state, and the loop reads up to the first end.\<close>

lemma serf_events_keep:
  "handle_serf_events local_id ins st =
     (st, drop 1 (dropWhile (\<lambda>i. \<exists>ev. i = SerfEvent ev) ins))"
proof (induction local_id ins st rule: handle_serf_events.induct)
  case (4 local_id ev ins st)
  then show ?case by (cases ev) (simp_all add: dispatch_member_keeps)
qed simp_all

text \<open>A start that succeeds has joined every configured peer, in order.\<close>

definition join_all :: "('h, 's, 'n, 'srv) serf_env \<Rightarrow> 'h list \<Rightarrow> 'srv \<Rightarrow> 'srv option" where
  "join_all env hs srv = fold (\<lambda>h s. Option.bind s (serf_join env h)) hs (Some srv)"

lemma fold_bind_None: "fold (\<lambda>h s. Option.bind s (f h)) hs None = None"
  by (induction hs) simp_all

lemma join_peers_eq_Done:
  "join_peers env ps srv = Done srv' \<longleftrightarrow>
     (\<exists>hs. list_all2 (\<lambda>p h. parse_host env p = Some h) ps hs \<and> join_all env hs srv = Some srv')"
proof (induction ps arbitrary: srv)
  case Nil
  show ?case by (simp add: join_all_def)
next
  case (Cons p ps)
  let ?parsed = "list_all2 (\<lambda>p h. parse_host env p = Some h)"
  have cons: "join_all env (h # hs) srv = Some srv' \<longleftrightarrow>
      (\<exists>s. serf_join env h srv = Some s \<and> join_all env hs s = Some srv')" for h hs
    by (cases "serf_join env h srv") (simp_all add: join_all_def fold_bind_None)
  have "join_peers env (p # ps) srv = Done srv' \<longleftrightarrow> (\<exists>h s hs. parse_host env p = Some h \<and>
      serf_join env h srv = Some s \<and> ?parsed ps hs \<and> join_all env hs s = Some srv')"
    by (auto simp: obind_eq_Done unwrap_ok_eq_Done Cons.IH)
  also have "\<dots> \<longleftrightarrow> (\<exists>h hs. parse_host env p = Some h \<and> ?parsed ps hs \<and> join_all env (h # hs) srv = Some srv')"
    unfolding cons by blast
  also have "\<dots> \<longleftrightarrow> (\<exists>hs. ?parsed (p # ps) hs \<and> join_all env hs srv = Some srv')"
    by (simp add: list_all2_Cons1) blast
  finally show ?case .
qed

section \<open>When a start succeeds\<close>

text \<open>
  Exactly when a node joins the cluster, and what it then holds: the bind address on its port,
  the advertised address and the identifier parse, the gossip server starts on them with the
  RPC address as its only tag, and every configured peer parses and is joined, in order; the
  node then holds the server after all these joins and no cancellation. In every other case
  the start panics.\<close>

lemma membership_starts_exactly_when:
  "membership_new env cfg = Done m \<longleftrightarrow>
     (\<exists>bind_addr advertise node srv peers.
        parse_host env (''[::]:'' @ mc_addr cfg) = Some bind_addr \<and>
        parse_socket env (advertise_addr cfg) = Some advertise \<and> parse_node env (mc_node_id cfg) = Some node \<and>
        serf_start env node [bind_addr] advertise [(''rpc_addr'', rpc_addr cfg)] = Some srv \<and>
        list_all2 (\<lambda>p h. parse_host env p = Some h) (peer_addresses cfg) peers \<and>
        join_all env peers srv = Some (mb_serf m) \<and> \<not> mb_shutdown m)"
  by (cases m) (auto simp: membership_new_def obind_eq_Done unwrap_ok_eq_Done expect_some_eq_Done join_peers_eq_Done)

end
