(* ===== verification/Log_Refinement.thy ===== *)
theory Log_Refinement
  imports Log_Theorems
begin

text \<open>
  The segmented log against its specification, a list of records: appending, reading, asking
  for the next offset, closing and opening again, and stopping without closing, in any order.
  The log is under the simulation of \<^theory_text>\<open>Prelude\<close>; its files, segments and rotations are not visible in
  the answers.
\<close>

section \<open>Operations and answers\<close>

datatype log_op = LogAppend "byte list" | LogRead u64 | LogNext | LogReopen | LogCrash

datatype log_answer = GivenOffset u64 | GivenRecord "byte list" | GivenError io_error | Started

text \<open>A process that starts on the files an earlier one left.\<close>

definition restart_log :: "log_env \<Rightarrow> log \<Rightarrow> (log \<times> log_answer) outcome" where
  "restart_log env lg =
     omap (\<lambda>r. case r of Inl e \<Rightarrow> (lg, GivenError e) | Inr lo \<Rightarrow> (lo, Started))
       (log_new env (lg_cfg lg) (lg_dir lg) (Some (log_image lg)))"

fun log_do :: "log_env \<Rightarrow> log_op \<Rightarrow> log \<Rightarrow> (log \<times> log_answer) outcome" where
  "log_do env (LogAppend r) lg =
     omap (\<lambda>(lg, x). (lg, case x of Inl e \<Rightarrow> GivenError e | Inr off \<Rightarrow> GivenOffset off)) (log_append env r lg)"
| "log_do env (LogRead off) lg =
     omap (\<lambda>(lg, x). (lg, case x of Inl e \<Rightarrow> GivenError e | Inr r \<Rightarrow> GivenRecord r)) (log_read env off lg)"
| "log_do env LogNext lg = omap (\<lambda>off. (lg, GivenOffset off)) (log_next_offset lg)"
| "log_do env LogReopen lg = obind (log_close env lg) (\<lambda>(lg, x).
     case x of Inl e \<Rightarrow> Done (lg, GivenError e) | Inr _ \<Rightarrow> restart_log env lg)"
| "log_do env LogCrash lg = restart_log env lg"

section \<open>The list machine\<close>

fun list_do :: "u64 \<Rightarrow> log_op \<Rightarrow> byte list list \<Rightarrow> byte list list \<times> log_answer" where
  "list_do b (LogAppend r) rs = (rs @ [r], GivenOffset (offset_at b (length rs)))"
| "list_do b (LogRead off) rs =
     (rs, if unat b \<le> unat off \<and> unat off < unat b + length rs then GivenRecord (rs ! (unat off - unat b))
          else GivenError (IoError UnexpectedEof ''offset out of range''))"
| "list_do b LogNext rs = (rs, GivenOffset (offset_at b (length rs)))"
| "list_do b LogReopen rs = (rs, Started)"
| "list_do b LogCrash rs = (rs, Started)"

text \<open>
  What the operations ask for: a record whose position stays below \<^verbatim>\<open>2^64\<close>, an offset that does
  too, and synchronous writes if the process may stop without closing.
\<close>

definition record_fits :: "log_config \<Rightarrow> byte list \<Rightarrow> bool" where
  "record_fits cfg r \<longleftrightarrow> length r < 2 ^ 63 \<and> unat (log_max_store_bytes cfg) + 8 + length r \<le> 2 ^ 64"

fun op_fits :: "log_config \<Rightarrow> log_op \<Rightarrow> bool" where
  "op_fits cfg (LogAppend r) = record_fits cfg r"
| "op_fits cfg LogCrash = log_sync_writes cfg"
| "op_fits cfg _ = True"

definition op_fits_at :: "log_config \<Rightarrow> u64 \<Rightarrow> log_op \<Rightarrow> byte list list \<Rightarrow> bool" where
  "op_fits_at cfg b x rs \<longleftrightarrow> op_fits cfg x \<and> unat b + length rs < 2 ^ 64 - 1"

lemma all_fit_list:
  "list_all (op_fits cfg) xs \<Longrightarrow> unat b + length rs + length xs < 2 ^ 64 \<Longrightarrow>
   all_fit (list_do b) (op_fits_at cfg b) xs rs"
proof (induction xs arbitrary: rs)
  case Nil
  then show ?case by simp
next
  case (Cons x xs)
  moreover have "length (fst (list_do b x rs)) \<le> Suc (length rs)" by (cases x) simp_all
  ultimately show ?case by (simp add: op_fits_at_def)
qed

section \<open>The simulation\<close>

definition log_is :: "log_env \<Rightarrow> log_config \<Rightarrow> u64 \<Rightarrow> byte list list \<Rightarrow> log \<Rightarrow> bool" where
  "log_is env cfg b rs lg \<longleftrightarrow> calm env \<and> log_holds b rs lg \<and> lg_cfg lg = cfg"

lemma restart_log_is:
  assumes "calm env" and "log_stopped b rs lg" and "lg_cfg lg = cfg"
  shows "\<exists>lo. restart_log env lg = Done (lo, Started) \<and> log_is env cfg b rs lo"
  using log_reopen [OF assms(1,2), of "lg_dir lg"] assms(1,3) by (auto simp: restart_log_def log_is_def)

lemma log_read_is:
  assumes "log_is env cfg b rs lg"
  shows "\<exists>lg'. log_do env (LogRead off) lg = Done (lg', snd (list_do b (LogRead off) rs)) \<and> log_is env cfg b rs lg'"
proof (cases "unat b \<le> unat off \<and> unat off < unat b + length rs")
  case True
  let ?i = "unat off - unat b"
  have "unat off = unat b + ?i" "?i < length rs" using True by auto
  with log_read_calm [of env b rs lg ?i off] assms obtain lg' where
    "log_read env off lg = Done (lg', Inr (rs ! ?i))" "log_holds b rs lg'"
    by (auto simp: log_is_def)
  moreover from this(1) have "lg_cfg lg' = lg_cfg lg" by (rule log_read_cfg)
  ultimately show ?thesis using True assms by (auto simp: log_is_def)
next
  case False
  with assms log_read_miss [of b rs lg off env] show ?thesis by (auto simp: log_is_def)
qed

lemma log_do_is:
  assumes "log_is env cfg b rs lg" and "op_fits_at cfg b x rs"
  shows "\<exists>lg'. log_do env x lg = Done (lg', snd (list_do b x rs)) \<and> log_is env cfg b (fst (list_do b x rs)) lg'"
proof (cases x)
  case (LogAppend r)
  have "log_room r lg"
    using assms LogAppend log_room_cfg [of b rs lg r]
    by (simp add: log_is_def op_fits_at_def record_fits_def)
  then obtain lg' where "log_append env r lg = Done (lg', Inr (offset_at b (length rs)))" "log_holds b (rs @ [r]) lg'"
    using whole_log.append_law [of env b rs lg r] assms(1) by (auto simp: log_is_def)
  moreover from this(1) have "lg_cfg lg' = lg_cfg lg" by (rule log_append_cfg)
  ultimately show ?thesis using LogAppend assms(1) by (auto simp: log_is_def)
next
  case (LogRead off)
  then show ?thesis using log_read_is [OF assms(1), of off] by simp
next
  case LogNext
  have "log_next_offset lg = Done (offset_at b (length rs))"
    using assms(1) log_next_holds [of b rs lg] log_holds_bound [of b rs lg]
    by (simp add: log_is_def word_unat_eq_iff unat_offset_at)
  then show ?thesis using LogNext assms(1) by simp
next
  case LogReopen
  obtain lc where "log_close env lg = Done (lc, Inr ())" "log_stopped b rs lc" "lg_cfg lc = cfg"
    using log_close_calm [of env b rs lg] assms(1) by (auto simp: log_is_def)
  then show ?thesis using LogReopen restart_log_is [of env b rs lc cfg] assms(1) by (simp add: log_is_def)
next
  case LogCrash
  then show ?thesis
    using assms restart_log_is [of env b rs lg cfg] sync_log_stopped [of b rs lg]
    by (simp add: log_is_def op_fits_at_def)
qed

interpretation log_sim: simulation "log_do env" "list_do b" "log_is env cfg b" "op_fits_at cfg b" for env cfg b
  by unfold_locales (rule log_do_is)

section \<open>Property\<close>

text \<open>
  C2. The segmented log refines a list of records, when no system call fails and the configuration
  lets it run: an index limit that is a positive multiple of twelve, below what 32 bits can count,
  and a positive store limit (\<open>cfg_ok\<close>; under the 1024 of the source's test of the runtime the 86th
  append of a segment fails instead). Then over any sequence of appends of records
  that fit, reads at any offset, questions for the next offset, clean restarts and, with
  synchronous writes, stops without closing, as long as the offsets stay below \<^verbatim>\<open>2^64\<close>, a log on a
  directory in which no name carries an offset gives exactly the answers of a list that starts
  empty at the configured offset: no rotation, file or restart can be told from the answers.\<close>

theorem log_refines_list:
  assumes "calm env" and "cfg_ok cfg" and "tidy {} d"
    and "log_new env cfg dir (Some d) = Done (Inr lg)"
    and "list_all (op_fits cfg) xs" and "unat (initial_offset cfg) + length xs < 2 ^ 64"
  shows "\<exists>lg'. op_run (log_do env) xs lg = Done (lg', snd (spec_run (list_do (initial_offset cfg)) xs [])) \<and>
    log_holds (initial_offset cfg) (fst (spec_run (list_do (initial_offset cfg)) xs [])) lg'"
proof -
  have "log_is env cfg (initial_offset cfg) [] lg"
    using log_new_fresh [OF assms(1-3), of dir] assms(1,4) by (auto simp: log_is_def)
  from log_sim.sim_run [OF this all_fit_list [OF assms(5)]] assms(6) show ?thesis
    by (auto simp: log_is_def)
qed

theorem log_refines_list_witness:
  "\<exists>lg lg'. log_new calm_env (small_cfg True) ''data'' (Some []) = Done (Inr lg) \<and>
     op_run (log_do calm_env) [LogAppend [7], LogAppend [8], LogCrash, LogRead 2, LogAppend [9], LogReopen,
       LogNext, LogRead 1, LogRead 3, LogRead 4] lg =
     Done (lg', [GivenOffset 1, GivenOffset 2, Started, GivenRecord [8], GivenOffset 3, Started,
       GivenOffset 4, GivenRecord [7], GivenRecord [9], GivenError (IoError UnexpectedEof ''offset out of range'')])"
proof -
  let ?xs = "[LogAppend [7], LogAppend [8], LogCrash, LogRead 2, LogAppend [9], LogReopen,
    LogNext, LogRead 1, LogRead 3, LogRead 4]"
  obtain lg where lg: "log_new calm_env (small_cfg True) ''data'' (Some []) = Done (Inr lg)"
    using small_log [of True] by blast
  have fit: "list_all (op_fits (small_cfg True)) ?xs" "unat (initial_offset (small_cfg True)) + length ?xs < 2 ^ 64"
    by (simp_all add: small_cfg_def record_fits_def)
  have "snd (spec_run (list_do 1) ?xs []) = [GivenOffset 1, GivenOffset 2, Started, GivenRecord [8], GivenOffset 3,
    Started, GivenOffset 4, GivenRecord [7], GivenRecord [9], GivenError (IoError UnexpectedEof ''offset out of range'')]"
    by (simp add: offset_at_def Let_def nth_Cons')
  with log_refines_list [OF calm_calm_env small_cfg_ok tidy_Nil lg fit] lg show ?thesis
    by (auto simp: small_cfg_def)
qed

end
