(* ===== verification/Log_Append_Errors.thy ===== *)
theory Log_Append_Errors
  imports Log_Theorems
begin

text \<open>
  Appends that fail, in an environment where any system call may fail or come up short: what the
  log still holds afterwards, and where its next offset is.
\<close>

section \<open>A segment that keeps its records\<close>

text \<open>The records \<open>rs\<close> are in the first slots; what the slots behind them point at is open.\<close>

definition seg_keeps :: "byte list list \<Rightarrow> segment \<Rightarrow> bool" where
  "seg_keeps rs sg \<longleftrightarrow> unat (sg_base sg) + length rs \<le> unat (sg_next sg) \<and> index_live (sg_index sg) \<and>
     length (content (sg_store sg)) < 2 ^ 64 \<and>
     (\<exists>ps qs. index_holds (ps @ qs) (sg_index sg) \<and>
        list_all2 (\<lambda>p r. record_at (content (sg_store sg)) (unat p) r) ps rs)"

lemma seg_holds_keeps: "seg_holds rs sg \<Longrightarrow> index_live (sg_index sg) \<Longrightarrow> seg_keeps rs sg"
  unfolding seg_keeps_def seg_holds_def by (metis append_Nil2 order_refl)

lemma segment_read_keeps:
  assumes calm: "calm env" and keeps: "seg_keeps rs sg" and i: "i < length rs"
    and off: "unat off = unat (sg_base sg) + i"
  shows "is_in_range sg off \<and> (\<exists>sg'. segment_read env off sg = Done (sg', Inr (rs ! i)))"
proof -
  obtain ps qs where ps: "index_holds (ps @ qs) (sg_index sg)" and live: "index_live (sg_index sg)"
    and recs: "list_all2 (\<lambda>p r. record_at (content (sg_store sg)) (unat p) r) ps rs"
    and len: "length (content (sg_store sg)) < 2 ^ 64" and nxt: "unat (sg_base sg) + length rs \<le> unat (sg_next sg)"
    using keeps by (auto simp: seg_keeps_def)
  have n: "i < length ps" using recs i by (simp add: list_all2_lengthD)
  have "record_at (content (sg_store sg)) (unat (ps ! i)) (rs ! i)" using list_all2_nthD [OF recs n] .
  note rd = store_read_calm [OF calm this len]
  have range: "is_in_range sg off"
    using i off nxt by (simp add: is_in_range_def word_less_nat_alt word_le_nat_alt)
  have "i < slot_limit" using index_holds_count [OF ps] n by simp
  with range show ?thesis
    using rel_offset [of i off "sg_base sg"] off index_read_holds [OF calm ps live, of i] n rd
    by (simp add: segment_read_def on_store_def is_in_range_def nth_append not_less not_le)
qed

section \<open>An append that the segment accepts\<close>

text \<open>Writing a slot does not depend on the environment when it succeeds.\<close>

lemma index_write_Ok:
  assumes "index_write env (word_of_nat (length ps)) pos ix = Done (ix', Inr u)"
    and "index_holds ps ix" and "index_live ix"
  shows "index_holds (ps @ [pos]) ix' \<and> index_live ix'"
proof -
  obtain size where size: "add_w (ix_size ix) 12 = Done size" "unat size \<le> length (ix_mmap ix)"
    using assms(1) by (auto simp: index_write_def width_defs obind_eq_Done split: if_splits)
  then have "12 * length ps + 12 \<le> length (ix_mmap ix)"
    using assms(2) by (simp add: index_holds_def add_w_eq_Done)
  from index_write_holds [OF calm_calm_env assms(2,3) this] obtain ix'' where
    "index_write calm_env (word_of_nat (length ps)) pos ix = Done (ix'', Inr ())"
    "index_holds (ps @ [pos]) ix''" "index_live ix''" by blast
  moreover from this assms(1) have "ix'' = ix'"
    by (auto simp: index_write_def obind_eq_Done Let_def split: if_splits)
  ultimately show ?thesis by simp
qed

lemma segment_append_Ok:
  assumes app: "segment_append env r sg = Done (sg', Inr off)" and holds: "seg_holds rs sg"
    and live: "index_live (sg_index sg)" and len: "length (content (sg_store sg')) < 2 ^ 64"
  shows "seg_keeps rs sg' \<and> sg_base sg' = sg_base sg \<and> off = sg_next sg \<and> add_w (sg_next sg) 1 = Done (sg_next sg')"
proof -
  obtain st rel ix nxt n where st: "store_append env r (sg_store sg) = Done (st, Inr n)"
    and rel: "sub_w (sg_next sg) (sg_base sg) = Done rel"
    and ix: "index_write env (ucast rel) (store_len (sg_store sg)) (sg_index sg) = Done (ix, Inr ())"
    and nxt: "add_w (sg_next sg) 1 = Done nxt" and sg': "sg' = sg\<lparr>sg_store := st, sg_index := ix, sg_next := nxt\<rparr>"
    and off: "off = sg_next sg"
    using app by (auto simp: segment_append_def Let_def and_then_eq_Done obind_eq_Done omap_eq_Done
        on_store_def on_index_def)
  obtain ps where ps: "index_holds ps (sg_index sg)"
    "list_all2 (\<lambda>p r. record_at (content (sg_store sg)) (unat p) r) ps rs"
    and next_off: "unat (sg_next sg) = unat (sg_base sg) + length rs"
    using holds by (auto simp: seg_holds_def)
  have n: "length ps = length rs" using ps(2) by (rule list_all2_lengthD)
  have "ucast rel = (word_of_nat (length ps) :: u32)"
    using seg_rel [OF holds order_refl next_off] rel n by simp
  with ix have "index_holds (ps @ [store_len (sg_store sg)]) ix" "index_live ix"
    using index_write_Ok [OF _ ps(1) live] by auto
  moreover have "list_all2 (\<lambda>p r. record_at (content st) (unat p) r) ps rs"
    using records_kept [OF ps(2) store_append_extends [OF st]] .
  moreover have "unat nxt = unat (sg_next sg) + 1" using nxt by (simp add: add_w_eq_Done)
  ultimately show ?thesis
    using sg' off nxt next_off len by (auto simp: seg_keeps_def)
qed

section \<open>Reading behind a failed append\<close>

lemma find_segment_append:
  "find_segment (xs @ ys) off =
     (if find_segment xs off < length xs then find_segment xs off else length xs + find_segment ys off)"
  by (induction xs) auto

lemma find_segment_before:
  assumes "seg_chain start ss r1" and "i < length r1" and "unat off = unat start + i"
  shows "find_segment ss off < length ss"
  using find_segment_chain [OF assms] by auto

lemma log_read_keeps:
  assumes calm: "calm env" and segs: "lg_segments lg = ss @ [t]" and ch: "seg_chain start ss r1"
    and live: "\<forall>sg \<in> set ss. index_live (sg_index sg)" and base: "chain_end start ss = sg_base t"
    and keeps: "seg_keeps r2 t" and i: "i < length (r1 @ r2)" and off: "unat off = unat start + i"
  shows "\<exists>l. log_read env off lg = Done (l, Inr ((r1 @ r2) ! i))"
proof (cases "i < length r1")
  case True
  have "find_segment (ss @ [t]) off = find_segment ss off" "find_segment ss off < length ss"
    using find_segment_before [OF ch True off] by (simp_all add: find_segment_append)
  moreover obtain l where "log_read env off (lg\<lparr>lg_segments := ss\<rparr>) = Done (l, Inr (r1 ! i))"
    using log_read_chain [OF calm, of start "lg\<lparr>lg_segments := ss\<rparr>" r1 i off] ch live True off by auto
  ultimately show ?thesis
    using True segs by (auto simp: log_read_def Let_def nth_append obind_eq_Done)
next
  case False
  have len: "unat (sg_base t) = unat start + length r1" using seg_chain_length [OF ch] base by simp
  have "find_segment ss off = length ss" using find_segment_none [OF ch] False off by simp
  moreover have "unat off = unat (sg_base t) + (i - length r1)" "i - length r1 < length r2"
    using False i off len by auto
  note segment_read_keeps [OF calm keeps this(2,1)]
  ultimately show ?thesis
    using segs False by (auto simp: log_read_def Let_def find_segment_append nth_append)
qed

section \<open>Property\<close>

lemma io_case_eq_Err:
  "(case x of Inl e \<Rightarrow> Done (s, Inl e) | Inr y \<Rightarrow> Done (f y, Inr z)) = Done (s', Inl e) \<longleftrightarrow> x = Inl e \<and> s' = s"
  by (cases x) auto

lemma log_append_Err:
  assumes "log_append env r lg = Done (lg', Inl e)"
  obtains (segment) t where "segment_append env r (active_segment lg) = Done (t, Inl e)"
      "lg' = lg\<lparr>lg_segments := (lg_segments lg)[lg_active lg := t]\<rparr>"
  | (rotation) t off base where "segment_append env r (active_segment lg) = Done (t, Inr off)" "is_maxed t"
      "add_w off 1 = Done base" "new_segment env (lg_cfg lg) base (lg_files lg) = Done (Inl e)"
      "lg' = lg\<lparr>lg_segments := (lg_segments lg)[lg_active lg := t]\<rparr>"
  using assms
  by (auto simp: log_append_def active_segment_def Let_def obind_eq_Done and_then_eq_Done io_case_eq_Err
      split: if_splits)

text \<open>
  C29. An append that fails on a log that holds its records, whatever system calls failed or came
  up short, loses none of them: while the store stays below \<^verbatim>\<open>2^64\<close> bytes, every record the log
  held reads back once the calls succeed again. The next offset stays where it was,
  with one exception: when the segment has taken the record, is full with it, and opening the
  next segment fails. The caller then gets that error although the record is in the log, and the
  next offset has moved by one.\<close>

theorem failed_append_keeps_records:
  assumes "log_append env r lg = Done (lg', Inl e)" and "log_holds b rs lg"
    and "length (content (sg_store (active_segment lg'))) < 2 ^ 64" and "calm env'"
  shows "(\<forall>i < length rs. \<exists>l. log_read env' (offset_at b i) lg' = Done (l, Inr (rs ! i))) \<and>
    (log_next_offset lg' = log_next_offset lg \<or>
     is_maxed (active_segment lg') \<and> log_next_offset lg' = Done (offset_at b (length rs + 1)) \<and>
     new_segment env (lg_cfg lg) (offset_at b (length rs + 1)) (lg_files lg) = Done (Inl e))"
proof -
  obtain ss sg r1 r2 where segs: "lg_segments lg = ss @ [sg]" "lg_active lg = length ss" "active_segment lg = sg"
    and rs: "rs = r1 @ r2" and ch: "seg_chain b ss r1" "chain_end b ss = sg_base sg" and holds: "seg_holds r2 sg"
    using assms(2) by (rule log_holdsE)
  have live: "\<forall>sg \<in> set ss. index_live (sg_index sg)" "index_live (sg_index sg)"
    using assms(2) segs(1) by (auto simp: log_holds_def list_all_iff seg_state_def seg_ready_def)
  have bound: "unat b + length rs < 2 ^ 64" using log_holds_bound [OF assms(2)] .
  have nxt: "log_next_offset lg = Done (sg_next sg)" "unat (sg_next sg) = unat b + length rs"
    using log_next_holds [OF assms(2)] segs(3) by simp_all
  have reads: "\<forall>i < length rs. \<exists>l. log_read env' (offset_at b i) lg' = Done (l, Inr (rs ! i))"
    if "lg_segments lg' = ss @ [t]" "sg_base t = sg_base sg" "seg_keeps r2 t" for t
    using log_read_keeps [OF assms(4) that(1) ch(1) live(1) _ that(3)] that(2) ch(2) bound
    by (auto simp: rs unat_offset_at)
  show ?thesis
    using assms(1)
  proof (cases rule: log_append_Err)
    case (segment t)
    have lg': "lg_segments lg' = ss @ [t]" "lg_active lg' = length ss" "active_segment lg' = t"
      using segment(2) segs by (simp_all add: active_segment_def)
    have t: "seg_holds r2 t" "sg_base t = sg_base sg" "sg_next t = sg_next sg" "sg_index t = sg_index sg"
      using segment_append_fails [OF _ holds] segment(1) segs(3) assms(3) lg'(3) by auto
    have "log_next_offset lg' = log_next_offset lg"
      using lg' t(3) nxt(1) by (simp add: log_next_offset_def)
    with reads [OF lg'(1) t(2)] seg_holds_keeps [OF t(1)] t(4) live(2) show ?thesis by simp
  next
    case (rotation t off base)
    have lg': "lg_segments lg' = ss @ [t]" "lg_active lg' = length ss" "active_segment lg' = t"
      using rotation(5) segs by (simp_all add: active_segment_def)
    have t: "seg_keeps r2 t" "sg_base t = sg_base sg" "off = sg_next sg" "add_w (sg_next sg) 1 = Done (sg_next t)"
      using segment_append_Ok [OF _ holds live(2)] rotation(1) segs(3) assms(3) lg'(3) by auto
    have "base = sg_next t" using rotation(3) t(3,4) by simp
    moreover have "sg_next t = offset_at b (length rs + 1)"
    proof -
      have "unat (sg_next t) = unat b + (length rs + 1)" using t(4) nxt(2) by (simp add: add_w_eq_Done)
      moreover from this have "unat b + (length rs + 1) < 2 ^ 64"
        using unsigned_less [of "sg_next t", where 'a = nat] by simp
      ultimately show ?thesis by (simp add: word_unat_eq_iff unat_offset_at)
    qed
    ultimately show ?thesis
      using reads [OF lg'(1) t(2,1)] rotation(2,4) lg' by (simp add: log_next_offset_def)
  qed
qed

text \<open>A file system that opens no file any more, and a segment that the second record fills.\<close>

definition no_open_env :: log_env where
  "no_open_env = calm_env\<lparr>env_fault := (\<lambda>c. case c of OpenFile n \<Rightarrow> Some (IoError OtherKind ''too many open files'', 0)
    | _ \<Rightarrow> None)\<rparr>"

lemma no_open_store: "store_append no_open_env = store_append calm_env"
  by (intro ext) (simp add: store_append_def bw_write_all_def bw_write_def bw_make_room_def bw_flush_def
      check_sys_def sys_def no_open_env_def calm_env_def cong: if_cong)

lemma no_open_append: "segment_append no_open_env r sg = segment_append calm_env r sg"
proof -
  have "page_end no_open_env = page_end calm_env"
    by (intro ext) (simp add: page_end_def no_open_env_def calm_env_def)
  then have "index_write no_open_env = index_write calm_env"
    by (intro ext) (simp add: index_write_def cong: if_cong)
  then show ?thesis by (simp add: segment_append_def no_open_store)
qed

lemma no_open_segment: "new_segment no_open_env cfg b d = Done (Inl (IoError OtherKind ''too many open files''))"
  by (simp add: new_segment_def segment_new_def open_file_def sys_def no_open_env_def)

theorem failed_append_keeps_records_witness:
  "\<exists>lg lg' l e. log_append no_open_env [8] lg = Done (lg', Inl e) \<and> log_read calm_env 1 lg' = Done (l, Inr [7]) \<and>
     log_next_offset lg = Done 2 \<and> log_next_offset lg' = Done 3"
proof -
  have cfg: "seg_config_of (small_cfg False) = slot_cfg 24"
    by (simp add: seg_config_of_def small_cfg_def slot_cfg_def)
  obtain sg where sg: "seg_holds [[7]] sg" "seg_ready sg" "sg_base sg = 1" "sg_cfg sg = slot_cfg 24"
    "unat (so_size (sg_store sg)) = 9"
    using one_slot_segment [of "slot_cfg 24"] by (auto simp: slot_cfg_def slot_limit_def)
  let ?lg = "\<lambda>sg. \<lparr>lg_active = 0, lg_dir = ''data'', lg_cfg = small_cfg False, lg_segments = [sg], lg_files = []\<rparr>"
  have size: "unat (ix_size (sg_index sg)) = 12" and nxt: "unat (sg_next sg) = 2"
    using seg_holds_size [OF sg(1)] sg(1,3) by (simp_all add: seg_holds_def)
  then have next2: "sg_next sg = 2" by (simp add: word_unat_eq_iff)
  have "log_holds 1 [[7]] (?lg sg)"
    using sg size cfg by (simp add: log_holds_def small_cfg_ok seg_state_def is_maxed_def index_len_def store_len_def
        tidy_def slot_cfg_def word_le_nat_alt) (simp add: small_cfg_def)
  moreover have "seg_room [8] sg"
    using sg(4,5) size next2 by (simp add: seg_room_def slot_cfg_def word_less_nat_alt unat_max_word)
  from segment_append_calm [OF calm_calm_env sg(1,2) this] obtain sg2 where
    sg2: "segment_append calm_env [8] sg = Done (sg2, Inr 2)" "seg_holds [[7], [8]] sg2" "sg_base sg2 = 1"
      "sg_cfg sg2 = slot_cfg 24"
    using next2 sg(3,4) by auto
  have "is_maxed sg2" using seg_holds_size [OF sg2(2)] sg2(4)
    by (simp add: is_maxed_def index_len_def slot_cfg_def word_le_nat_alt)
  moreover have "add_w 2 1 = Done (3 :: u64)" by (simp add: add_w_eq_Done)
  ultimately have app: "log_append no_open_env [8] (?lg sg) =
      Done (?lg sg2, Inl (IoError OtherKind ''too many open files''))"
    using sg2(1) by (simp add: log_append_def no_open_append no_open_segment)
  have "length (content (sg_store (active_segment (?lg sg2)))) < 2 ^ 64"
    using sg2(2) by (simp add: active_segment_def seg_holds_def)
  from failed_append_keeps_records [OF app \<open>log_holds 1 [[7]] (?lg sg)\<close> this calm_calm_env]
  obtain l where "log_read calm_env 1 (?lg sg2) = Done (l, Inr [7])" by (auto simp: offset_at_def)
  moreover have "unat (sg_next sg2) = 3" using sg2(2,3) by (simp add: seg_holds_def)
  then have "log_next_offset (?lg sg2) = Done 3" by (simp add: log_next_offset_def word_unat_eq_iff)
  moreover have "log_next_offset (?lg sg) = Done 2" using next2 by (simp add: log_next_offset_def)
  ultimately show ?thesis using app by blast
qed

end
