(* ===== verification/Recovery_Theorems.thy ===== *)
theory Recovery_Theorems
  imports Log_Theorems
begin

text \<open>
  What opening finds on a disk in any state: the recovery of an index from arbitrary bytes, and
  the segments of a log opened on an arbitrary directory.
\<close>

section \<open>The index\<close>

text \<open>The number in the place of a slot, and the places whose numbers count up from zero.\<close>

definition slot_number :: "byte list \<Rightarrow> nat \<Rightarrow> u32" where
  "slot_number mmap i = u32_from_be (take off_width (drop (i * entire_width) mmap))"

definition counted_from :: "byte list \<Rightarrow> nat \<Rightarrow> nat" where
  "counted_from mmap k =
     length (takeWhile (\<lambda>i. slot_number mmap i = word_of_nat i) [k..<length mmap div entire_width])"

lemma counted_from_rec:
  "counted_from mmap k = (if k * 12 + 12 \<le> length mmap \<and> slot_number mmap k = word_of_nat k
     then Suc (counted_from mmap (Suc k)) else 0)"
proof -
  have "k < length mmap div 12 \<longleftrightarrow> k * 12 + 12 \<le> length mmap" by linarith
  then show ?thesis
    by (auto simp: counted_from_def width_defs upt_conv_Cons)
qed

lemma recover_loop_counts:
  assumes "k < 2 ^ 32"
  shows "recover_loop mmap (k * 12) (word_of_nat k) =
    (if k + counted_from mmap k < 2 ^ 32 then Done ((k + counted_from mmap k) * 12) else Panic Overflow)"
  using assms
proof (induction "length mmap - k * 12" arbitrary: k rule: less_induct)
  case less
  let ?next = "k * 12 + 12 \<le> length mmap \<and> slot_number mmap k = word_of_nat k"
  have step: "recover_loop mmap (k * 12) (word_of_nat k) = (if ?next then
      (case add_w (word_of_nat k) (1 :: u32) of Panic p \<Rightarrow> Panic p
       | Done e \<Rightarrow> recover_loop mmap (Suc k * 12) e) else Done (k * 12))"
    by (subst recover_loop.simps) (auto simp: width_defs slot_number_def add.commute Let_def split: outcome.split)
  show ?case
  proof (cases ?next)
    case False
    have loop: "recover_loop mmap (k * 12) (word_of_nat k) = Done (k * 12)"
      unfolding step by (rule if_not_P [OF False])
    have "counted_from mmap k = 0" by (subst counted_from_rec) (rule if_not_P [OF False])
    then show ?thesis unfolding loop using less.prems by simp
  next
    case True
    then have rec: "counted_from mmap k = Suc (counted_from mmap (Suc k))" by (subst counted_from_rec) simp
    have k: "unat (word_of_nat k :: u32) = k" using less.prems by (simp add: unat_of_nat)
    show ?thesis
    proof (cases "Suc k < 2 ^ 32")
      case True
      then have "add_w (word_of_nat k :: u32) 1 = Done (word_of_nat (Suc k))"
        using k by (simp add: add_w_eq_Done unat_of_nat del: of_nat_Suc)
      moreover have "length mmap - Suc k * 12 < length mmap - k * 12" using \<open>?next\<close> by auto
      ultimately show ?thesis using step less.hyps [OF _ True] \<open>?next\<close> rec by (simp del: of_nat_Suc)
    next
      case False
      then have "add_w (word_of_nat k :: u32) 1 = Panic Overflow"
        using k less.prems by (simp add: add_w_def checked_add_def)
      then show ?thesis using step \<open>?next\<close> rec False by simp
    qed
  qed
qed

text \<open>
  C12. The recovery of an index's size is the longest run of slots numbered from zero. Whatever
  bytes the mapping holds, the loop ends and gives the length in bytes of the slots whose
  numbers are their own places, up to the first that is not; it panics exactly when that run
  has used up the numbers of 32 bits.\<close>

theorem recovery_finds_leading_slots:
  "recover_size mmap =
     (if counted_from mmap 0 < 2 ^ 32 then Done (word_of_nat (counted_from mmap 0 * entire_width))
      else Panic Overflow)"
  using recover_loop_counts [of 0 mmap] by (simp add: recover_size_def width_defs)

section \<open>The directory\<close>

lemma io_case_eq_Ok:
  "(case x of Inl e \<Rightarrow> Done (Inl e) | Inr y \<Rightarrow> f y) = Done (Inr z) \<longleftrightarrow> (\<exists>y. x = Inr y \<and> f y = Done (Inr z))"
  by (cases x) simp_all

lemma new_segment_fields:
  assumes "new_segment env cfg b d = Done (Inr sg)"
  shows "sg_base sg = b \<and> sg_cfg sg = seg_config_of cfg \<and> so_buf (sg_store sg) = [] \<and>
    open_file env (store_name b) d = Inr (so_file (sg_store sg))"
  using assms
  by (auto simp: new_segment_def segment_new_def store_new_def obind_eq_Done split: sum.splits)

lemma open_segments_fields:
  assumes "open_segments env cfg d bs acc = Done (Inr sgs)"
  shows "\<exists>ts. sgs = acc @ ts \<and> list_all2 (\<lambda>b sg. new_segment env cfg b d = Done (Inr sg)) bs ts"
  using assms
proof (induction env cfg d bs acc rule: open_segments.induct)
  case (1 env cfg d sgs)
  then show ?case by simp
next
  case (2 env cfg d off offs acc)
  then obtain sg where sg: "new_segment env cfg off d = Done (Inr sg)"
    "open_segments env cfg d offs (acc @ [sg]) = Done (Inr sgs)"
    by (auto simp: obind_eq_Done io_case_eq_Ok)
  from 2(1) [OF sg(2)] obtain ts where "sgs = (acc @ [sg]) @ ts"
    "list_all2 (\<lambda>b sg. new_segment env cfg b d = Done (Inr sg)) offs ts" by blast
  with sg(1) show ?case by (intro exI [of _ "sg # ts"]) simp
qed

definition opened_offsets :: "log_config \<Rightarrow> directory \<Rightarrow> u64 list" where
  "opened_offsets cfg d =
     (if named_offsets d = {} then [initial_offset cfg] else sorted_list_of_set (named_offsets d))"

lemma finite_named_offsets: "finite (named_offsets d)"
  using List.finite_set [of "scan_dir d []"] by (simp add: scan_dir_set)

text \<open>
  C17. Opening a log on any directory, in any environment: if it succeeds, the log has one
  segment for every offset that some file name of the directory carries, in increasing order
  and whatever order the directory is listed in (one at the configured offset when there is
  none), the last is the active one, and every segment's store holds the bytes of its file.\<close>

theorem open_log_segments:
  assumes "log_new env cfg dir (Some d) = Done (Inr lg)"
  shows "map sg_base (lg_segments lg) = opened_offsets cfg d \<and>
    sorted_wrt (<) (map sg_base (lg_segments lg)) \<and> Suc (lg_active lg) = length (lg_segments lg) \<and>
    (\<forall>sg \<in> set (lg_segments lg). sg_cfg sg = seg_config_of cfg \<and>
      open_file env (store_name (sg_base sg)) d = Inr (content (sg_store sg)))"
proof -
  have opened: "list_all2 (\<lambda>b sg. new_segment env cfg b d = Done (Inr sg)) (opened_offsets cfg d) (lg_segments lg) \<and>
      Suc (lg_active lg) = length (lg_segments lg)"
    using assms finite_named_offsets [of d]
    by (auto simp: log_new_def scan_dir_sorted opened_offsets_def obind_eq_Done Let_def
        io_case_eq_Ok dest!: open_segments_fields split: if_splits)
  then have "map sg_base (lg_segments lg) = opened_offsets cfg d"
    by (auto simp: list_all2_conv_all_nth list_eq_iff_nth_eq dest: new_segment_fields)
  moreover have "sorted_wrt (<) (opened_offsets cfg d)" by (simp add: opened_offsets_def)
  moreover have "sg_cfg sg = seg_config_of cfg \<and> open_file env (store_name (sg_base sg)) d = Inr (content (sg_store sg))"
    if sg: "sg \<in> set (lg_segments lg)" for sg
  proof -
    obtain b where "new_segment env cfg b d = Done (Inr sg)"
      using sg opened by (auto simp: in_set_conv_nth list_all2_conv_all_nth)
    then show ?thesis using new_segment_fields [of env cfg b d sg] by (simp add: content_def)
  qed
  ultimately show ?thesis using opened by simp
qed

text \<open>A directory listed out of order, with a file that names no offset.\<close>

definition untidy_dir :: directory where
  "untidy_dir = [(store_name 16, FileEntry []), (''notes'', FileEntry [1]), (store_name 2, FileEntry []),
     (index_name 16, FileEntry [])]"

lemma named_offsets_file:
  "named_offsets ((n, FileEntry f) # d) = set_option (name_offset n) \<union> named_offsets d" "named_offsets [] = {}"
  by (auto simp: named_offsets_def)

lemma untidy_offsets: "named_offsets untidy_dir = {2, 16}"
proof -
  have "name_offset ''notes'' = None" by (simp add: name_offset_def strip_suffix_def suffix_to_prefix)
  then show ?thesis by (simp add: untidy_dir_def named_offsets_file insert_commute)
qed

lemma untidy_sorted: "sorted_list_of_set (named_offsets untidy_dir) = [2, 16]"
proof -
  have "(2 :: u64) < 16" by (simp add: word_less_nat_alt)
  then have "sorted_list_of_set (set [2, 16 :: u64]) = [2, 16]"
    by (intro sorted_list_of_set.idem_if_sorted_distinct) auto
  then show ?thesis by (simp add: untidy_offsets)
qed

text \<open>Empty files are opened as missing ones are.\<close>

lemma untidy_segment:
  assumes "b = 2 \<or> b = 16"
  shows "new_segment env cfg b untidy_dir = new_segment env cfg b []"
proof -
  have "store_name b \<noteq> ''notes''" "index_name b \<noteq> ''notes''"
    by (auto simp: store_name_def index_name_def append_eq_Cons_conv)
  then have "open_file env (store_name b) untidy_dir = open_file env (store_name b) []"
    "open_file env (index_name b) untidy_dir = open_file env (index_name b) []"
    using assms by (auto simp: open_file_def untidy_dir_def split: sum.split)
  then show ?thesis by (simp only: new_segment_def segment_new_def)
qed

theorem open_log_segments_witness:
  "\<exists>lg. log_new calm_env (small_cfg False) ''data'' (Some untidy_dir) = Done (Inr lg) \<and>
     map sg_base (lg_segments lg) = [2, 16] \<and> lg_active lg = 1"
proof -
  have "\<exists>sg. new_segment calm_env (small_cfg False) b untidy_dir = Done (Inr sg)" if "b = 2 \<or> b = 16" for b
    using untidy_segment [OF that] new_segment_fresh [OF calm_calm_env small_cfg_ok tidy_Nil, of b "{}" False] by auto
  then obtain s1 s2 where "new_segment calm_env (small_cfg False) 2 untidy_dir = Done (Inr s1)"
    "new_segment calm_env (small_cfg False) 16 untidy_dir = Done (Inr s2)" by blast
  then obtain lg where lg: "log_new calm_env (small_cfg False) ''data'' (Some untidy_dir) = Done (Inr lg)"
    by (simp add: log_new_def calm_simps [OF calm_calm_env] scan_dir_sorted untidy_sorted)
  from open_log_segments [OF this] have bases: "map sg_base (lg_segments lg) = [2, 16]"
    and "Suc (lg_active lg) = length (lg_segments lg)"
    by (simp_all add: opened_offsets_def untidy_sorted untidy_offsets)
  moreover from bases have "length (lg_segments lg) = 2" by (auto dest: arg_cong [where f = length])
  ultimately show ?thesis using lg by simp
qed

end
