(* ===== verification/Storage_Theorems.thy ===== *)
theory Storage_Theorems
  imports Raft_Storage
begin

text \<open>
  The reader of the hard state on a file in any state: what it accepts, what it returns and when
  it panics, without assuming who wrote the file.
\<close>

section \<open>The files a state can be read from\<close>

text \<open>
  A file describes a state when it is empty and the state is the first one, or when it starts
  with the term, the length of the vote and as many bytes of valid text; what follows is not
  looked at.
\<close>

definition describes :: "filedata \<Rightarrow> state \<Rightarrow> bool" where
  "describes f h \<longleftrightarrow>
     f = [] \<and> h = \<lparr>hs_current_term = 0, hs_voted_for = None\<rparr> \<or>
     (\<exists>v tail. f = u64_to_be (hs_current_term h) @ u64_to_be (word_of_nat (length v)) @ v @ tail \<and>
        length v < 2 ^ 64 \<and> utf8_valid v \<and>
        hs_voted_for h = (if v = [] then None else Some (NodeId (string_of_bytes v))))"

lemma read_exact_eq_Some:
  "read_exact_at p n f = Some bs \<longleftrightarrow> length bs = n \<and> (n = 0 \<or> (\<exists>pre post. f = pre @ bs @ post \<and> length pre = p))"
proof (cases "n = 0")
  case False
  show ?thesis
  proof
    assume "read_exact_at p n f = Some bs"
    with False have "p + n \<le> length f" "bs = take n (drop p f)"
      by (auto simp: read_exact_at_def split: if_splits)
    then have "f = take p f @ bs @ drop (p + n) f" "length (take p f) = p" "length bs = n"
      by (simp_all add: add.commute flip: drop_drop)
    then show "length bs = n \<and> (n = 0 \<or> (\<exists>pre post. f = pre @ bs @ post \<and> length pre = p))" by blast
  qed (auto simp: read_exact_at_def)
qed (auto simp: read_exact_at_def)

text \<open>The two numbers in front, as one case.\<close>

lemma read_numbers:
  "read_exact_at 0 8 f = Some a \<and> read_exact_at 8 8 f = Some b \<longleftrightarrow>
   (\<exists>rest. f = a @ b @ rest \<and> length a = 8 \<and> length b = 8)"
  by (auto simp: read_exact_eq_Some append_eq_append_conv2)

lemma prefix_split: "(\<exists>v tail. length v = n \<and> rest = v @ tail \<and> P v) \<longleftrightarrow> n \<le> length rest \<and> P (take n rest)"
proof
  assume "n \<le> length rest \<and> P (take n rest)"
  then show "\<exists>v tail. length v = n \<and> rest = v @ tail \<and> P v"
    by (intro exI [of _ "take n rest"] exI [of _ "drop n rest"]) simp
qed auto

lemma describes_numbers:
  assumes "length a = 8" and "length b = 8" and "n = unat (u64_from_be b)"
  shows "describes (a @ b @ rest) h \<longleftrightarrow> n \<le> length rest \<and> utf8_valid (take n rest) \<and>
    h = \<lparr>hs_current_term = u64_from_be a,
         hs_voted_for = (if n = 0 then None else Some (NodeId (string_of_bytes (take n rest))))\<rparr>"
proof -
  have ne: "a @ b @ rest \<noteq> []" using assms(1) by auto
  have split: "a @ b @ rest = u64_to_be t @ u64_to_be l @ w \<longleftrightarrow> u64_from_be a = t \<and> u64_from_be b = l \<and> rest = w"
    for t l w using assms(1,2) be64.enc_dec be64.dec_enc by (auto simp: be64.length_enc)
  have len: "u64_from_be b = word_of_nat (length v) \<and> length v < 2 ^ 64 \<longleftrightarrow> length v = n" for v :: "byte list"
    using assms(3) unsigned_less [of "u64_from_be b", where 'a = nat] by (auto simp: unat_of_nat word_unat_eq_iff)
  let ?P = "\<lambda>v. u64_from_be a = hs_current_term h \<and> utf8_valid v \<and>
    hs_voted_for h = (if v = [] then None else Some (NodeId (string_of_bytes v)))"
  have "describes (a @ b @ rest) h \<longleftrightarrow> (\<exists>v tail. length v = n \<and> rest = v @ tail \<and> ?P v)"
    unfolding describes_def split using ne len by blast
  also have "\<dots> \<longleftrightarrow> n \<le> length rest \<and> ?P (take n rest)" by (rule prefix_split)
  also have "\<dots> \<longleftrightarrow> n \<le> length rest \<and> utf8_valid (take n rest) \<and> u64_from_be a = hs_current_term h \<and>
      hs_voted_for h = (if n = 0 then None else Some (NodeId (string_of_bytes (take n rest))))"
    by (cases "n = 0") auto
  finally show ?thesis by (cases h) auto
qed

lemma describes_short: "describes f h \<Longrightarrow> f \<noteq> [] \<Longrightarrow> 16 \<le> length f"
  by (auto simp: describes_def be64.length_enc)

lemma load_short:
  assumes "f \<noteq> []" and "length f < 16"
  shows "load_state \<lparr>st_dir = d, st_file = f\<rparr> \<noteq> Done h"
  using assms by (auto simp: load_state_def read_exact_at_def split: option.split)

lemma load_numbers:
  assumes "length a = 8" and "length b = 8" and "n = unat (u64_from_be b)"
  shows "load_state \<lparr>st_dir = d, st_file = a @ b @ rest\<rparr> = Done h \<longleftrightarrow> n \<le> length rest \<and>
    utf8_valid (take n rest) \<and> h = \<lparr>hs_current_term = u64_from_be a,
         hs_voted_for = (if n = 0 then None else Some (NodeId (string_of_bytes (take n rest))))\<rparr>"
proof -
  have nums: "read_exact_at 0 8 (a @ b @ rest) = Some a" "read_exact_at 8 8 (a @ b @ rest) = Some b"
    "read_exact_at 16 n (a @ b @ rest) = (if n \<le> length rest then Some (take n rest) else None)"
    using assms(1,2) by (auto simp: read_exact_at_def)
  have ne: "length (a @ b @ rest) \<noteq> 0" using assms(1) by auto
  have zero: "u64_from_be b = 0 \<longleftrightarrow> n = 0" using assms(3) by (simp add: unat_eq_zero)
  show ?thesis
    unfolding load_state_def storage.simps nums option.case Let_def zero if_not_P [OF ne] assms(3) [symmetric]
    by (auto simp: Let_def)
qed

section \<open>Property\<close>

text \<open>
  C10. Loading accepts exactly the files that describe a state, and returns that state. It never
  fails otherwise than by a panic, so it panics on every other file: one that ends inside a
  number or the vote, and one whose vote is no valid UTF-8.\<close>

theorem load_state_accepts: "load_state st = Done h \<longleftrightarrow> describes (st_file st) h"
proof -
  obtain d f where st: "st = \<lparr>st_dir = d, st_file = f\<rparr>" by (cases st)
  consider "f = []" | "f \<noteq> []" "length f < 16" | a b rest where "f = a @ b @ rest" "length a = 8" "length b = 8"
  proof (cases "16 \<le> length f")
    case True
    have "f = take 8 f @ take 8 (drop 8 f) @ drop 16 f" by (metis append_take_drop_id drop_drop numeral_Bit0)
    moreover have "length (take 8 f) = 8" "length (take 8 (drop 8 f)) = 8" using True by simp_all
    ultimately show ?thesis by (rule that(3))
  qed (use that in force)
  then show ?thesis
  proof cases
    case 1
    then show ?thesis by (auto simp: st load_state_def describes_def dest: arg_cong [where f = length] simp: be64.length_enc)
  next
    case 2
    then show ?thesis using load_short [of f d h] describes_short [of f h] by (auto simp: st)
  next
    case 3
    then show ?thesis using load_numbers [of a b] describes_numbers [of a b] by (simp add: st)
  qed
qed

end
