(* ===== verification/Runtime_Panics.thy ===== *)
theory Runtime_Panics
  imports Runtime_Invariants Runtime_Theorems
begin

text \<open>
  Which panics a client can cause: the executor has a \<^verbatim>\<open>todo!()\<close> in five of its branches, two
  \<^verbatim>\<open>panic!\<close>s and three \<^verbatim>\<open>expect\<close>s about the table of operations. None of them is reached by
  writes; what remains are the panics of the log's arithmetic and indexing.
\<close>

section \<open>Panics of the combinators\<close>

lemma obind_eq_Panic: "obind m f = Panic p \<longleftrightarrow> m = Panic p \<or> (\<exists>x. m = Done x \<and> f x = Panic p)"
  by (cases m) simp_all

lemma and_then_eq_Panic:
  "and_then m f = Panic p \<longleftrightarrow> m = Panic p \<or> (\<exists>s x. m = Done (s, Inr x) \<and> f s x = Panic p)"
  by (cases m) (auto simp: and_then_def split: sum.splits)

lemma map_err_eq_Panic [simp]: "map_err f m = Panic p \<longleftrightarrow> m = Panic p"
  by (simp add: map_err_def)

lemma add_w_Panic: "add_w a b = Panic p \<Longrightarrow> p = Overflow"
  by (auto simp: add_w_def split: option.splits)

lemma sub_w_Panic: "sub_w a b = Panic p \<Longrightarrow> p = Overflow"
  by (auto simp: sub_w_def split: option.splits)

lemma check_sys_no_Panic [simp]: "check_sys env c s \<noteq> Panic p"
  by (simp add: check_sys_def)

lemma io_case_eq_Panic: "(case x of Inl e \<Rightarrow> Done (g e) | Inr y \<Rightarrow> f y) = Panic p \<longleftrightarrow> (\<exists>y. x = Inr y \<and> f y = Panic p)"
  by (cases x) simp_all

lemmas panic_simps = obind_eq_Panic and_then_eq_Panic io_case_eq_Panic Let_def case_prod_unfold

section \<open>The log\<close>

text \<open>
  Overflow checks, list indices, a mapping without pages, the \<^verbatim>\<open>unwrap\<close> of a failed mapping and a
  length prefix that no vector can hold.
\<close>

definition log_panics :: "panic set" where
  "log_panics = {Overflow, IndexOutOfBounds, BusError, ExplicitPanic ''capacity overflow'',
     ExpectFailed ''called `Result::unwrap()` on an `Err` value''}"

lemma log_panicsI [simp]:
  "Overflow \<in> log_panics" "IndexOutOfBounds \<in> log_panics" "BusError \<in> log_panics"
  "ExplicitPanic ''capacity overflow'' \<in> log_panics"
  "ExpectFailed ''called `Result::unwrap()` on an `Err` value'' \<in> log_panics"
  by (simp_all add: log_panics_def)

lemma writer_no_Panic [simp]:
  "bw_flush env st \<noteq> Panic p" "bw_make_room env n st \<noteq> Panic p"
  "bw_write_all env bs st \<noteq> Panic p" "bw_write env bs st \<noteq> Panic p"
proof -
  show flush: "bw_flush env st \<noteq> Panic p" for st
    by (auto simp: bw_flush_def split: option.splits)
  then show room: "bw_make_room env n st \<noteq> Panic p" for n by (simp add: bw_make_room_def)
  show "bw_write_all env bs st \<noteq> Panic p" "bw_write env bs st \<noteq> Panic p"
    using room by (auto simp: bw_write_all_def bw_write_def panic_simps split: if_splits option.splits)
qed

lemma store_Panic:
  "store_append env r st = Panic p \<Longrightarrow> p \<in> log_panics" "store_read env pos st = Panic p \<Longrightarrow> p \<in> log_panics"
  by (auto simp: store_append_def store_read_def panic_simps split: if_splits option.splits dest!: add_w_Panic)

lemma recover_loop_Panic: "recover_loop mmap n e = Panic p \<Longrightarrow> p = Overflow"
proof (induction mmap n e rule: recover_loop.induct)
  case (1 mmap n e)
  show ?case
    using "1.prems" "1.IH"
    by (subst (asm) recover_loop.simps) (auto simp: Let_def split: if_splits outcome.splits dest: add_w_Panic)
qed

lemma index_Panic:
  "index_new env f m = Panic p \<Longrightarrow> p \<in> log_panics" "index_write env off pos ix = Panic p \<Longrightarrow> p \<in> log_panics"
  "index_read env off ix = Panic p \<Longrightarrow> p \<in> log_panics"
  by (auto simp: index_new_def index_write_def index_read_def recover_size_def panic_simps
      split: if_splits sum.splits dest!: add_w_Panic recover_loop_Panic)

lemma segment_Panic:
  "segment_new env cfg b d = Panic p \<Longrightarrow> p \<in> log_panics" "segment_append env r sg = Panic p \<Longrightarrow> p \<in> log_panics"
  "segment_read env off sg = Panic p \<Longrightarrow> p \<in> log_panics"
  by (auto simp: segment_new_def segment_append_def segment_read_def on_store_def on_index_def panic_simps
      split: if_splits dest!: add_w_Panic sub_w_Panic dest: index_Panic store_Panic)

lemma log_Panic:
  "log_append env r lg = Panic p \<Longrightarrow> p \<in> log_panics" "log_read env off lg = Panic p \<Longrightarrow> p \<in> log_panics"
  by (auto simp: log_append_def log_read_def new_segment_def panic_simps
      split: if_splits dest!: add_w_Panic dest: segment_Panic)

section \<open>The executor\<close>

lemma apply_entries_Panic: "apply_entries env is rt = Panic p \<Longrightarrow> p \<in> log_panics"
proof (induction "is" arbitrary: rt)
  case Nil
  then show ?case by simp
next
  case (Cons i "is")
  then show ?case
    by (auto simp: apply_entry_def on_log_def panic_simps dest: log_Panic)
qed

lemma drive_Panic:
  assumes "drive env ev rt = Panic p"
  obtains (core) "handle ev (rt_raft rt) = Panic p"
  | (effect) s eff where "handle ev (rt_raft rt) = Done (s, Inr (Some eff))"
      "execute env eff (rt\<lparr>rt_raft := s\<rparr>) = Panic p"
  | (later) s eff rt' ev' where "handle ev (rt_raft rt) = Done (s, Inr (Some eff))"
      "execute env eff (rt\<lparr>rt_raft := s\<rparr>) = Done (rt', Inr (Some ev'))" "drive env ev' rt' = Panic p"
  using assms
  by (subst (asm) drive.simps) (auto split: outcome.splits prod.splits sum.splits option.splits)

text \<open>The third round answers the write.\<close>

lemma drive_applied_no_Panic:
  assumes "map_of (rt_operations rt) (ae_operation_id en) = Some (OpWrite d ch)"
  shows "drive env (EntriesApplied en) rt \<noteq> Panic p"
proof
  assume "drive env (EntriesApplied en) rt = Panic p"
  then show False
    using assms
    by (cases rule: drive_Panic)
      (auto simp: handle_entries_applied_def get_operation_def panic_simps obind_eq_Done split: if_splits)
qed

text \<open>The second applies the entry, or does nothing.\<close>

lemma drive_appended_Panic:
  assumes panic: "drive env (LocalEntriesAppended en) rt = Panic p" and "raft_wf (rt_raft rt)"
    and op: "map_of (rt_operations rt) (le_operation_id en) = Some (OpWrite None ch)"
  shows "p \<in> log_panics"
  using panic
proof (cases rule: drive_Panic)
  case core
  then show ?thesis
    using assms(2)
    by (auto simp: handle_local_entry_appended_def raft_wf_def panic_simps split: if_splits dest!: add_w_Panic)
next
  case (effect s eff)
  then show ?thesis using appended_result [OF effect(1)]
    by (auto simp: execute_apply_def panic_simps dest: apply_entries_Panic)
next
  case (later s eff rt' ev')
  then show ?thesis
    using appended_result [OF later(1)] op drive_applied_no_Panic [of rt']
    by (auto simp: execute_apply_def and_then_eq_Done Let_def same_table_def dest!: apply_entries_frame)
qed

text \<open>The first appends the command.\<close>

lemma execute_append_Panic:
  assumes "execute env (AppendLocal op t l) rt = Panic p"
    and "map_of (rt_operations rt) op = Some (OpWrite (Some data) ch)"
  shows "p \<in> log_panics"
  using assms
  by (auto simp: execute_append_local_def get_operation_def on_log_def panic_simps obind_eq_Done dest: log_Panic)

lemma message_Panic:
  assumes fresh: "ids_fresh rt" and wf: "raft_wf (rt_raft rt)"
    and panic: "handle_message env (MsgWrite data ch) rt = Panic p"
  shows "p \<in> insert (ExpectFailed ''operation ID space exhausted'') log_panics"
proof (cases "rt_next_operation_id rt = - 1")
  case True
  then show ?thesis
    using panic checked_add_1_None [of "rt_next_operation_id rt"]
    by (auto simp: handle_message_def next_operation_id_def)
next
  case False
  let ?rt = "registered data ch rt"
  have "drive env (Write (next_id rt)) ?rt = Panic p"
    using panic handle_message_drive [OF fresh False, of env data ch] by (auto simp: obind_eq_Panic)
  then have "p \<in> log_panics"
  proof (cases rule: drive_Panic)
    case core
    then show ?thesis by simp
  next
    case (effect s eff)
    then show ?thesis
      by (auto simp: handle_write_def registered_def split: if_splits dest: execute_append_Panic)
  next
    case (later s eff rt' ev')
    have s: "s = rt_raft rt" and eff: "eff = AppendLocal (next_id rt) (current_term (rt_raft rt)) (last_log_index (rt_raft rt))"
      using later(1) by (auto simp: handle_write_def registered_def split: if_splits)
    have "?rt\<lparr>rt_raft := s\<rparr> = ?rt" by (simp add: s registered_def)
    note frame = execute_append_frame [OF fresh, of env "last_log_index (rt_raft rt)" data ch rt' "Inr (Some ev')"]
    then have "write_staged ch rt rt'" "\<exists>i. ev' = appended_event rt i"
      using later(2) s eff \<open>?rt\<lparr>rt_raft := s\<rparr> = ?rt\<close> by auto
    then show ?thesis
      using drive_appended_Panic [of env _ rt' p ch] later(3) wf by (auto simp: write_staged_def)
  qed
  then show ?thesis by simp
qed

text \<open>Only the core changes the Raft state, so what its events keep a message keeps.\<close>

lemma execute_raft: "execute env eff rt = Done (rt', r) \<Longrightarrow> rt_raft rt' = rt_raft rt"
  by (cases eff) (auto simp: execute_apply_def execute_append_local_def get_operation_def persist_hard_state_def
      send_reply_def give_back_def same_table_def obind_eq_Done and_then_eq_Done Let_def case_prod_unfold
      split: if_splits option.splits dest!: map_err_frame on_log_frame apply_entries_frame)

lemma drive_wf: "drive env ev rt = Done (rt', r) \<Longrightarrow> raft_wf (rt_raft rt) \<Longrightarrow> raft_wf (rt_raft rt')"
proof (induction env ev rt rule: drive.induct)
  case (1 env ev rt)
  obtain s q where h: "handle ev (rt_raft rt) = Done (s, q)" using "1.prems"(1) by (rule drive_handled)
  have wf: "raft_wf s" using handle_wf [OF h "1.prems"(2)] .
  show ?case
  proof (cases "\<exists>eff rt1 ev'. q = Inr (Some eff) \<and> execute env eff (rt\<lparr>rt_raft := s\<rparr>) = Done (rt1, Inr (Some ev'))")
    case True
    then obtain eff rt1 ev' where e: "q = Inr (Some eff)" "execute env eff (rt\<lparr>rt_raft := s\<rparr>) = Done (rt1, Inr (Some ev'))"
      by blast
    have "drive env ev' rt1 = Done (rt', r)"
      using "1.prems"(1) drive_step [OF h [unfolded e(1)] e(2)] by simp
    then show ?thesis
      using "1.IH" [OF h refl e(1) refl e(2) refl refl refl] execute_raft [OF e(2)] wf by simp
  next
    case False
    then show ?thesis
      using "1.prems"(1) h wf
      by (subst (asm) drive.simps) (auto split: sum.splits option.splits outcome.splits dest: execute_raft)
  qed
qed

lemma fail_operation_raft [simp]: "rt_raft (fail_operation env op err rt) = rt_raft rt"
  by (auto simp: fail_operation_def send_reply_to give_back_def Let_def split: option.splits)

lemma settled_raft [simp]:
  "rt_raft (case r of Inl err \<Rightarrow> fail_operation env op err rt | Inr _ \<Rightarrow> rt) = rt_raft rt"
  by (cases r) simp_all

lemma message_wf:
  assumes "handle_message env (MsgWrite data ch) rt = Done rt'" and "raft_wf (rt_raft rt)"
  shows "raft_wf (rt_raft rt')"
  using assms
  by (auto simp: handle_message_def next_operation_id_def obind_eq_Done Let_def
      split: if_splits dest!: drive_wf)

section \<open>Property\<close>

text \<open>
  C18. No sequence of writes reaches a \<^verbatim>\<open>todo!()\<close>, or a \<^verbatim>\<open>panic!\<close> or \<^verbatim>\<open>expect\<close> about the table of
  operations. On a node that is one of its voters, whatever its role and whatever disk, codec
  and application do, a run panics only when the operation identifiers are used up or in the
  log: an overflow, an index out of range, a mapping that cannot be made or has no page, or a
  length prefix beyond the largest vector.\<close>

theorem writes_reach_no_todo:
  assumes "table_ok rt" and "raft_wf (rt_raft rt)" and "run env msgs rt = Panic p"
  shows "p \<in> {ExpectFailed ''operation ID space exhausted'', Overflow, IndexOutOfBounds, BusError,
    ExplicitPanic ''capacity overflow'', ExpectFailed ''called `Result::unwrap()` on an `Err` value''}"
  using assms
proof (induction msgs arbitrary: rt)
  case Nil
  then show ?case by simp
next
  case (Cons msg msgs)
  obtain data ch where msg: "msg = MsgWrite data ch" by (cases msg)
  have fresh: "ids_fresh rt" using Cons.prems(1) by (simp add: table_ok_def)
  from Cons.prems(3) consider "handle_message env msg rt = Panic p"
    | rt' where "handle_message env msg rt = Done rt'" "run env msgs rt' = Panic p"
    by (auto simp: obind_eq_Panic)
  then show ?case
  proof cases
    case 1
    then show ?thesis using message_Panic [OF fresh Cons.prems(2)] msg by (auto simp: log_panics_def)
  next
    case 2
    then show ?thesis
      using Cons.IH [of rt'] table_ok_step [of env rt msg rt'] message_wf [of env data ch rt rt'] msg Cons.prems(1,2)
      by (auto simp: message_step_def)
  qed
qed

theorem writes_reach_no_todo_witness:
  "\<exists>rt :: byte list list runtime. run demo_env [MsgWrite [1] 10] rt = Panic (ExpectFailed ''operation ID space exhausted'') \<and>
     ExpectFailed ''operation ID space exhausted'' \<noteq> Todo []"
proof -
  obtain lg and rt :: "byte list list runtime" where
    rt: "runtime_new (NodeId ''node-1'') [NodeId ''node-1''] lg [] (Inr []) = Done rt" "rt_operations rt = []"
    using demo_node [of False] by blast
  let ?rt = "(lead rt)\<lparr>rt_next_operation_id := - 1\<rparr>"
  have "raft_wf (rt_raft rt)" using rt(1) by (auto simp: runtime_new_def obind_eq_Done dest: raft_new_wf)
  then have wf: "raft_wf (rt_raft ?rt)" by (simp add: raft_wf_def lead_in_def)
  have ok: "table_ok ?rt" using rt(2) by (simp add: table_ok_def ids_fresh_def hm_wf_def hm_keys_def)
  have "run demo_env [MsgWrite [1] 10] ?rt = Panic (ExpectFailed ''operation ID space exhausted'')"
    using checked_add_1_None [of "- 1 :: u64"]
    by (simp add: handle_message_def next_operation_id_def)
  with writes_reach_no_todo [OF ok wf this] show ?thesis by blast
qed

end
