(* ===== verification/Raft_Roles.thy ===== *)
theory Raft_Roles
  imports Raft_Core_Theorems
begin

text \<open>
  The roles of a node as a state machine: which events move it along which edge, and in what
  state it arrives.
\<close>

section \<open>The diagram\<close>

text \<open>
  A node stands for election on its timer, wins by the vote that completes a majority, and
  becomes a follower when it learns of a newer term or hears the leader of its own.
\<close>

inductive role_edge :: "raft \<Rightarrow> event \<Rightarrow> raft \<Rightarrow> bool" where
  stand: "role_edge s ElectionTimeout s'"
    if "role s' = Candidate" "current_term s < - 1" "current_term s' = current_term s + 1"
      "voted_for s' = Some (self_id s)" "granted_votes s' = {self_id s}"
| win: "role_edge s (VoteResponse vr) s'"
    if "role s = Candidate" "role s' = Leader" "current_term s' = current_term s"
      "vp_vote_granted (rv_response vr)" "vp_term (rv_response vr) = current_term s"
      "hm_contains (voters s) (rv_from vr)" "rv_from vr \<notin> granted_votes s"
      "granted_votes s' = insert (rv_from vr) (granted_votes s)"
      "length (voters s) div 2 < card (granted_votes s')"
| newer_term: "role_edge s ev s'"
    if "role s' = Follower" "current_term s < current_term s'"
      "voted_for s' = None \<or> (\<exists>req. ev = RequestVote req \<and> voted_for s' = Some (vq_candidate_id req))"
| hear_heartbeat: "role_edge s (Heartbeat req) s'"
    if "role s' = Follower" "hb_term req = current_term s" "current_term s' = current_term s"
      "leader_id s' = Some (hb_leader_id req)" "voted_for s' = voted_for s"
| hear_entries: "role_edge s (AppendEntries rcv) s'"
    if "role s' = Follower" "aq_term (ra_request rcv) = current_term s" "current_term s' = current_term s"
      "leader_id s' = Some (aq_leader_id (ra_request rcv))" "voted_for s' = voted_for s"

lemma add_w_1: "add_w a 1 = Done t \<Longrightarrow> a < - 1 \<and> t = a + 1"
  using checked_add_1_None [of a] word_order.not_eq_extremum [of a]
  by (auto simp: add_w_def checked_add_def split: option.splits if_splits)

lemma election_edge: "handle ElectionTimeout s = Done (s', r) \<Longrightarrow> role_edge s ElectionTimeout s'"
  by (auto simp: step_simps dest!: add_w_1 intro!: stand)

lemma vote_request_edge:
  "handle (RequestVote req) s = Done (s', r) \<Longrightarrow> role s' \<noteq> role s \<Longrightarrow> role_edge s (RequestVote req) s'"
  by (rule newer_term) (auto simp: step_simps split: if_splits)

lemma vote_response_edge:
  "handle (VoteResponse vr) s = Done (s', r) \<Longrightarrow> role s' \<noteq> role s \<Longrightarrow> role_edge s (VoteResponse vr) s'"
  by (auto simp: step_simps split: if_splits intro: newer_term win)

lemma heartbeat_edge:
  "handle (Heartbeat req) s = Done (s', r) \<Longrightarrow> role s' \<noteq> role s \<Longrightarrow> role_edge s (Heartbeat req) s'"
  by (cases "hb_term req = current_term s")
    (auto simp: step_simps split: if_splits intro: newer_term hear_heartbeat)

lemma entries_edge:
  "handle (AppendEntries rcv) s = Done (s', r) \<Longrightarrow> role s' \<noteq> role s \<Longrightarrow> role_edge s (AppendEntries rcv) s'"
  by (cases "aq_term (ra_request rcv) = current_term s")
    (auto simp: step_simps split: if_splits intro: newer_term hear_entries)

lemma response_edge:
  "handle (HeartbeatResponse rh) s = Done (s', r) \<Longrightarrow> role s' \<noteq> role s \<Longrightarrow> role_edge s (HeartbeatResponse rh) s'"
  "handle (AppendEntriesResponse rr) s = Done (s', r) \<Longrightarrow> role s' \<noteq> role s \<Longrightarrow> role_edge s (AppendEntriesResponse rr) s'"
  by (auto simp: step_simps split: if_splits intro: newer_term)

lemma other_events_keep_role:
  "handle (Write op) s = Done (s', r) \<Longrightarrow> role s' = role s"
  "handle (LocalEntriesAppended le) s = Done (s', r) \<Longrightarrow> role s' = role s"
  "handle (EntriesPersisted pe) s = Done (s', r) \<Longrightarrow> role s' = role s"
  "handle (EntriesApplied ae) s = Done (s', r) \<Longrightarrow> role s' = role s"
  "handle HeartbeatTimeout s = Done (s', r) \<Longrightarrow> role s' = role s"
  by (auto simp: step_simps split: if_splits)

section \<open>Property\<close>

text \<open>
  C8. Roles change only along the edges of the diagram: to candidate by the election timer, with
  the next term and the own vote; to leader from candidate, by the granting response of a voter
  that completes a majority in the own term; and to follower by a message of a newer term, which
  forgets the old vote, or by the leader of the own term, which keeps it.\<close>

theorem roles_follow_the_diagram:
  assumes "handle ev s = Done (s', r)" and "role s' \<noteq> role s"
  shows "role_edge s ev s'"
  using assms
  by (cases ev) (auto dest: other_events_keep_role intro: election_edge vote_request_edge vote_response_edge
      heartbeat_edge entries_edge response_edge simp del: handle.simps)

theorem roles_follow_the_diagram_witness:
  "\<exists>s'. role_edge (follower 4 None 8 3) ElectionTimeout s' \<and> role s' = Candidate \<and>
     role_edge s' (Heartbeat \<lparr>hb_term = 5, hb_leader_id = NodeId ''node-2'', hb_log_index = 8, hb_log_term = 3,
       hb_leader_commit_index = 0\<rparr>) (s'\<lparr>role := Follower, granted_votes := {}, leader_id := Some (NodeId ''node-2'')\<rparr>)"
proof -
  let ?req = "\<lparr>hb_term = 5, hb_leader_id = NodeId ''node-2'', hb_log_index = 8, hb_log_term = 3, hb_leader_commit_index = 0\<rparr>"
  let ?s = "follower 4 None 8 3"
  obtain s' r where s': "handle ElectionTimeout ?s = Done (s', r)" "role s' = Candidate" "current_term s' = 5"
    "last_log_index s' = 8" "last_log_term s' = 3"
    by (auto simp: step_simps fixture_simps add_w_def checked_add_def)
  let ?t = "s'\<lparr>role := Follower, granted_votes := {}, leader_id := Some (NodeId ''node-2'')\<rparr>"
  have "\<exists>q. handle (Heartbeat ?req) s' = Done (?t, q)" using s' by (simp add: step_simps)
  then obtain q where "handle (Heartbeat ?req) s' = Done (?t, q)" ..
  from roles_follow_the_diagram [OF this] roles_follow_the_diagram [OF s'(1)] s'(2) show ?thesis
    by (intro exI [of _ s']) (simp add: follower_def)
qed

end
