(* ===== verification/Log_Test_Support.thy ===== *)
theory Log_Test_Support
  imports Log_Theorems
begin

text \<open>
  What the unit tests of the log's modules share when they run on the model: how a test goes on
  after \<^verbatim>\<open>unwrap()\<close>, \<^verbatim>\<open>unwrap_err()\<close> and a successful constructor, the files \<^verbatim>\<open>test_util\<close> creates,
  and the facts that evaluate the operations. Every system call of a test succeeds.
\<close>

named_theorems log_test "unfolding of the tests and their helpers"

definition ok :: "('s \<times> 'a io_result) outcome \<Rightarrow> ('s \<Rightarrow> 'a \<Rightarrow> bool) \<Rightarrow> bool" where [log_test]:
  "ok m rest = (case m of Done (s, Inr x) \<Rightarrow> rest s x | _ \<Rightarrow> False)"

definition fails :: "('s \<times> 'a io_result) outcome \<Rightarrow> ('s \<Rightarrow> io_error \<Rightarrow> bool) \<Rightarrow> bool" where [log_test]:
  "fails m rest = (case m of Done (s, Inl e) \<Rightarrow> rest s e | _ \<Rightarrow> False)"

definition opened :: "(io_error + 'a) outcome \<Rightarrow> ('a \<Rightarrow> bool) \<Rightarrow> bool" where [log_test]:
  "opened m rest = (case m of Done (Inr x) \<Rightarrow> rest x | _ \<Rightarrow> False)"

definition exists_in :: "directory \<Rightarrow> string \<Rightarrow> bool" where [log_test]:
  "exists_in d name \<longleftrightarrow> map_of d name \<noteq> None"

definition create_segment_files :: "u64 \<Rightarrow> directory \<Rightarrow> directory" where [log_test]:
  "create_segment_files base d =
     hm_insert (index_name base) (FileEntry []) (hm_insert (store_name base) (FileEntry []) d)"

text \<open>The bytes a new index is filled with read as the largest offset.\<close>

lemma padding_value [log_test]: "be_val 0 (replicate 4 255) = 4294967295"
proof -
  have "replicate 4 (255 :: byte) = [255, 255, 255, 255]" by (simp add: eval_nat_numeral)
  then show ?thesis by simp
qed

text \<open>Each step of a test is evaluated before the steps that use its result.\<close>

lemma step_cong [cong]:
  "m = m' \<Longrightarrow> ok m rest = ok m' rest" "n = n' \<Longrightarrow> fails n rest' = fails n' rest'"
  "k = k' \<Longrightarrow> opened k rest'' = opened k' rest''" "b = b' \<Longrightarrow> obind b f = obind b' f"
  "a = a' \<Longrightarrow> and_then a g = and_then a' g" "v = v' \<Longrightarrow> Let v h = Let v' h"
  by simp_all

lemma above_one [log_test]: "\<not> (2 :: u64) \<le> 1" "\<not> (3 :: u64) \<le> 1" "\<not> (4 :: u64) \<le> 1" "\<not> (5 :: u64) \<le> 1"
  by (simp_all add: word_le_nat_alt)

lemma digit_chars [log_test]:
  "digit_char 0 = CHR ''0''" "digit_char 1 = CHR ''1''" "digit_char 2 = CHR ''2''" "digit_char 3 = CHR ''3''"
  "digit_char 4 = CHR ''4''" "digit_char 5 = CHR ''5''" "digit_char 6 = CHR ''6''" "digit_char (Suc 0) = CHR ''1''"
  by code_simp+

lemmas eval_env = sys_def calm_env_def check_sys_def
lemmas eval_bytes = u64_to_be_def u32_to_be_def u64_from_be_def u32_from_be_def be_bytes_numeral set_len_def write_at_def
  read_exact_at_def as_bytes_def dec_string.simps u64_display_def parse_u64_def digit_of_def
lemmas eval_arith = add_w_def checked_add_def sub_w_def checked_sub_def
lemmas eval_store = store_new_def store_append_def store_read_def store_close_def store_len_def bw_write_all_def
  bw_write_def bw_make_room_def bw_copy_def bw_flush_def spare_def buf_capacity_def length_width_def fill_error_def
lemmas eval_index = index_new_def index_write_def index_read_def index_len_def current_offset_def index_close_def
  index_file_def page_end_def width_defs recover_size_def recover_loop.simps
lemmas eval_segment = segment_new_def segment_append_def segment_read_def segment_close_def segment_remove_def
  segment_image_def open_file_def on_store_def on_index_def is_maxed_def is_in_range_def is_lesser_than_range_def
  store_name_def index_name_def hm_insert_def hm_delete_def
lemmas eval_log = log_new_def log_append_def log_read_def log_close_def log_truncate.simps log_image_def new_segment_def
  seg_config_of_def name_offset_def strip_suffix_def suffix_to_prefix
lemmas eval_simps = eval_env eval_bytes eval_arith eval_store eval_index eval_segment eval_log omap_def Let_def

end
