(* ===== verification/Store_Index_Tests.thy ===== *)
theory Store_Index_Tests
  imports Log_Test_Support
begin

text \<open>
  The unit tests of \<^verbatim>\<open>src/log/store.rs\<close> and \<^verbatim>\<open>src/log/index.rs\<close> on the model, less the two that ask the
  operating system for the path of an open file. Reopening a file gives the bytes the store or
  the index left in it.
\<close>

section \<open>The store\<close>

definition store_payload :: "nat \<Rightarrow> byte list" where [log_test]:
  "store_payload i = as_bytes (''hello world '' @ dec_string i)"

fun test_store_append :: "nat list \<Rightarrow> store \<Rightarrow> (store \<Rightarrow> bool) \<Rightarrow> bool" where
  "test_store_append [] st rest = rest st"
| "test_store_append (i # is) st rest =
     ok (store_append calm_env (store_payload i) st) (\<lambda>st' written.
       written = of_nat (length (store_payload i) + length_width) \<and>
       so_size st' - so_size st = of_nat (length (store_payload i) + length_width) \<and>
       test_store_append is st' rest)"

fun test_store_read :: "nat list \<Rightarrow> u64 \<Rightarrow> store \<Rightarrow> (store \<Rightarrow> bool) \<Rightarrow> bool" where
  "test_store_read [] pos st rest = rest st"
| "test_store_read (i # is) pos st rest =
     ok (store_read calm_env pos st) (\<lambda>st buf.
       buf = store_payload i \<and>
       test_store_read is (pos + of_nat (length (store_payload i) + length_width)) st rest)"

definition store_lifecycle :: "bool \<Rightarrow> bool" where [log_test]:
  "store_lifecycle sync =
     opened (Done (store_new calm_env [] sync)) (\<lambda>st.
       test_store_append [0, 1, 2, 3] st (\<lambda>st.
       test_store_read [0, 1, 2, 3] 0 st (\<lambda>st.
       ok (store_close calm_env st) (\<lambda>st _. True))))"

definition store_lifecycle_no_sync_writes :: bool where [log_test]:
  "store_lifecycle_no_sync_writes \<longleftrightarrow> store_lifecycle False"

definition store_lifecycle_sync_writes :: bool where [log_test]:
  "store_lifecycle_sync_writes \<longleftrightarrow> store_lifecycle True"

definition store_new_reopens_existing_file_with_correct_size :: bool where [log_test]:
  "store_new_reopens_existing_file_with_correct_size \<longleftrightarrow>
     opened (Done (store_new calm_env [] False)) (\<lambda>st.
       test_store_append [0, 1, 2, 3] st (\<lambda>st.
       ok (store_close calm_env st) (\<lambda>st _.
       opened (Done (store_new calm_env (so_file st) False)) (\<lambda>st.
         so_size st = of_nat (sum_list (map (\<lambda>i. length (store_payload i) + length_width) [0, 1, 2, 3])) \<and>
         test_store_read [0, 1, 2, 3] 0 st (\<lambda>st. True)))))"

definition store_read_errors_when_out_of_range :: bool where [log_test]:
  "store_read_errors_when_out_of_range \<longleftrightarrow>
     opened (Done (store_new calm_env [] False)) (\<lambda>st.
       ok (store_append calm_env (store_payload 0) st) (\<lambda>st _.
       fails (store_read calm_env 1000 st) (\<lambda>st err. io_error_kind err = UnexpectedEof)))"

definition store_append_empty_buffer_round_trips :: bool where [log_test]:
  "store_append_empty_buffer_round_trips \<longleftrightarrow>
     opened (Done (store_new calm_env [] False)) (\<lambda>st.
       ok (store_append calm_env [] st) (\<lambda>st written. written = of_nat length_width \<and>
       ok (store_read calm_env 0 st) (\<lambda>st buf. buf = [])))"

definition store_read_without_prior_flush :: bool where [log_test]:
  "store_read_without_prior_flush \<longleftrightarrow>
     opened (Done (store_new calm_env [] False)) (\<lambda>st.
       ok (store_append calm_env (store_payload 0) st) (\<lambda>st _.
       ok (store_read calm_env 0 st) (\<lambda>st buf. buf = store_payload 0)))"

section \<open>The index\<close>

definition index_payload :: "nat \<Rightarrow> u64" where [log_test]:
  "index_payload i = 1000000 + of_nat i"

fun test_index_write :: "nat list \<Rightarrow> index \<Rightarrow> (index \<Rightarrow> bool) \<Rightarrow> bool" where
  "test_index_write [] ix rest = rest ix"
| "test_index_write (i # is) ix rest =
     ok (index_write calm_env (of_nat i) (index_payload i) ix) (\<lambda>ix _. test_index_write is ix rest)"

definition index_read_ok :: "u32 \<Rightarrow> index \<Rightarrow> (u32 \<times> u64 \<Rightarrow> bool) \<Rightarrow> bool" where [log_test]:
  "index_read_ok off ix rest = opened (index_read calm_env off ix) rest"

definition test_index_read :: "nat list \<Rightarrow> index \<Rightarrow> bool" where [log_test]:
  "test_index_read is ix = list_all (\<lambda>i. index_read_ok (of_nat i) ix (\<lambda>(off, pos).
     off = of_nat i \<and> pos = index_payload i)) is"

definition index_of :: "filedata \<Rightarrow> nat \<Rightarrow> (index \<Rightarrow> bool) \<Rightarrow> bool" where [log_test]:
  "index_of f slots_max rest = opened (index_new calm_env f (of_nat (slots_max * entire_width))) rest"

definition index_lifecycle :: bool where [log_test]:
  "index_lifecycle \<longleftrightarrow> index_of [] 8 (\<lambda>ix. test_index_write [0, 1, 2, 3] ix (\<lambda>ix. test_index_read [0, 1, 2, 3] ix))"

definition index_recovers_size_after_abrupt_drop :: bool where [log_test]:
  "index_recovers_size_after_abrupt_drop \<longleftrightarrow>
     index_of [] 8 (\<lambda>ix. test_index_write [0, 1, 2, 3] ix (\<lambda>ix.
       length (index_file ix) = 8 * entire_width \<and>
       index_of (index_file ix) 8 (\<lambda>ix.
         ix_size ix = of_nat (4 * entire_width) \<and> test_index_read [0, 1, 2, 3] ix)))"

definition index_close_truncates_file_on_clean_shutdown :: bool where [log_test]:
  "index_close_truncates_file_on_clean_shutdown \<longleftrightarrow>
     index_of [] 8 (\<lambda>ix. test_index_write [0, 1, 2, 3] ix (\<lambda>ix.
       ok (index_close calm_env ix) (\<lambda>ix _.
       length (index_file ix) = 4 * entire_width \<and>
       index_of (index_file ix) 8 (\<lambda>ix.
         ix_size ix = of_nat (4 * entire_width) \<and> test_index_read [0, 1, 2, 3] ix))))"

definition index_write_errors_when_full :: bool where [log_test]:
  "index_write_errors_when_full \<longleftrightarrow>
     index_of [] 2 (\<lambda>ix. test_index_write [0, 1] ix (\<lambda>ix.
       fails (index_write calm_env 2 (index_payload 2) ix) (\<lambda>ix err. io_error_kind err = UnexpectedEof)))"

definition index_read_errors_when_out_of_range :: bool where [log_test]:
  "index_read_errors_when_out_of_range \<longleftrightarrow>
     index_of [] 8 (\<lambda>ix. test_index_write [0] ix (\<lambda>ix.
       (case index_read calm_env 5 ix of Done (Inl err) \<Rightarrow> io_error_kind err = UnexpectedEof | _ \<Rightarrow> False)))"

definition index_recovers_zero_size_when_nothing_written :: bool where [log_test]:
  "index_recovers_zero_size_when_nothing_written \<longleftrightarrow>
     index_of [] 8 (\<lambda>ix. index_of (index_file ix) 8 (\<lambda>ix. ix_size ix = 0))"

definition index_recovers_full_size_when_completely_packed :: bool where [log_test]:
  "index_recovers_full_size_when_completely_packed \<longleftrightarrow>
     index_of [] 4 (\<lambda>ix. test_index_write [0, 1, 2, 3] ix (\<lambda>ix.
       index_of (index_file ix) 4 (\<lambda>ix.
         ix_size ix = of_nat (4 * entire_width) \<and> test_index_read [0, 1, 2, 3] ix)))"

definition index_write_after_recovery_appends_correctly :: bool where [log_test]:
  "index_write_after_recovery_appends_correctly \<longleftrightarrow>
     index_of [] 8 (\<lambda>ix. test_index_write [0, 1, 2, 3] ix (\<lambda>ix.
       index_of (index_file ix) 8 (\<lambda>ix.
         ix_size ix = of_nat (4 * entire_width) \<and>
         test_index_write [4] ix (\<lambda>ix.
           index_read_ok 4 ix (\<lambda>(off, pos). off = 4 \<and> pos = index_payload 4) \<and>
           test_index_read [0, 1, 2, 3] ix))))"

definition index_len_reflects_bytes_written :: bool where [log_test]:
  "index_len_reflects_bytes_written \<longleftrightarrow>
     index_of [] 8 (\<lambda>ix. index_len ix = 0 \<and>
       test_index_write [0] ix (\<lambda>ix. index_len ix = of_nat entire_width \<and>
       test_index_write [1] ix (\<lambda>ix. index_len ix = of_nat (2 * entire_width))))"

definition index_current_offset_reflects_entries_written :: bool where [log_test]:
  "index_current_offset_reflects_entries_written \<longleftrightarrow>
     index_of [] 8 (\<lambda>ix. current_offset ix = 0 \<and>
       test_index_write [0, 1, 2, 3] ix (\<lambda>ix. current_offset ix = 4))"

section \<open>All tests pass\<close>

lemma tests_of_the_store:
  "store_lifecycle_no_sync_writes" "store_lifecycle_sync_writes"
  "store_new_reopens_existing_file_with_correct_size" "store_read_errors_when_out_of_range"
  "store_append_empty_buffer_round_trips" "store_read_without_prior_flush"
  by (simp_all add: log_test eval_simps)

lemma tests_of_the_index:
  "index_lifecycle" "index_recovers_size_after_abrupt_drop" "index_close_truncates_file_on_clean_shutdown"
  "index_write_errors_when_full" "index_read_errors_when_out_of_range"
  "index_recovers_zero_size_when_nothing_written" "index_recovers_full_size_when_completely_packed"
  "index_write_after_recovery_appends_correctly" "index_len_reflects_bytes_written"
  "index_current_offset_reflects_entries_written"
  by (simp_all add: log_test eval_simps)

end
