(* ===== verification/Segment_Tests.thy ===== *)
theory Segment_Tests
  imports Log_Test_Support
begin

text \<open>The unit tests of \<^verbatim>\<open>src/log/segment.rs\<close> on the model.\<close>

section \<open>The tests\<close>

definition seg_cfg :: "u64 \<Rightarrow> u64 \<Rightarrow> seg_config" where [log_test]:
  "seg_cfg index_max store_max = \<lparr>max_index_bytes = index_max, max_store_bytes = store_max, sync_writes = False\<rparr>"

text \<open>A segment on the two empty files the tests create first.\<close>

definition segment_at :: "seg_config \<Rightarrow> u64 \<Rightarrow> (segment \<Rightarrow> bool) \<Rightarrow> bool" where [log_test]:
  "segment_at cfg base rest = opened (segment_new calm_env cfg base (create_segment_files base [])) rest"

abbreviation seg_append :: "byte list \<Rightarrow> segment \<Rightarrow> (segment \<Rightarrow> u64 \<Rightarrow> bool) \<Rightarrow> bool" where
  "seg_append r sg rest \<equiv> ok (segment_append calm_env r sg) rest"

abbreviation seg_read :: "u64 \<Rightarrow> segment \<Rightarrow> (segment \<Rightarrow> byte list \<Rightarrow> bool) \<Rightarrow> bool" where
  "seg_read off sg rest \<equiv> ok (segment_read calm_env off sg) rest"

abbreviation seg_read_fails :: "u64 \<Rightarrow> segment \<Rightarrow> bool" where
  "seg_read_fails off sg \<equiv> fails (segment_read calm_env off sg) (\<lambda>sg err. True)"

definition new_initializes_offsets_and_opens_files :: bool where [log_test]:
  "new_initializes_offsets_and_opens_files \<longleftrightarrow>
     segment_at (seg_cfg 1024 1024) 16 (\<lambda>sg. sg_base sg = 16 \<and>
       exists_in (segment_image sg []) ''16.store'' \<and> exists_in (segment_image sg []) ''16.index'')"

definition append_returns_incrementing_offsets :: bool where [log_test]:
  "append_returns_incrementing_offsets \<longleftrightarrow>
     segment_at (seg_cfg 1024 1024) 0 (\<lambda>sg.
       seg_append (as_bytes ''first'') sg (\<lambda>sg off. off = 0 \<and>
       seg_append (as_bytes ''second'') sg (\<lambda>sg off. off = 0 + 1 \<and>
       seg_append (as_bytes ''third'') sg (\<lambda>sg off. off = 0 + 2 \<and> sg_next sg = 0 + 3))))"

definition append_and_read_round_trips_records :: bool where [log_test]:
  "append_and_read_round_trips_records \<longleftrightarrow>
     segment_at (seg_cfg 1024 1024) 10 (\<lambda>sg.
       seg_append (as_bytes ''alpha'') sg (\<lambda>sg o1. seg_append (as_bytes ''beta'') sg (\<lambda>sg o2.
       seg_append (as_bytes ''gamma'') sg (\<lambda>sg o3.
         seg_read o1 sg (\<lambda>sg buf. buf = as_bytes ''alpha'' \<and>
         seg_read o2 sg (\<lambda>sg buf. buf = as_bytes ''beta'' \<and>
         seg_read o3 sg (\<lambda>sg buf. buf = as_bytes ''gamma'')))))))"

definition read_below_base_offset_errors :: bool where [log_test]:
  "read_below_base_offset_errors \<longleftrightarrow>
     segment_at (seg_cfg 1024 1024) 5 (\<lambda>sg. seg_append (as_bytes ''data'') sg (\<lambda>sg off. seg_read_fails (5 - 1) sg))"

definition read_above_written_offset_errors :: bool where [log_test]:
  "read_above_written_offset_errors \<longleftrightarrow>
     segment_at (seg_cfg 1024 1024) 0 (\<lambda>sg. seg_append (as_bytes ''only one'') sg (\<lambda>sg off. seg_read_fails (0 + 1) sg))"

definition is_maxed_when_index_reaches_limit :: bool where [log_test]:
  "is_maxed_when_index_reaches_limit \<longleftrightarrow>
     segment_at (seg_cfg (of_nat entire_width) 1024) 0 (\<lambda>sg. \<not> is_maxed sg \<and>
       seg_append (as_bytes ''fills the only index slot'') sg (\<lambda>sg off. is_maxed sg))"

definition is_maxed_when_store_reaches_limit :: bool where [log_test]:
  "is_maxed_when_store_reaches_limit \<longleftrightarrow>
     segment_at (seg_cfg 1024 20) 0 (\<lambda>sg. \<not> is_maxed sg \<and> seg_append (replicate 12 0) sg (\<lambda>sg off. is_maxed sg))"

definition remove_deletes_store_and_index_files :: bool where [log_test]:
  "remove_deletes_store_and_index_files \<longleftrightarrow>
     segment_at (seg_cfg 1024 1024) 0 (\<lambda>sg. seg_append (as_bytes ''persisted'') sg (\<lambda>sg off.
       exists_in (segment_image sg []) (store_name 0) \<and> exists_in (segment_image sg []) (index_name 0) \<and>
       ok (segment_remove calm_env sg (segment_image sg [])) (\<lambda>d _.
         \<not> exists_in d (store_name 0) \<and> \<not> exists_in d (index_name 0))))"

definition read_unwritten_segment_errors :: bool where [log_test]:
  "read_unwritten_segment_errors \<longleftrightarrow> segment_at (seg_cfg 1024 1024) 0 (\<lambda>sg. seg_read_fails 0 sg)"

definition append_empty_record_round_trips :: bool where [log_test]:
  "append_empty_record_round_trips \<longleftrightarrow>
     segment_at (seg_cfg 1024 1024) 0 (\<lambda>sg. seg_append [] sg (\<lambda>sg off. seg_read off sg (\<lambda>sg buf. buf = [])))"

definition append_updates_store_and_index_sizes :: bool where [log_test]:
  "append_updates_store_and_index_sizes \<longleftrightarrow>
     segment_at (seg_cfg 1024 1024) 0 (\<lambda>sg. store_len (sg_store sg) = 0 \<and> index_len (sg_index sg) = 0 \<and>
       seg_append (as_bytes ''first'') sg (\<lambda>sg off.
         store_len (sg_store sg) = 8 + 5 \<and> index_len (sg_index sg) = of_nat entire_width \<and>
       seg_append (as_bytes ''second'') sg (\<lambda>sg off.
         store_len (sg_store sg) = (8 + 5) + (8 + 6) \<and> index_len (sg_index sg) = of_nat (entire_width * 2))))"

definition append_past_index_limit_errors :: bool where [log_test]:
  "append_past_index_limit_errors \<longleftrightarrow>
     segment_at (seg_cfg (of_nat entire_width) 1024) 0 (\<lambda>sg. seg_append (as_bytes ''one'') sg (\<lambda>sg off.
       fails (segment_append calm_env (as_bytes ''two'') sg) (\<lambda>sg err. True)))"

definition append_beyond_store_limit_marks_segment_maxed :: bool where [log_test]:
  "append_beyond_store_limit_marks_segment_maxed \<longleftrightarrow>
     segment_at (seg_cfg 1024 20) 0 (\<lambda>sg. \<not> is_maxed sg \<and>
       seg_append (replicate 12 0) sg (\<lambda>sg off. is_maxed sg \<and>
         (let size_before = store_len (sg_store sg)
          in seg_append (as_bytes ''extra'') sg (\<lambda>sg off. store_len (sg_store sg) > size_before))))"

definition is_not_maxed_when_under_both_limits :: bool where [log_test]:
  "is_not_maxed_when_under_both_limits \<longleftrightarrow>
     segment_at (seg_cfg (of_nat (entire_width * 4)) 1024) 0 (\<lambda>sg.
       seg_append (as_bytes ''small'') sg (\<lambda>sg off. \<not> is_maxed sg))"

definition remove_empty_segment_deletes_files :: bool where [log_test]:
  "remove_empty_segment_deletes_files \<longleftrightarrow>
     segment_at (seg_cfg 1024 1024) 0 (\<lambda>sg.
       ok (segment_remove calm_env sg (segment_image sg [])) (\<lambda>d _.
         \<not> exists_in d (store_name 0) \<and> \<not> exists_in d (index_name 0)))"

definition lifecycle_with_sync_writes_enabled :: bool where [log_test]:
  "lifecycle_with_sync_writes_enabled \<longleftrightarrow>
     segment_at ((seg_cfg 1024 1024)\<lparr>sync_writes := True\<rparr>) 0 (\<lambda>sg.
       seg_append (as_bytes ''synced'') sg (\<lambda>sg off. seg_read off sg (\<lambda>sg buf. buf = as_bytes ''synced'')))"

section \<open>All tests pass\<close>

lemma tests_of_the_segment:
  "new_initializes_offsets_and_opens_files" "append_returns_incrementing_offsets"
  "append_and_read_round_trips_records" "read_below_base_offset_errors" "read_above_written_offset_errors"
  "is_maxed_when_index_reaches_limit" "is_maxed_when_store_reaches_limit" "remove_deletes_store_and_index_files"
  "read_unwritten_segment_errors" "append_empty_record_round_trips" "append_updates_store_and_index_sizes"
  "append_past_index_limit_errors" "append_beyond_store_limit_marks_segment_maxed"
  "is_not_maxed_when_under_both_limits" "remove_empty_segment_deletes_files" "lifecycle_with_sync_writes_enabled"
  by (simp_all add: log_test eval_simps)

end
