(* ===== verification/Segmented_Log_Tests.thy ===== *)
theory Segmented_Log_Tests
  imports Log_Test_Support
begin

text \<open>
  The unit tests of \<^verbatim>\<open>src/log.rs\<close> on the model. A directory is its entries, and opening a log again
  sees the files the first one left.
\<close>

section \<open>Helpers\<close>

definition log_cfg :: "u64 \<Rightarrow> u64 \<Rightarrow> log_config" where [log_test]:
  "log_cfg index_max store_max =
     \<lparr>initial_offset = 0, log_sync_writes = False, max_size_bytes = index_max, log_max_store_bytes = store_max\<rparr>"

abbreviation one_slot :: log_config where
  "one_slot \<equiv> log_cfg (of_nat entire_width) 1024"

definition open_log :: "log_config \<Rightarrow> directory \<Rightarrow> (log \<Rightarrow> bool) \<Rightarrow> bool" where [log_test]:
  "open_log cfg d rest = opened (log_new calm_env cfg ''log-test'' (Some d)) rest"

abbreviation append_ok :: "string \<Rightarrow> log \<Rightarrow> (log \<Rightarrow> u64 \<Rightarrow> bool) \<Rightarrow> bool" where
  "append_ok r lg rest \<equiv> ok (log_append calm_env (as_bytes r) lg) rest"

abbreviation read_gives :: "u64 \<Rightarrow> string \<Rightarrow> log \<Rightarrow> (log \<Rightarrow> bool) \<Rightarrow> bool" where
  "read_gives off r lg rest \<equiv> ok (log_read calm_env off lg) (\<lambda>lg buf. buf = as_bytes r \<and> rest lg)"

abbreviation read_fails :: "u64 \<Rightarrow> log \<Rightarrow> bool" where
  "read_fails off lg \<equiv> fails (log_read calm_env off lg) (\<lambda>lg err. True)"

text \<open>The loops \<^verbatim>\<open>for i in ..\<close> over appends and over reads.\<close>

fun append_each :: "string list \<Rightarrow> u64 list \<Rightarrow> log \<Rightarrow> (log \<Rightarrow> u64 list \<Rightarrow> bool) \<Rightarrow> bool" where
  "append_each [] offs lg rest = rest lg offs"
| "append_each (r # rs) offs lg rest = append_ok r lg (\<lambda>lg off. append_each rs (offs @ [off]) lg rest)"

fun read_each :: "(u64 \<times> string) list \<Rightarrow> log \<Rightarrow> bool" where
  "read_each [] lg = True"
| "read_each ((off, r) # rs) lg = read_gives off r lg (\<lambda>lg. read_each rs lg)"

definition names :: "string \<Rightarrow> nat \<Rightarrow> string list" where [log_test]:
  "names pre n = map (\<lambda>i. pre @ dec_string i) [0..<n]"

lemma ranges [log_test]: "[0..<3] = [0, 1, 2 :: nat]" "[0..<4] = [0, 1, 2, 3 :: nat]" "[0..<5] = [0, 1, 2, 3, 4 :: nat]"
  by (simp_all add: upt_rec)

abbreviation bases :: "log \<Rightarrow> u64 list" where
  "bases lg \<equiv> map sg_base (lg_segments lg)"

section \<open>Opening\<close>

definition new_creates_initial_segment_in_empty_dir :: bool where [log_test]:
  "new_creates_initial_segment_in_empty_dir \<longleftrightarrow>
     open_log (log_cfg 1024 1024) [] (\<lambda>lg. length (lg_segments lg) = 1 \<and> lg_active lg = 0 \<and>
       exists_in (log_image lg) ''0.store'' \<and> exists_in (log_image lg) ''0.index'')"

definition new_loads_existing_segments :: bool where [log_test]:
  "new_loads_existing_segments \<longleftrightarrow>
     open_log (log_cfg 1024 1024) (create_segment_files 32 (create_segment_files 16 (create_segment_files 0 [])))
       (\<lambda>lg. length (lg_segments lg) = 3 \<and> lg_active lg = 2 \<and> bases lg = [0, 16, 32])"

definition new_errors_on_missing_directory :: bool where [log_test]:
  "new_errors_on_missing_directory \<longleftrightarrow>
     (case log_new calm_env (log_cfg 1024 1024) ''log-test/does-not-exist'' None of Done (Inl e) \<Rightarrow> True | _ \<Rightarrow> False)"

definition new_creates_missing_index_file_for_partial_segment :: bool where [log_test]:
  "new_creates_missing_index_file_for_partial_segment \<longleftrightarrow>
     open_log (log_cfg 1024 1024) [(''5.store'', FileEntry [])] (\<lambda>lg.
       length (lg_segments lg) = 1 \<and> bases lg = [5] \<and> exists_in (log_image lg) ''5.index'')"

definition new_ignores_unrelated_and_non_numeric_files :: bool where [log_test]:
  "new_ignores_unrelated_and_non_numeric_files \<longleftrightarrow>
     open_log (log_cfg 1024 1024) [(''notes.txt'', FileEntry []), (''abc.store'', FileEntry []), (''subdir'', DirEntry)]
       (\<lambda>lg. length (lg_segments lg) = 1 \<and> bases lg = [0])"

definition reopen_loads_all_segments :: bool where [log_test]:
  "reopen_loads_all_segments \<longleftrightarrow>
     open_log one_slot [] (\<lambda>lg. append_each (names ''rec-'' 3) [] lg (\<lambda>lg offs.
       ok (log_close calm_env lg) (\<lambda>lg _.
       open_log one_slot (log_image lg) (\<lambda>lg.
         length (lg_segments lg) = 4 \<and> read_each (zip offs (names ''rec-'' 3)) lg))))"

section \<open>Appending and reading\<close>

definition append_and_read_single_record :: bool where [log_test]:
  "append_and_read_single_record \<longleftrightarrow>
     open_log (log_cfg 1024 1024) [] (\<lambda>lg. append_ok ''hello'' lg (\<lambda>lg off. off = 0 \<and>
       read_gives off ''hello'' lg (\<lambda>lg. True)))"

definition log_append_returns_incrementing_offsets :: bool where [log_test]:
  "log_append_returns_incrementing_offsets \<longleftrightarrow>
     open_log (log_cfg 1024 1024) [] (\<lambda>lg.
       append_ok ''a'' lg (\<lambda>lg off. off = 0 \<and> append_ok ''b'' lg (\<lambda>lg off. off = 1 \<and>
       append_ok ''c'' lg (\<lambda>lg off. off = 2))))"

definition append_rotates_to_new_segment_when_maxed :: bool where [log_test]:
  "append_rotates_to_new_segment_when_maxed \<longleftrightarrow>
     open_log one_slot [] (\<lambda>lg.
       append_ok ''first'' lg (\<lambda>lg off. off = 0 \<and> length (lg_segments lg) = 2 \<and> lg_active lg = 1 \<and>
       append_ok ''second'' lg (\<lambda>lg off. off = 1 \<and> length (lg_segments lg) = 3 \<and> lg_active lg = 2 \<and>
         exists_in (log_image lg) ''2.store'' \<and> exists_in (log_image lg) ''2.index'')))"

definition read_across_segments :: bool where [log_test]:
  "read_across_segments \<longleftrightarrow>
     open_log one_slot [] (\<lambda>lg. append_each (names ''record-'' 4) [] lg (\<lambda>lg offs.
       read_each (zip offs (names ''record-'' 4)) lg))"

definition read_out_of_range_errors :: bool where [log_test]:
  "read_out_of_range_errors \<longleftrightarrow>
     open_log (log_cfg 1024 1024) [] (\<lambda>lg. append_ok ''only one'' lg (\<lambda>lg off. read_fails 1 lg))"

definition read_on_empty_log_errors :: bool where [log_test]:
  "read_on_empty_log_errors \<longleftrightarrow> open_log (log_cfg 1024 1024) [] (\<lambda>lg. read_fails 0 lg)"

definition append_and_read_multiple_records_within_single_segment :: bool where [log_test]:
  "append_and_read_multiple_records_within_single_segment \<longleftrightarrow>
     open_log (log_cfg 1024 1024) [] (\<lambda>lg. append_each (names ''rec-'' 5) [] lg (\<lambda>lg offs.
       length (lg_segments lg) = 1 \<and> lg_active lg = 0 \<and>
       read_each (zip [0, 1, 2, 3, 4] (names ''rec-'' 5)) lg))"

section \<open>Closing and truncating\<close>

definition close_closes_all_segments :: bool where [log_test]:
  "close_closes_all_segments \<longleftrightarrow>
     open_log one_slot [] (\<lambda>lg. append_ok ''one'' lg (\<lambda>lg off. append_ok ''two'' lg (\<lambda>lg off.
       ok (log_close calm_env lg) (\<lambda>lg _. True))))"

definition append_after_close_does_not_error :: bool where [log_test]:
  "append_after_close_does_not_error \<longleftrightarrow>
     open_log (log_cfg 1024 1024) [] (\<lambda>lg. append_ok ''one'' lg (\<lambda>lg off.
       ok (log_close calm_env lg) (\<lambda>lg _. append_ok ''two'' lg (\<lambda>lg off. off = 1))))"

definition truncate_removes_trailing_segments :: bool where [log_test]:
  "truncate_removes_trailing_segments \<longleftrightarrow>
     open_log one_slot [] (\<lambda>lg. append_ok ''zero'' lg (\<lambda>lg off0. append_ok ''one'' lg (\<lambda>lg off1.
       append_ok ''two'' lg (\<lambda>lg off2. length (lg_segments lg) = 4 \<and> lg_active lg = 3 \<and>
       ok (log_truncate calm_env (off0 + 1) lg) (\<lambda>lg _. length (lg_segments lg) = 2 \<and> lg_active lg = 1 \<and>
         list_all (\<lambda>name. \<not> exists_in (log_image lg) name) [''2.store'', ''2.index'', ''3.store'', ''3.index''])))))"

definition truncate_at_offset_beyond_all_segments_is_noop :: bool where [log_test]:
  "truncate_at_offset_beyond_all_segments_is_noop \<longleftrightarrow>
     open_log (log_cfg 1024 1024) [] (\<lambda>lg. append_ok ''zero'' lg (\<lambda>lg off. append_ok ''one'' lg (\<lambda>lg off.
       (let segments_before = length (lg_segments lg)
        in ok (log_truncate calm_env 100 lg) (\<lambda>lg _. length (lg_segments lg) = segments_before)))))"

definition truncate_to_zero_retains_only_first_segment :: bool where [log_test]:
  "truncate_to_zero_retains_only_first_segment \<longleftrightarrow>
     open_log one_slot [] (\<lambda>lg. append_ok ''zero'' lg (\<lambda>lg off. append_ok ''one'' lg (\<lambda>lg off.
       append_ok ''two'' lg (\<lambda>lg off. length (lg_segments lg) = 4 \<and>
       ok (log_truncate calm_env 0 lg) (\<lambda>lg _.
         length (lg_segments lg) = 1 \<and> lg_active lg = 0 \<and> bases lg = [0] \<and>
         read_gives 0 ''zero'' lg (\<lambda>lg. True))))))"

section \<open>All tests pass\<close>

lemma tests_of_opening:
  "new_creates_initial_segment_in_empty_dir" "new_loads_existing_segments" "new_errors_on_missing_directory"
  "new_creates_missing_index_file_for_partial_segment" "new_ignores_unrelated_and_non_numeric_files"
  by (simp_all add: log_test eval_simps)

lemma tests_of_appending:
  "append_and_read_single_record" "log_append_returns_incrementing_offsets"
  "append_rotates_to_new_segment_when_maxed" "read_out_of_range_errors" "read_on_empty_log_errors"
  by (simp_all add: log_test eval_simps)

lemma tests_of_reading_many:
  "read_across_segments" "append_and_read_multiple_records_within_single_segment" "reopen_loads_all_segments"
  by (simp_all add: log_test eval_simps)

lemma tests_of_closing:
  "close_closes_all_segments" "append_after_close_does_not_error" "truncate_removes_trailing_segments"
  "truncate_at_offset_beyond_all_segments_is_noop" "truncate_to_zero_retains_only_first_segment"
  by (simp_all add: log_test eval_simps)

end
