(* ===== verification/Storage_Tests.thy ===== *)
theory Storage_Tests
  imports Raft_Storage
begin

text \<open>
  The unit tests of \<^verbatim>\<open>src/raft/storage.rs\<close> on the model. A test directory is the content of its
  \<^verbatim>\<open>state.metadata\<close>, empty before the first \<^verbatim>\<open>Storage::new\<close>, and no system call of a test fails.
\<close>

named_theorems storage_test "unfolding of the tests"

section \<open>Helpers\<close>

definition test_state :: "u64 \<Rightarrow> string option \<Rightarrow> state" where
  "test_state term vote = \<lparr>hs_current_term = term, hs_voted_for = map_option NodeId vote\<rparr>"

definition storage_on :: "filedata \<Rightarrow> (storage \<Rightarrow> bool) \<Rightarrow> bool" where
  "storage_on f rest = (case storage_new ''raft-storage-test'' (Inr f) of Done st \<Rightarrow> rest st | _ \<Rightarrow> False)"

definition saves :: "state \<Rightarrow> storage \<Rightarrow> (storage \<Rightarrow> bool) \<Rightarrow> bool" where
  "saves h st rest = (case save_state no_faults h st of (st, Inr _) \<Rightarrow> rest st | _ \<Rightarrow> False)"

definition loads :: "state \<Rightarrow> storage \<Rightarrow> bool" where
  "loads h st = (case load_state st of
       Done loaded \<Rightarrow> hs_current_term loaded = hs_current_term h \<and> hs_voted_for loaded = hs_voted_for h
     | _ \<Rightarrow> False)"

section \<open>The tests\<close>

definition new_storage_loads_the_default_hard_state :: bool where [storage_test]:
  "new_storage_loads_the_default_hard_state \<longleftrightarrow> storage_on [] (\<lambda>st. loads (test_state 0 None) st)"

definition saves_and_loads_a_term_without_a_vote :: bool where [storage_test]:
  "saves_and_loads_a_term_without_a_vote \<longleftrightarrow>
     (let expected = test_state 7 None in storage_on [] (\<lambda>st. saves expected st (loads expected)))"

definition saves_and_loads_a_vote :: bool where [storage_test]:
  "saves_and_loads_a_vote \<longleftrightarrow>
     (let expected = test_state 11 (Some ''node-2'') in storage_on [] (\<lambda>st. saves expected st (loads expected)))"

definition saved_state_survives_reopening_storage :: bool where [storage_test]:
  "saved_state_survives_reopening_storage \<longleftrightarrow>
     (let expected = test_state 19 (Some ''node-3'')
      in storage_on [] (\<lambda>st. saves expected st (\<lambda>st. storage_on (st_file st) (loads expected))))"

definition overwriting_a_vote_with_none_clears_it :: bool where [storage_test]:
  "overwriting_a_vote_with_none_clears_it \<longleftrightarrow>
     (let expected = test_state 4 None
      in storage_on [] (\<lambda>st. saves (test_state 3 (Some ''previous-candidate'')) st (\<lambda>st.
           saves expected st (\<lambda>st. loads expected st \<and> length (st_file st) = 16))))"

definition overwriting_a_long_vote_with_a_shorter_vote_removes_trailing_bytes :: bool where [storage_test]:
  "overwriting_a_long_vote_with_a_shorter_vote_removes_trailing_bytes \<longleftrightarrow>
     (let expected = test_state 9 (Some ''b'')
      in storage_on [] (\<lambda>st. saves (test_state 8 (Some ''a-very-long-candidate-id'')) st (\<lambda>st.
           saves expected st (\<lambda>st. loads expected st \<and> length (st_file st) = 17))))"

text \<open>The bytes of the identifier: two letters with an accent, of two bytes each, and one ideograph of three.\<close>

definition unicode_id :: string where
  "unicode_id = string_of_bytes [0x6E, 0xC3, 0xB3, 0x64, 0xC3, 0xAB, 0x2D, 0xE4, 0xB8, 0x89]"

definition round_trips_a_unicode_node_id :: bool where [storage_test]:
  "round_trips_a_unicode_node_id \<longleftrightarrow>
     (let expected = test_state 21 (Some unicode_id) in storage_on [] (\<lambda>st. saves expected st (loads expected)))"

definition round_trips_the_largest_term :: bool where [storage_test]:
  "round_trips_the_largest_term \<longleftrightarrow>
     (let expected = test_state 18446744073709551615 (Some ''node-max'')
      in storage_on [] (\<lambda>st. saves expected st (loads expected)))"

definition writes_the_documented_binary_layout :: bool where [storage_test]:
  "writes_the_documented_binary_layout \<longleftrightarrow>
     storage_on [] (\<lambda>st. saves (test_state 0x0102030405060708 (Some ''abc'')) st (\<lambda>st.
       st_file st = [1, 2, 3, 4, 5, 6, 7, 8, 0, 0, 0, 0, 0, 0, 0, 3, 97, 98, 99]))"

definition separate_directories_do_not_share_state :: bool where [storage_test]:
  "separate_directories_do_not_share_state \<longleftrightarrow>
     (let first_state = test_state 2 (Some ''node-a''); second_state = test_state 15 (Some ''node-b'')
      in storage_on [] (\<lambda>first. storage_on [] (\<lambda>second.
           saves first_state first (\<lambda>first. saves second_state second (\<lambda>second.
             loads first_state first \<and> loads second_state second)))))"

section \<open>All tests pass\<close>

text \<open>A saving writes the layout of the state, and loading that layout gives the state back.\<close>

lemma saves_layout: "state_storable h \<Longrightarrow> saves h st rest \<longleftrightarrow> rest (st\<lparr>st_file := layout h\<rparr>)"
  by (simp add: saves_def save_state_layout state_storable_def)

lemma loads_layout: "state_storable h \<Longrightarrow> loads h \<lparr>st_dir = d, st_file = layout h\<rparr>"
  using load_layout [of h "\<lparr>st_dir = d, st_file = []\<rparr>"] read_back_storable [of h]
  by (simp add: loads_def state_storable_def)

lemma as_bytes_string_of_bytes: "as_bytes (string_of_bytes bs) = bs"
proof -
  have "unat b mod 256 = unat b" for b :: byte using unsigned_less [of b, where ?'a = nat] by simp
  then show ?thesis by (simp add: as_bytes_def string_of_bytes_def map_idI)
qed

lemma test_state_storable:
  "state_storable (test_state t None)"
  "vote \<noteq> [] \<Longrightarrow> length vote < 2 ^ 64 \<Longrightarrow> utf8_valid (as_bytes vote) \<Longrightarrow> state_storable (test_state t (Some vote))"
  by (simp_all add: state_storable_def state_ok_def vote_bytes_def test_state_def)

lemma test_layout_length:
  "length (layout (test_state t vote)) = 16 + length (case vote of None \<Rightarrow> [] | Some v \<Rightarrow> v)"
  by (simp add: layout_def vote_bytes_def test_state_def be64.length_enc split: option.split)

lemma unicode_id_valid: "unicode_id \<noteq> []" "length unicode_id = 10" "utf8_valid (as_bytes unicode_id)"
proof -
  show "utf8_valid (as_bytes unicode_id)"
    by (simp add: unicode_id_def as_bytes_string_of_bytes between_def)
qed (simp_all add: unicode_id_def string_of_bytes_def)

lemmas test_evaluation = storage_on_def storage_new_def saves_layout loads_layout test_state_storable
  test_layout_length unicode_id_valid Let_def

lemma tests_of_saving_and_loading:
  "saves_and_loads_a_term_without_a_vote" "saves_and_loads_a_vote" "saved_state_survives_reopening_storage"
  "overwriting_a_vote_with_none_clears_it"
  "overwriting_a_long_vote_with_a_shorter_vote_removes_trailing_bytes" "round_trips_the_largest_term"
  "separate_directories_do_not_share_state"
  by (simp_all add: storage_test test_evaluation as_bytes_def)

lemma tests_of_boundary_states:
  "new_storage_loads_the_default_hard_state" "round_trips_a_unicode_node_id"
  by (simp_all add: storage_test test_evaluation) (simp add: loads_def load_state_def test_state_def)

lemma test_of_the_layout: "writes_the_documented_binary_layout"
  by (simp add: storage_test test_evaluation as_bytes_def)
    (simp add: layout_def vote_bytes_def test_state_def u64_to_be_def be_bytes_numeral as_bytes_def)

end
