(* ===== verification/Runtime_Tests.thy ===== *)
theory Runtime_Tests
  imports Log_Test_Support Runtime_Theorems
begin

text \<open>
  The unit test of \<^verbatim>\<open>src/raft/runtime.rs\<close> on the model. The encoding of an entry, which is outside
  the repository, is the one of \<^const>\<open>demo_env\<close>; its application lists its commands, as the
  \<^verbatim>\<open>RecordingFsm\<close> of the test does. The index of the test's log is of 1024 bytes, which its slots
  do not divide.
\<close>

definition test_log_cfg :: log_config where
  "test_log_cfg = \<lparr>initial_offset = 1, log_sync_writes = False, max_size_bytes = 1024,
     log_max_store_bytes = 1024 * 1024\<rparr>"

definition single_node_write_is_persisted_applied_and_replied_to :: "byte list list rt_env \<Rightarrow> bool" where
  "single_node_write_is_persisted_applied_and_replied_to env =
     opened (log_new (re_log env) test_log_cfg ''raft-runtime-test'' (Some [])) (\<lambda>lg.
       (case runtime_new (NodeId ''node-1'') [NodeId ''node-1''] lg [] (Inr []) of
          Panic p \<Rightarrow> False
        | Done rt \<Rightarrow>
            (let rt = rt\<lparr>rt_raft := (rt_raft rt)\<lparr>role := Leader, current_term := 1\<rparr>\<rparr>
             in case handle_message env (MsgWrite (as_bytes ''set x=1'') 0) rt of
                  Panic p \<Rightarrow> False
                | Done rt \<Rightarrow> rt_sent rt = [(0, WriteReply (Inr ()))] \<and> commit_index (rt_raft rt) = 1 \<and>
                    last_applied (rt_raft rt) = 1 \<and> rt_fsm rt = [as_bytes ''set x=1''] \<and> rt_operations rt = [])))"

section \<open>The test passes\<close>

lemmas eval_runtime = demo_env_def runtime_new_def storage_new_def load_state_def log_next_offset_def
  log_directory_def raft_new_def boot_raft_def boot_progress_def hm_contains_def handle_message_def
  next_operation_id_def expect_some_def drive.simps handle_write_def execute_append_local_def get_operation_def
  give_back_def on_log_def execute_apply_def apply_entry_def inclusive_range_def send_reply_def
  saturating_add_def saturating_sub_def replication_targets_def hm_modify_def

lemma test_of_the_runtime: "single_node_write_is_persisted_applied_and_replied_to demo_env"
  by (simp add: single_node_write_is_persisted_applied_and_replied_to_def test_log_cfg_def log_test eval_simps
      eval_runtime step_simps)

end
