(* ===== verification/Spec2Isabelle.thy ===== *)
theory Spec2Isabelle
  imports Raft_Core_Theorems Raft_Core_Tests Raft_Storage Raft_Election Log_Faults Runtime_Faults Runtime_Restart
    Client_Refinement Membership Log_Refinement Log_Append_Errors Recovery_Theorems Storage_Theorems Runtime_Panics Raft_Roles
    Store_Index_Tests Segment_Tests Segmented_Log_Tests Storage_Tests Runtime_Tests
begin

text \<open>
  A verification library of the replicated log in \<^verbatim>\<open>src/\<close>: a Raft node that keeps its commands
  in a segmented log on disk, its term and vote in a small file, and serves writes over gRPC.

  \<^bold>\<open>The parts and how they interact.\<close> A client's request reaches \<^verbatim>\<open>ClientTransport::write\<close>, which
  encodes it into a pooled buffer and sends it over a channel to the runtime. \<^verbatim>\<open>Runtime\<close> owns the
  Raft state, the log, the hard-state storage, the application and a table of pending operations.
  It turns the request into an event for \<^verbatim>\<open>Raft::handle\<close>, a function from an event and the state
  to a new state and at most one effect; it executes the effect on the log, the storage or the
  application, which may give the next event, until nothing is left. \<^verbatim>\<open>Log\<close> is a list of segments,
  each a store of length-prefixed records and a memory-mapped index of their positions. \<^verbatim>\<open>Membership\<close>
  joins a gossip cluster and listens to its events, which do not reach Raft yet.

  \<^bold>\<open>Which theory models what.\<close>
  \<^item> \<open>Prelude\<close>: words as machine integers with checked and saturating arithmetic, a call that may
    panic (\<open>outcome\<close>), the \<^verbatim>\<open>?\<close> operator (\<open>and_then\<close>), hash maps as association lists, labelled
    steps with the locales \<open>step_invariant\<close> and \<open>step_monotone\<close>, operations against a specification
    with the locale \<open>simulation\<close>, and quorums with the locale
    \<open>quorum_system\<close>, interpreted on majorities of a voter list.
  \<^item> \<open>Raft_Types\<close> is \<^verbatim>\<open>raft/types.rs\<close>, a record or datatype per struct or enum. \<open>Raft_Core\<close> is
    \<^verbatim>\<open>raft/core.rs\<close>, one definition per handler and the dispatch \<open>handle\<close>. \<open>Raft_Core_Props\<close> holds
    the facts of single events, \<open>Raft_Core_Theorems\<close> the properties, \<open>Raft_Roles\<close> the roles as a
    state machine, and \<open>Raft_Core_Tests\<close> the unit tests of the source, evaluated on the model.
  \<^item> \<open>Bytes\<close> is the big-endian codecs (locale \<open>fixed_codec\<close>), UTF-8 validity and files as byte lists.
    \<open>Raft_Storage\<close> is \<^verbatim>\<open>raft/storage.rs\<close>: the layout of the hard state, saving as a sequence of file
    operations that may stop anywhere, and loading; what a node relies on is the locale
    \<open>durable_cell\<close>, interpreted on saving and loading. \<open>Storage_Theorems\<close> is the reader on any file.
  \<^item> \<open>Raft_Boot\<close> is the part of \<^verbatim>\<open>Runtime::new\<close> that builds the Raft state. \<open>Raft_Cluster\<close> puts nodes,
    their files and a network that loses, repeats and reorders vote messages together, and
    \<open>Raft_Election\<close> has the properties of elections.
  \<^item> \<open>Decimal\<close> is the decimal names of segment files. \<open>Log_Store\<close>, \<open>Log_Index\<close>, \<open>Log_Segment\<close> and
    \<open>Segmented_Log\<close> are \<^verbatim>\<open>log/store.rs\<close>, \<^verbatim>\<open>log/index.rs\<close>, \<^verbatim>\<open>log/segment.rs\<close> and \<^verbatim>\<open>log.rs\<close>. What a
    client may rely on is the locale \<open>record_log\<close>, interpreted on one segment and on the whole log.
    \<open>Log_Recovery\<close> is opening a directory again, \<open>Log_Theorems\<close> and \<open>Log_Faults\<close> the properties,
    \<open>Log_Append_Errors\<close> what a log still holds after an append that failed in any environment;
    \<open>Log_Refinement\<close> is the whole log against a list of records, an interpretation of \<open>simulation\<close>, and
    \<open>Recovery_Theorems\<close> what opening finds on any bytes and any directory.
  \<^item> \<open>Raft_Runtime\<close> is \<^verbatim>\<open>raft/runtime.rs\<close>: \<open>runtime_new\<close>, \<open>handle_message\<close>, \<open>drive\<close>, \<open>execute\<close> and the
    helpers of each effect. \<open>Runtime_Props\<close> has one lemma per round of the loop,
    \<open>Runtime_Theorems\<close> the behaviour of a node that is its own majority, \<open>Runtime_Invariants\<close> and
    \<open>Runtime_Faults\<close> what holds in every environment and how writes fail, \<open>Runtime_Panics\<close> which
    panics writes can cause, and \<open>Runtime_Restart\<close> a node that stops and starts again, over the
    log, the hard state and the runtime.
  \<^item> \<open>Client_Transport\<close> is \<^verbatim>\<open>grpc/client_transport.rs\<close>, \<open>Client_Theorems\<close> its properties together
    with the runtime, and \<open>Client_Refinement\<close> the path from the requests to the application, the other
    interpretation of \<open>simulation\<close>.
  \<^item> \<open>Membership\<close> is \<^verbatim>\<open>membership.rs\<close>: the start with its joins and panics, and the event loop.
  \<^item> \<open>Store_Index_Tests\<close>, \<open>Segment_Tests\<close>, \<open>Segmented_Log_Tests\<close> (over \<open>Log_Test_Support\<close>),
    \<open>Storage_Tests\<close> and \<open>Runtime_Tests\<close> are the unit tests of the source, evaluated on the model:
    each test is a definition of its name, and lemmas say that it holds.

  \<^bold>\<open>What the theorems show.\<close>
  \<^item> Elections: a node casts one vote per term, becomes leader only with a majority of grants, and
    in a cluster with restarts no term has two leaders, except through one branch of the code
    (an append request of a newer term that does not match): in any cluster, a leader that gets
    such a request stays leader in the newer term beside its sender, and a run from the start, with
    one restart, gets there. The roles of a node change only along Raft's diagram.
  \<^item> Replication in the core: that the commit index moves only with a majority on record and stays
    within the log, which messages of an older term change nothing (append responses do), in which
    states a handler panics, and where the code leaves Raft: refusals are counted as replication.
  \<^item> The hard state: saving and loading are inverse, the reader accepts exactly the files of the
    described layout, and what the next load gives after a stop inside any call of a saving, after
    any number of its bytes.
  \<^item> The log: when no call fails and the configuration lets it run (\<open>cfg_ok\<close> below), over any sequence
    of appends, reads, restarts and crashes it answers as a list of records does; records read back
    at the offsets their appends returned, across rotation, closing and reopening, and with
    synchronous writes across a crash; truncation, with the files it removes and those it leaves;
    what opening an index of any bytes and a directory of any names finds; what failed calls, short
    writes and an unsuitable configuration do. A failed append loses no record, but it can move the
    next offset, when the segment after the record cannot be opened.
  \<^item> The runtime: on a leader that is its own majority, with a log that starts at offset one under
    \<open>cfg_ok\<close>, a sequence of writes refines the application's state machine. In general clients are
    answered once or still wait, the loop ends within three rounds, writes reach neither a
    \<^verbatim>\<open>todo!()\<close> nor a missing table entry, and a leader with peers never acknowledges a write. A node
    that is its own majority and starts again replays nothing at the start, as the README says; but
    once it leads, which takes a hand as in the source's test, its first write replays every
    acknowledged write once and in order. On a log that starts at offset zero the first entry is
    acknowledged and never applied, and a log blocked by its index limit fails every write while its
    store grows.
  \<^item> The client transport: the requests of a client that find an empty buffer with room for them,
    through the transport and the runtime, are answered as the application alone answers them; when
    the command is the request, and the corruption a reused buffer causes; when the runtime shuts
    down every request ends, answered once or with an internal status.
  \<^item> Membership has lemmas only: when a start succeeds, which joins it has made by then, and that no
    membership event changes anything.

  \<^bold>\<open>The environment.\<close> What is not in the repository is a parameter. \<open>log_env\<close> decides for every
  system call of the log whether it fails and how much a write accepts; \<open>calm\<close> says that none
  fails. \<open>cfg_ok\<close> is the configuration under which a log keeps running: an index limit that is a
  positive multiple of twelve, the width of a slot, whose slots 32 bits can number, and a positive
  store limit. The only configuration of a node in the repository, that of the runtime's test, has
  an index limit of 1024 and is not one: such a segment takes 85 small records, and then every
  append fails. A fault schedule does the same for a saving of the hard state. \<open>rt_env\<close> adds the encoding
  of a log entry (hypothesis \<open>codec_ok\<close>: it decodes to itself), the application (hypothesis
  \<open>fsm_total\<close>: it accepts every command) and which clients stopped listening. \<open>client_env\<close> has the
  generated encoder of a request (hypothesis \<open>encoder_ok\<close>: its announced length is right). The
  order of a hash map's elements and of a directory listing is that of a list, which is
  arbitrary in every theorem.

  \<^bold>\<open>Bounds.\<close> Integers keep their width. Hypotheses such as \<open>log_room\<close> and \<open>fits\<close> say that an offset
  or a position stays below \<^verbatim>\<open>2^64\<close>, which is where the code panics on overflow. All functions
  terminate: \<open>drive\<close> by a rank of its events, \<open>recover_loop\<close> by the bytes that are left. No fuel is
  used except in \<open>drive_n\<close>, whose bound is the property proved.

  \<^bold>\<open>Not modelled.\<close> \<^verbatim>\<open>handle.rs\<close>, \<^verbatim>\<open>main.rs\<close>, \<^verbatim>\<open>lib.rs\<close>, the module files and the build script hold no
  logic. The gossip library is a parameter of \<open>Membership\<close>, and the tests of \<^verbatim>\<open>membership.rs\<close>, which wait
  for its network, are left out. The \<^verbatim>\<open>name()\<close> methods of a store and an index ask the operating
  system for the path of a descriptor, and two tests look at paths only. The tokio scheduler is
  left out: the runtime handles one message at a time, which is how \<^verbatim>\<open>run\<close> awaits them, and
  \<open>run_select\<close> takes the branches of its \<^verbatim>\<open>select!\<close> in any order. What the source leaves unfinished (the
  transport between nodes, timers, restoring the log position at a restart) is modelled as it
  stands, with \<^verbatim>\<open>todo!()\<close> as a panic. A vector's spare capacity matters only in the transport's test
  and is a number there.

  \<^bold>\<open>Plan.\<close> Left for later: a log-matching invariant over clusters once the sending of entries is
  written in the source.
\<close>

section \<open>The cluster's nodes save as the executor does\<close>

text \<open>
  \<open>persist\<close>, the step of a cluster's node on its file, is what \<^verbatim>\<open>Runtime::persist_hard_state\<close> does
  with the hard state of an effect when no call fails.
\<close>

lemma persist_hard_state_persist:
  assumes "re_faults env = no_faults" and "carried eff = Some h"
  shows "\<exists>rt' r. persist_hard_state env h rt = Done (rt', r) \<and>
    rt_storage rt' = persist (Inr (Some eff)) (rt_storage rt) \<and> rt_raft rt' = rt_raft rt"
  using assms by (auto simp: persist_hard_state_def persist_def map_err_def case_prod_unfold Let_def)

end
